(* ===== verification/Prelude.thy ===== *)
theory Prelude
  imports Main "HOL-Library.AList" "HOL-Library.List_Lexorder" "HOL-Library.Char_ord"
begin

text \<open>
  Shared vocabulary of the development: Go's outcomes (a result, a run-time panic, a call
  that never returns) and the state-passing combinators the handlers are written in; the
  functions of Go's \<open>strings\<close> and \<open>strconv\<close> packages the program calls; 64-bit integer
  arithmetic; and lemmas on association lists, which stand for Go maps in a fixed
  iteration order.
\<close>

named_theorems go_simps \<open>unfolding the combinators of stateful Go code\<close>
named_theorems str_simps \<open>rewriting calls of the Go strings package\<close>

section \<open>Outcomes of Go code\<close>

text \<open>
  A Go call returns, panics (nil dereference, failed type assertion, slice bounds), or never
  returns. An \<open>error\<close> value is an optional message: \<open>None\<close> is \<open>nil\<close>.
\<close>

datatype 'a outcome = Ret 'a | Panic string | Hang

type_synonym err = "string option"

abbreviation nil_err :: err where "nil_err \<equiv> None"

primrec obind :: "'a outcome \<Rightarrow> ('a \<Rightarrow> 'b outcome) \<Rightarrow> 'b outcome" where
  "obind (Ret x) f = f x"
| "obind (Panic m) f = Panic m"
| "obind Hang f = Hang"

definition nil_deref :: "'a outcome" where
  "nil_deref = Panic ''invalid memory address or nil pointer dereference''"

text \<open>Dereferencing a pointer: \<open>None\<close> is the nil pointer.\<close>

definition deref :: "'a option \<Rightarrow> 'a outcome" where
  "deref p = (case p of None \<Rightarrow> nil_deref | Some x \<Rightarrow> Ret x)"

lemma obind_Ret_right [simp]: "obind m Ret = m"
  by (cases m) simp_all

lemma obind_assoc [simp]: "obind (obind m f) g = obind m (\<lambda>x. obind (f x) g)"
  by (cases m) simp_all

lemma obind_eq_Ret_iff [simp]: "obind m f = Ret y \<longleftrightarrow> (\<exists>x. m = Ret x \<and> f x = Ret y)"
  by (cases m) simp_all

lemma obind_eq_Hang_iff [simp]: "obind m f = Hang \<longleftrightarrow> m = Hang \<or> (\<exists>x. m = Ret x \<and> f x = Hang)"
  by (cases m) simp_all

lemma deref_simps [simp]: "deref (Some x) = Ret x" "deref None = nil_deref"
  by (simp_all add: deref_def)

lemma deref_eq_Ret_iff [simp]: "deref p = Ret x \<longleftrightarrow> p = Some x"
  by (cases p) (auto simp: nil_deref_def)

lemma nil_deref_neq [simp]: "nil_deref \<noteq> Ret x" "Ret x \<noteq> nil_deref"
  by (simp_all add: nil_deref_def)

lemma obind_nil_deref [simp]: "obind nil_deref f = nil_deref"
  by (simp add: nil_deref_def)

section \<open>Stateful code\<close>

text \<open>
  A stateful call takes the state and returns its outcome with the new state. A panic keeps
  the changes made before it, as Go's does; \<open>recovered z\<close> is a function whose deferred
  \<open>handlePanic\<close> swallows the panic: it then returns the zero value \<open>z\<close> of its result.
\<close>

type_synonym ('w, 'a) go = "'w \<Rightarrow> 'a outcome \<times> 'w"

definition ret :: "'a \<Rightarrow> ('w, 'a) go" where
  "ret x = (\<lambda>w. (Ret x, w))"

definition bnd :: "('w, 'a) go \<Rightarrow> ('a \<Rightarrow> ('w, 'b) go) \<Rightarrow> ('w, 'b) go" where
  "bnd m f = (\<lambda>w. case m w of
     (Ret x, w') \<Rightarrow> f x w' | (Panic e, w') \<Rightarrow> (Panic e, w') | (Hang, w') \<Rightarrow> (Hang, w'))"

definition lift :: "'a outcome \<Rightarrow> ('w, 'a) go" where
  "lift r = (\<lambda>w. (r, w))"

definition gets :: "('w \<Rightarrow> 'a) \<Rightarrow> ('w, 'a) go" where
  "gets f = (\<lambda>w. (Ret (f w), w))"

definition modify :: "('w \<Rightarrow> 'w) \<Rightarrow> ('w, unit) go" where
  "modify f = (\<lambda>w. (Ret (), f w))"

definition recovered :: "'a \<Rightarrow> ('w, 'a) go \<Rightarrow> ('w, 'a) go" where
  "recovered z m = (\<lambda>w. case m w of (Panic e, w') \<Rightarrow> (Ret z, w') | r \<Rightarrow> r)"

text \<open>Running a call on one component of a larger state.\<close>

definition zoom :: "('w \<Rightarrow> 's) \<Rightarrow> ('s \<Rightarrow> 'w \<Rightarrow> 'w) \<Rightarrow> ('s, 'a) go \<Rightarrow> ('w, 'a) go" where
  "zoom g p m = (\<lambda>w. case m (g w) of (r, s) \<Rightarrow> (r, p s w))"

primrec mapM :: "('a \<Rightarrow> ('w, 'b) go) \<Rightarrow> 'a list \<Rightarrow> ('w, 'b list) go" where
  "mapM f [] = ret []"
| "mapM f (x # xs) = bnd (f x) (\<lambda>y. bnd (mapM f xs) (\<lambda>ys. ret (y # ys)))"

lemma ret_app [go_simps]: "ret x w = (Ret x, w)"
  by (simp add: ret_def)

lemma lift_app [go_simps]: "lift r w = (r, w)"
  by (simp add: lift_def)

lemma gets_app [go_simps]: "gets f w = (Ret (f w), w)"
  by (simp add: gets_def)

lemma modify_app [go_simps]: "modify f w = (Ret (), f w)"
  by (simp add: modify_def)

lemma bnd_Ret [go_simps]: "m w = (Ret x, w') \<Longrightarrow> bnd m f w = f x w'"
  by (simp add: bnd_def)

lemma bnd_Panic: "m w = (Panic e, w') \<Longrightarrow> bnd m f w = (Panic e, w')"
  by (simp add: bnd_def)

lemma bnd_Hang: "m w = (Hang, w') \<Longrightarrow> bnd m f w = (Hang, w')"
  by (simp add: bnd_def)

lemma bnd_ret [simp]: "bnd (ret x) f = f x"
  by (simp add: bnd_def ret_def fun_eq_iff)

lemma bnd_lift_Ret [simp]: "bnd (lift (Ret x)) f = f x"
  by (simp add: bnd_def lift_def fun_eq_iff)

lemma bnd_assoc: "bnd (bnd m f) g = bnd m (\<lambda>x. bnd (f x) g)"
  by (auto simp: bnd_def fun_eq_iff split: prod.split outcome.split)

lemma bnd_eq_Ret_iff:
  "bnd m f w = (Ret y, w'') \<longleftrightarrow> (\<exists>x w'. m w = (Ret x, w') \<and> f x w' = (Ret y, w''))"
  by (auto simp: bnd_def split: prod.splits outcome.splits)

lemma recovered_Ret: "m w = (Ret x, w') \<Longrightarrow> recovered z m w = (Ret x, w')"
  by (simp add: recovered_def)

lemma recovered_Panic: "m w = (Panic e, w') \<Longrightarrow> recovered z m w = (Ret z, w')"
  by (simp add: recovered_def)

lemma recovered_never_panics: "fst (recovered z m w) \<noteq> Panic e"
  by (auto simp: recovered_def split: prod.split outcome.split)

lemma zoom_app [go_simps]: "m (g w) = (r, s) \<Longrightarrow> zoom g p m w = (r, p s w)"
  by (simp add: zoom_def)

section \<open>64-bit integers\<close>

text \<open>Go's \<open>int\<close> is 64 bits wide here: results wrap to the two's complement range.\<close>

definition wrap64 :: "int \<Rightarrow> int" where
  "wrap64 x = (x + 2 ^ 63) mod 2 ^ 64 - 2 ^ 63"

definition in_int64 :: "int \<Rightarrow> bool" where
  "in_int64 x \<longleftrightarrow> - (2 ^ 63) \<le> x \<and> x < 2 ^ 63"

lemma wrap64_id [simp]: "in_int64 x \<Longrightarrow> wrap64 x = x"
  by (simp add: wrap64_def in_int64_def)

lemma wrap64_range [simp]: "in_int64 (wrap64 x)"
  by (simp add: wrap64_def in_int64_def)

text \<open>Go's \<open>/\<close> and \<open>%\<close> truncate towards zero and panic on a zero divisor.\<close>

definition quot :: "int \<Rightarrow> int \<Rightarrow> int" where
  "quot a b = sgn a * sgn b * (\<bar>a\<bar> div \<bar>b\<bar>)"

definition remainder :: "int \<Rightarrow> int \<Rightarrow> int" where
  "remainder a b = a - quot a b * b"

lemma quot_nonneg: "0 \<le> a \<Longrightarrow> 0 < b \<Longrightarrow> quot a b = a div b"
  by (cases "a = 0") (simp_all add: quot_def)

lemma remainder_nonneg: "0 \<le> a \<Longrightarrow> 0 < b \<Longrightarrow> remainder a b = a mod b"
  by (simp add: remainder_def quot_nonneg minus_div_mult_eq_mod)

section \<open>Association lists\<close>

lemma update_new: "k \<notin> fst ` set al \<Longrightarrow> AList.update k v al = al @ [(k, v)]"
  by (induction al) auto

section \<open>What a call does\<close>

text \<open>
  \<open>does R m P\<close>: whatever happens, the state after the call \<open>m\<close> is related to the state before
  by \<open>R\<close>; and the result, when there is one, satisfies \<open>P\<close>. For a reflexive and transitive
  \<open>R\<close> the rules below go through a program step by step.
\<close>

named_theorems does_intros \<open>introduction rules for what a call does\<close>

definition does :: "('w \<Rightarrow> 'w \<Rightarrow> bool) \<Rightarrow> ('w, 'a) go \<Rightarrow> ('a \<Rightarrow> bool) \<Rightarrow> bool" where
  "does R m P \<longleftrightarrow> (\<forall>w. R w (snd (m w)) \<and> (\<forall>x. fst (m w) = Ret x \<longrightarrow> P x))"

abbreviation any_result :: "'a \<Rightarrow> bool" where "any_result \<equiv> (\<lambda>_. True)"

lemma doesI: "(\<And>w. R w (snd (m w))) \<Longrightarrow> (\<And>w x. fst (m w) = Ret x \<Longrightarrow> P x) \<Longrightarrow> does R m P"
  by (simp add: does_def)

lemma does_state: "does R m P \<Longrightarrow> R w (snd (m w))"
  by (simp add: does_def)

lemma does_result: "does R m P \<Longrightarrow> fst (m w) = Ret x \<Longrightarrow> P x"
  by (simp add: does_def)

lemma does_weaken: "does R m P \<Longrightarrow> (\<And>x. P x \<Longrightarrow> Q x) \<Longrightarrow> does R m Q"
  by (simp add: does_def)

lemma does_gets: "(\<And>w. R w w) \<Longrightarrow> does R (gets f) any_result"
  by (simp add: does_def gets_def)

lemma does_ret: "(\<And>w. R w w) \<Longrightarrow> P x \<Longrightarrow> does R (ret x) P"
  by (simp add: does_def ret_def)

lemma does_lift: "(\<And>w. R w w) \<Longrightarrow> (\<And>x. r = Ret x \<Longrightarrow> P x) \<Longrightarrow> does R (lift r) P"
  by (simp add: does_def lift_def)

lemma does_modify: "(\<And>w. R w (f w)) \<Longrightarrow> does R (modify f) any_result"
  by (simp add: does_def modify_def)

lemma does_recovered: "does R m P \<Longrightarrow> P z \<Longrightarrow> does R (recovered z m) P"
proof (rule doesI)
  fix w x
  assume *: "does R m P" "P z"
  obtain r w1 where m: "m w = (r, w1)" by fastforce
  from does_state [OF *(1), of w] m show "R w (snd (recovered z m w))"
    by (cases r) (simp_all add: recovered_def)
  assume "fst (recovered z m w) = Ret x"
  with does_result [OF *(1), of w] *(2) m show "P x"
    by (cases r) (simp_all add: recovered_def)
qed

lemma does_bnd:
  assumes "\<And>a b c. R a b \<Longrightarrow> R b c \<Longrightarrow> R a c" "does R m P" "\<And>x. P x \<Longrightarrow> does R (f x) Q"
  shows "does R (bnd m f) Q"
proof (rule doesI)
  fix w
  obtain r w1 where m: "m w = (r, w1)" by fastforce
  have r1: "R w w1" using does_state [OF assms(2), of w] m by simp
  show "R w (snd (bnd m f w))"
  proof (cases r)
    case (Ret x)
    then have "P x" using does_result [OF assms(2), of w] m by simp
    from does_state [OF assms(3) [OF this], of w1] r1 assms(1) Ret m show ?thesis
      by (auto simp: bnd_def)
  qed (use m r1 in \<open>simp_all add: bnd_def\<close>)
  fix y assume y: "fst (bnd m f w) = Ret y"
  show "Q y"
  proof (cases r)
    case (Ret x)
    then have "P x" using does_result [OF assms(2), of w] m by simp
    from does_result [OF assms(3) [OF this], of w1] y Ret m show ?thesis by (simp add: bnd_def)
  qed (use m y in \<open>simp_all add: bnd_def\<close>)
qed

lemma does_if [does_intros]: "does R a P \<Longrightarrow> does R b P \<Longrightarrow> does R (if c then a else b) P"
  by simp

lemma does_option [does_intros]:
  "does R a P \<Longrightarrow> (\<And>y. does R (f y) P) \<Longrightarrow> does R (case x of None \<Rightarrow> a | Some y \<Rightarrow> f y) P"
  by (cases x) simp_all

lemma does_sum [does_intros]:
  "(\<And>y. does R (f y) P) \<Longrightarrow> (\<And>y. does R (g y) P) \<Longrightarrow> does R (case x of Inl y \<Rightarrow> f y | Inr y \<Rightarrow> g y) P"
  by (cases x) simp_all

lemma does_prod [does_intros]: "(\<And>a b. does R (f a b) P) \<Longrightarrow> does R (case x of (a, b) \<Rightarrow> f a b) P"
  by (cases x) simp

lemma does_Let [does_intros]: "does R (f x) P \<Longrightarrow> does R (let y = x in f y) P"
  by simp

end
