(* ===== verification/GoStrings.thy ===== *)
theory GoStrings
  imports Prelude
begin

text \<open>
  The functions of Go's \<open>strings\<close> and \<open>strconv\<close> packages the program calls. A Go string is
  a sequence of bytes; \<open>string\<close> is a list of 8-bit characters, so both count bytes.
\<close>

section \<open>Prefixes, suffixes, search\<close>

definition hasPrefix :: "string \<Rightarrow> string \<Rightarrow> bool" where
  "hasPrefix s p \<longleftrightarrow> take (length p) s = p"

definition hasSuffix :: "string \<Rightarrow> string \<Rightarrow> bool" where
  "hasSuffix s p \<longleftrightarrow> length p \<le> length s \<and> drop (length s - length p) s = p"

text \<open>\<open>strings.Index\<close> with a one-byte separator: the first position, or -1.\<close>

fun index_byte :: "string \<Rightarrow> char \<Rightarrow> int" where
  "index_byte [] c = -1"
| "index_byte (x # xs) c =
     (if x = c then 0 else let i = index_byte xs c in if i < 0 then -1 else i + 1)"

text \<open>\<open>strings.Contains\<close>.\<close>

fun str_contains :: "string \<Rightarrow> string \<Rightarrow> bool" where
  "str_contains [] p = (p = [])"
| "str_contains (c # s) p = (hasPrefix (c # s) p \<or> str_contains s p)"

section \<open>Replacement\<close>

text \<open>
  \<open>strings.Replace(s, old, new, n)\<close> for a non-empty \<open>old\<close>: the first \<open>n\<close> occurrences from
  the left, all of them when \<open>n\<close> is negative.
\<close>

function strings_Replace :: "string \<Rightarrow> string \<Rightarrow> string \<Rightarrow> int \<Rightarrow> string" where
  "strings_Replace [] old new n = []"
| "strings_Replace (c # s) old new n =
     (if n = 0 then c # s
      else if old \<noteq> [] \<and> hasPrefix (c # s) old
           then new @ strings_Replace (drop (length old) (c # s)) old new (n - 1)
           else c # strings_Replace s old new n)"
  by pat_completeness auto
termination
  by (relation "measure (\<lambda>(s, old, new, n). length s)") auto

section \<open>Splitting\<close>

text \<open>\<open>strings.Split\<close> with a one-byte separator.\<close>

fun split_byte :: "char \<Rightarrow> string \<Rightarrow> string list" where
  "split_byte c [] = [[]]"
| "split_byte c (x # xs) =
     (if x = c then [] # split_byte c xs
      else (case split_byte c xs of [] \<Rightarrow> [[x]] | f # fs \<Rightarrow> (x # f) # fs))"

text \<open>\<open>strings.FieldsFunc\<close>: the maximal non-empty runs of bytes that fail the test.\<close>

fun fields_acc :: "(char \<Rightarrow> bool) \<Rightarrow> string \<Rightarrow> string \<Rightarrow> string list" where
  "fields_acc p cur [] = (if cur = [] then [] else [cur])"
| "fields_acc p cur (c # s) =
     (if p c then (if cur = [] then fields_acc p [] s else cur # fields_acc p [] s)
      else fields_acc p (cur @ [c]) s)"

definition fieldsFunc :: "(char \<Rightarrow> bool) \<Rightarrow> string \<Rightarrow> string list" where
  "fieldsFunc p s = fields_acc p [] s"

text \<open>The ASCII white space of \<open>unicode.IsSpace\<close>, and \<open>strings.Fields\<close>.\<close>

definition is_space :: "char \<Rightarrow> bool" where
  "is_space c \<longleftrightarrow> of_char c \<in> {9 :: nat, 10, 11, 12, 13, 32}"

definition strings_Fields :: "string \<Rightarrow> string list" where
  "strings_Fields s = fieldsFunc is_space s"

section \<open>Case and decimal numbers\<close>

text \<open>\<open>strings.ToLower\<close> on ASCII.\<close>

definition lower_char :: "char \<Rightarrow> char" where
  "lower_char c = (let n = of_char c :: nat in
     if 65 \<le> n \<and> n \<le> 90 then char_of (n + 32) else c)"

definition toLower :: "string \<Rightarrow> string" where
  "toLower s = map lower_char s"

definition is_digit :: "char \<Rightarrow> bool" where
  "is_digit c \<longleftrightarrow> (let n = of_char c :: nat in 48 \<le> n \<and> n \<le> 57)"

definition digit_val :: "char \<Rightarrow> int" where
  "digit_val c = int (of_char c) - 48"

definition digit_char :: "nat \<Rightarrow> char" where
  "digit_char d = char_of (48 + d)"

fun dec_val :: "int \<Rightarrow> string \<Rightarrow> int option" where
  "dec_val acc [] = Some acc"
| "dec_val acc (c # cs) =
     (if is_digit c then dec_val (acc * 10 + digit_val c) cs else None)"

text \<open>\<open>strconv.Atoi\<close>: \<open>None\<close> is its error (syntax, or a value outside 64 bits).\<close>

definition atoi :: "string \<Rightarrow> int option" where
  "atoi s =
     (let (neg, ds) = (case s of
          [] \<Rightarrow> (False, [])
        | c # cs \<Rightarrow> if c = CHR ''-'' then (True, cs)
                    else if c = CHR ''+'' then (False, cs) else (False, c # cs))
      in if ds = [] then None
         else (case dec_val 0 ds of
             None \<Rightarrow> None
           | Some n \<Rightarrow> (let v = (if neg then - n else n)
                        in if in_int64 v then Some v else None)))"

text \<open>\<open>strconv.Itoa\<close>.\<close>

fun show_nat :: "nat \<Rightarrow> string" where
  "show_nat n = (if n < 10 then [digit_char n]
     else show_nat (n div 10) @ [digit_char (n mod 10)])"

declare show_nat.simps [simp del]

definition itoa :: "int \<Rightarrow> string" where
  "itoa i = (if i < 0 then CHR ''-'' # show_nat (nat (- i)) else show_nat (nat i))"

text \<open>A text between double quotes, nothing escaped.\<close>

definition dquoted :: "string \<Rightarrow> string" where
  "dquoted s = CHR 0x22 # s @ [CHR 0x22]"

section \<open>Lemmas\<close>

lemma hasPrefix_append [simp]: "hasPrefix (p @ s) p"
  by (simp add: hasPrefix_def)

lemma hasPrefix_iff: "hasPrefix s p \<longleftrightarrow> (\<exists>r. s = p @ r)"
  by (metis append_take_drop_id hasPrefix_append hasPrefix_def)

lemma hasPrefix_Cons1 [simp]: "hasPrefix (c # s) [a] \<longleftrightarrow> c = a"
  by (simp add: hasPrefix_def)

lemma hasSuffix_append [simp]: "hasSuffix (s @ p) p"
  by (simp add: hasSuffix_def)

text \<open>Replacing every occurrence of one byte by another is a map.\<close>

definition sub_byte :: "char \<Rightarrow> char \<Rightarrow> string \<Rightarrow> string" where
  "sub_byte a b s = map (\<lambda>c. if c = a then b else c) s"

lemma strings_Replace_byte [str_simps]:
  "n < 0 \<Longrightarrow> strings_Replace s [a] [b] n = sub_byte a b s"
proof (induction "length s" arbitrary: s n rule: less_induct)
  case less
  show ?case
  proof (cases s)
    case Nil
    then show ?thesis by (simp add: sub_byte_def)
  next
    case (Cons c cs)
    with less show ?thesis by (simp add: sub_byte_def)
  qed
qed

lemma sub_byte_Nil [simp]: "sub_byte a b [] = []"
  by (simp add: sub_byte_def)

lemma sub_byte_Cons [simp]:
  "sub_byte a b (c # s) = (if c = a then b else c) # sub_byte a b s"
  by (simp add: sub_byte_def)

lemma sub_byte_append [simp]: "sub_byte a b (s @ t) = sub_byte a b s @ sub_byte a b t"
  by (simp add: sub_byte_def)

lemma sub_byte_inverse: "b \<notin> set s \<Longrightarrow> sub_byte b a (sub_byte a b s) = s"
  by (induction s) auto

lemma sub_byte_absent [simp]: "a \<notin> set s \<Longrightarrow> sub_byte a b s = s"
  by (induction s) auto

lemma sub_byte_inj: "b \<notin> set s \<Longrightarrow> b \<notin> set t \<Longrightarrow> sub_byte a b s = sub_byte a b t \<longleftrightarrow> s = t"
  by (metis sub_byte_inverse)

lemma set_sub_byte: "a \<noteq> b \<Longrightarrow> a \<notin> set (sub_byte a b s)"
  by (auto simp: sub_byte_def)

lemma index_byte_neg_iff: "index_byte s c < 0 \<longleftrightarrow> c \<notin> set s"
  by (induction s) (auto simp: Let_def)

lemma index_byte_absent [simp]: "c \<notin> set s \<Longrightarrow> index_byte s c = -1"
  by (induction s) (auto simp: Let_def)

lemma index_byte_append [simp]: "c \<notin> set s \<Longrightarrow> index_byte (s @ c # t) c = int (length s)"
  by (induction s) (auto simp: Let_def)

lemma str_contains_byte [simp]: "str_contains s [c] \<longleftrightarrow> c \<in> set s"
  by (induction s) auto

lemma str_contains_iff: "str_contains s p \<longleftrightarrow> (\<exists>a b. s = a @ p @ b)"
proof (induction s)
  case Nil
  then show ?case by auto
next
  case (Cons c s)
  show ?case
  proof
    assume "str_contains (c # s) p"
    then consider "hasPrefix (c # s) p" | "str_contains s p" by auto
    then show "\<exists>a b. c # s = a @ p @ b"
    proof cases
      case 1
      then show ?thesis by (metis append_Nil hasPrefix_iff)
    next
      case 2
      then show ?thesis by (metis Cons.IH append_Cons)
    qed
  next
    assume "\<exists>a b. c # s = a @ p @ b"
    then obtain a b where ab: "c # s = a @ p @ b" by blast
    then show "str_contains (c # s) p"
    proof (cases a)
      case Nil
      with ab show ?thesis by (metis append_Nil hasPrefix_append str_contains.simps(2))
    next
      case (Cons x a')
      with ab have "s = a' @ p @ b" by simp
      then have "str_contains s p" using Cons.IH by blast
      then show ?thesis by simp
    qed
  qed
qed

lemma strings_Replace_absent: "\<not> str_contains s old \<Longrightarrow> strings_Replace s old new n = s"
  by (induction s old new n rule: strings_Replace.induct) auto

lemma split_byte_not_Nil [simp]: "split_byte c s \<noteq> []"
  by (induction s) (auto split: list.splits)

lemma split_byte_absent: "c \<notin> set s \<Longrightarrow> split_byte c s = [s]"
  by (induction s) auto

lemma fields_acc_nonempty: "f \<in> set (fields_acc p cur s) \<Longrightarrow> f \<noteq> []"
  by (induction p cur s rule: fields_acc.induct) (auto split: if_splits)

lemma fieldsFunc_nonempty: "f \<in> set (fieldsFunc p s) \<Longrightarrow> f \<noteq> []"
  by (simp add: fieldsFunc_def fields_acc_nonempty)

subsection \<open>Decimal round trip\<close>

lemma is_digit_digit_char [simp]: "d < 10 \<Longrightarrow> is_digit (digit_char d)"
  by (simp add: is_digit_def digit_char_def)

lemma digit_val_digit_char [simp]: "d < 10 \<Longrightarrow> digit_val (digit_char d) = int d"
  by (simp add: digit_val_def digit_char_def)

lemma dec_val_append:
  "dec_val a (xs @ ys) = (case dec_val a xs of None \<Rightarrow> None | Some b \<Rightarrow> dec_val b ys)"
  by (induction a xs rule: dec_val.induct) auto

lemma dec_val_show_nat: "dec_val 0 (show_nat n) = Some (int n)"
proof (induction n rule: show_nat.induct)
  case (1 n)
  show ?case
  proof (cases "n < 10")
    case True
    then show ?thesis by (subst show_nat.simps) simp
  next
    case False
    then have "dec_val 0 (show_nat (n div 10)) = Some (int (n div 10))" using 1 by blast
    with False show ?thesis
      by (subst show_nat.simps) (simp add: dec_val_append zdiv_int zmod_int)
  qed
qed

lemma show_nat_not_Nil [simp]: "show_nat n \<noteq> []"
  by (subst show_nat.simps) simp

lemma show_nat_digits: "c \<in> set (show_nat n) \<Longrightarrow> is_digit c"
proof (induction n rule: show_nat.induct)
  case (1 n)
  then show ?case
    by (subst (asm) (2) show_nat.simps) (auto split: if_splits)
qed

lemma atoi_digits:
  assumes "s \<noteq> []" and "\<And>c. c \<in> set s \<Longrightarrow> is_digit c"
  shows "atoi s = (case dec_val 0 s of None \<Rightarrow> None
           | Some n \<Rightarrow> if in_int64 n then Some n else None)"
proof -
  obtain c cs where s: "s = c # cs" using assms(1) by (cases s) auto
  have "is_digit c" using assms(2) s by simp
  then have "c \<noteq> CHR ''-''" "c \<noteq> CHR ''+''" by (auto simp: is_digit_def)
  with s show ?thesis by (simp add: atoi_def Let_def split: option.split)
qed

lemma atoi_itoa: "in_int64 i \<Longrightarrow> atoi (itoa i) = Some i"
proof (cases "i < 0")
  case True
  assume "in_int64 i"
  with True show ?thesis
    by (simp add: itoa_def atoi_def dec_val_show_nat)
next
  case False
  assume "in_int64 i"
  with False show ?thesis
    by (simp add: itoa_def atoi_digits show_nat_digits dec_val_show_nat)
qed

end
