(* ===== verification/GoValues.thy ===== *)
theory GoValues
  imports GoStrings
begin

text \<open>
  The dynamic values the program handles as \<open>interface{}\<close> and
  \<open>map[string]interface{}\<close>: JSON documents, event data, mappings and trigger conditions;
  and their text (\<open>json.Marshal\<close>, \<open>fmt.Sprintf("%v")\<close>).
\<close>

section \<open>Values\<close>

text \<open>
  A Go map is an association list with distinct keys, in the order one iteration visits it
  (Go leaves that order open: a theorem about every list is about every order). \<open>VInt\<close> is a
  Go \<open>int\<close> the program put into a map itself; \<open>VFloat m e\<close> is the \<open>float64\<close> that
  \<open>encoding/json\<close> read from the literal \<open>m / 10 ^ e\<close>. \<open>VNilMap\<close> is a nil map held in an
  interface, which is not the nil interface \<open>VNil\<close>.
\<close>

datatype val =
    VNil
  | VBool bool
  | VInt int
  | VFloat int nat
  | VStr string
  | VArr "val list"
  | VMap "(string \<times> val) list"
  | VNilMap

type_synonym entries = "(string \<times> val) list"

text \<open>A variable of type \<open>map[string]interface{}\<close>: \<open>None\<close> is the nil map.\<close>

type_synonym gomap = "entries option"

definition entries_of :: "gomap \<Rightarrow> entries" where
  "entries_of m = (case m of None \<Rightarrow> [] | Some kvs \<Rightarrow> kvs)"

definition of_gomap :: "gomap \<Rightarrow> val" where
  "of_gomap m = (case m of None \<Rightarrow> VNilMap | Some kvs \<Rightarrow> VMap kvs)"

text \<open>The checked assertions \<open>v.(map[string]interface{})\<close> and \<open>v.(string)\<close>.\<close>

definition as_map :: "val \<Rightarrow> gomap option" where
  "as_map v = (case v of VMap kvs \<Rightarrow> Some (Some kvs) | VNilMap \<Rightarrow> Some None | _ \<Rightarrow> None)"

definition as_string :: "val \<Rightarrow> string option" where
  "as_string v = (case v of VStr s \<Rightarrow> Some s | _ \<Rightarrow> None)"

text \<open>The unchecked ones: a failed assertion panics.\<close>

definition assert_map :: "val \<Rightarrow> gomap outcome" where
  "assert_map v = (case as_map v of Some m \<Rightarrow> Ret m
     | None \<Rightarrow> Panic ''interface conversion: not map[string]interface {}'')"

definition assert_string :: "val \<Rightarrow> string outcome" where
  "assert_string v = (case as_string v of Some s \<Rightarrow> Ret s
     | None \<Rightarrow> Panic ''interface conversion: not string'')"

text \<open>Reading a missing key gives the nil interface.\<close>

definition map_get :: "entries \<Rightarrow> string \<Rightarrow> val" where
  "map_get kvs k = (case map_of kvs k of None \<Rightarrow> VNil | Some v \<Rightarrow> v)"

lemma as_map_simps [simp]:
  "as_map (VMap kvs) = Some (Some kvs)" "as_map VNilMap = Some None"
  "as_map VNil = None" "as_map (VBool b) = None" "as_map (VInt i) = None"
  "as_map (VFloat m e) = None" "as_map (VStr s) = None" "as_map (VArr xs) = None"
  by (simp_all add: as_map_def)

lemma as_string_simps [simp]:
  "as_string (VStr s) = Some s" "as_string VNil = None" "as_string (VBool b) = None"
  "as_string (VInt i) = None" "as_string (VFloat m e) = None" "as_string (VArr xs) = None"
  "as_string (VMap kvs) = None" "as_string VNilMap = None"
  by (simp_all add: as_string_def)

lemma as_map_eq_SomeD: "as_map v = Some m \<Longrightarrow> v = of_gomap m"
  by (auto simp: as_map_def of_gomap_def split: val.splits option.splits)

lemma as_map_of_gomap [simp]: "as_map (of_gomap m) = Some m"
  by (simp add: of_gomap_def split: option.split)

lemma assert_map_of_gomap [simp]: "assert_map (of_gomap m) = Ret m"
  by (simp add: assert_map_def)

lemma assert_map_VMap [simp]: "assert_map (VMap kvs) = Ret (Some kvs)"
  by (simp add: assert_map_def)

lemma assert_string_VStr [simp]: "assert_string (VStr s) = Ret s"
  by (simp add: assert_string_def)

lemma entries_of_simps [simp]: "entries_of None = []" "entries_of (Some kvs) = kvs"
  by (simp_all add: entries_of_def)

section \<open>Well-formed values\<close>

text \<open>Every map at every depth has distinct keys, all of which satisfy \<open>P\<close>.\<close>

fun keys_ok :: "(string \<Rightarrow> bool) \<Rightarrow> val \<Rightarrow> bool" and
    keys_ok_entries :: "(string \<Rightarrow> bool) \<Rightarrow> entries \<Rightarrow> bool" and
    keys_ok_list :: "(string \<Rightarrow> bool) \<Rightarrow> val list \<Rightarrow> bool" where
  "keys_ok P (VArr xs) = keys_ok_list P xs"
| "keys_ok P (VMap kvs) = keys_ok_entries P kvs"
| "keys_ok P _ = True"
| "keys_ok_entries P [] = True"
| "keys_ok_entries P ((k, v) # kvs) =
     (P k \<and> k \<notin> fst ` set kvs \<and> keys_ok P v \<and> keys_ok_entries P kvs)"
| "keys_ok_list P [] = True"
| "keys_ok_list P (v # vs) = (keys_ok P v \<and> keys_ok_list P vs)"

abbreviation wf_val :: "val \<Rightarrow> bool" where "wf_val \<equiv> keys_ok (\<lambda>_. True)"
abbreviation wf_entries :: "entries \<Rightarrow> bool" where "wf_entries \<equiv> keys_ok_entries (\<lambda>_. True)"

lemma keys_ok_list_iff: "keys_ok_list P vs \<longleftrightarrow> (\<forall>v \<in> set vs. keys_ok P v)"
  by (induction vs) auto

lemma keys_ok_entries_iff:
  "keys_ok_entries P kvs \<longleftrightarrow>
     distinct (map fst kvs) \<and> (\<forall>(k, v) \<in> set kvs. P k \<and> keys_ok P v)"
proof (induction kvs)
  case Nil
  then show ?case by simp
next
  case (Cons kv kvs)
  then show ?case by (cases kv) auto
qed

lemma keys_ok_entries_distinct: "keys_ok_entries P kvs \<Longrightarrow> distinct (map fst kvs)"
  by (simp add: keys_ok_entries_iff)

section \<open>What JSON text keeps of a value\<close>

text \<open>
  \<open>wire v\<close> is the value read back from the text \<open>json.Marshal\<close> writes for \<open>v\<close>: numbers
  come back as \<open>float64\<close>, a nil map as \<open>null\<close>. A \<open>json.RawMessage\<close> is modelled by the value
  its text denotes.
\<close>

primrec wire :: "val \<Rightarrow> val" where
  "wire VNil = VNil"
| "wire (VBool b) = VBool b"
| "wire (VInt i) = VFloat i 0"
| "wire (VFloat m e) = VFloat m e"
| "wire (VStr s) = VStr s"
| "wire (VArr xs) = VArr (map wire xs)"
| "wire (VMap kvs) = VMap (map (map_prod id wire) kvs)"
| "wire VNilMap = VNil"

definition wire_entries :: "entries \<Rightarrow> entries" where
  "wire_entries kvs = map (map_prod id wire) kvs"

lemma wire_VMap: "wire (VMap kvs) = VMap (wire_entries kvs)"
  by (simp add: wire_entries_def)

lemma wire_wire [simp]: "wire (wire v) = wire v"
  by (induction v) (auto simp: map_prod_def split: prod.splits)

lemma map_of_wire_entries: "map_of (wire_entries kvs) k = map_option wire (map_of kvs k)"
  by (induction kvs) (auto simp: wire_entries_def)

lemma fst_wire_entries [simp]: "map fst (wire_entries kvs) = map fst kvs"
  by (simp add: wire_entries_def)

text \<open>A value that JSON text preserves: no Go \<open>int\<close> and no nil map inside.\<close>

definition json_val :: "val \<Rightarrow> bool" where
  "json_val v \<longleftrightarrow> wire v = v"

definition json_entries :: "entries \<Rightarrow> bool" where
  "json_entries kvs \<longleftrightarrow> wire_entries kvs = kvs"

lemma json_val_VMap [simp]: "json_val (VMap kvs) \<longleftrightarrow> json_entries kvs"
  by (simp add: json_val_def json_entries_def wire_VMap del: wire.simps(7))

lemma json_val_nil [simp]: "\<not> json_val VNilMap" "\<not> json_val (VInt i)"
  by (simp_all add: json_val_def)

lemma json_val_VArr [simp]: "json_val (VArr xs) \<longleftrightarrow> (\<forall>v \<in> set xs. json_val v)"
  by (induction xs) (auto simp: json_val_def)

lemma json_entries_wire [simp]: "json_entries (wire_entries kvs)"
  by (auto simp: json_entries_def wire_entries_def)

lemma json_entries_Nil [simp]: "json_entries []"
  by (simp add: json_entries_def wire_entries_def)

lemma json_entries_Cons [simp]:
  "json_entries ((k, v) # kvs) \<longleftrightarrow> json_val v \<and> json_entries kvs"
  by (auto simp: json_entries_def wire_entries_def json_val_def)

end
