(* ===== verification/Conditions.thy ===== *)
theory Conditions
  imports GoValues
begin

text \<open>
  Trigger conditions (\<open>workflow/TriggerDB.go\<close>): Elasticsearch field names may not contain
  dots, so conditions are stored with \<open>~\<close> for \<open>.\<close>, and the variables of an event type live
  under its name. \<open>encodeCondition\<close> and \<open>decodeCondition\<close> translate; this theory models them
  and shows when they are inverse to each other, by way of one description of both
  (\<open>rename_val\<close>): a renaming of every key.
\<close>

section \<open>handleDotTilde and handleUniqueParams\<close>

text \<open>
  Each function ranges over the entries and writes them to a fresh output map: a write to a
  key already written replaces its value. \<open>handleDotTildeMap\<close> renames the keys of scalar
  values only.
\<close>

fun handleDotTildeMap :: "(string \<Rightarrow> string) \<Rightarrow> entries \<Rightarrow> entries \<Rightarrow> entries" and
    handleDotTildeArr :: "(string \<Rightarrow> string) \<Rightarrow> val list \<Rightarrow> val list" where
  "handleDotTildeMap f out [] = out"
| "handleDotTildeMap f out ((k, v) # kvs) = handleDotTildeMap f
     (case v of
        VArr xs \<Rightarrow> AList.update k (VArr (handleDotTildeArr f xs)) out
      | VMap m \<Rightarrow> AList.update k (VMap (handleDotTildeMap f [] m)) out
      | VNilMap \<Rightarrow> AList.update k (VMap []) out
      | _ \<Rightarrow> AList.update (f k) v out) kvs"
| "handleDotTildeArr f [] = []"
| "handleDotTildeArr f (v # vs) =
     (case v of
        VArr xs \<Rightarrow> VArr (handleDotTildeArr f xs)
      | VMap m \<Rightarrow> VMap (handleDotTildeMap f [] m)
      | VNilMap \<Rightarrow> VMap []
      | _ \<Rightarrow> v) # handleDotTildeArr f vs"

text \<open>A value that is neither a map nor a slice gives the nil interface.\<close>

definition handleDotTilde :: "val \<Rightarrow> (string \<Rightarrow> string) \<Rightarrow> val" where
  "handleDotTilde v f = (case v of
     VMap m \<Rightarrow> VMap (handleDotTildeMap f [] m)
   | VNilMap \<Rightarrow> VMap []
   | VArr xs \<Rightarrow> VArr (handleDotTildeArr f xs)
   | _ \<Rightarrow> VNil)"

fun handleUniqueParamsMap ::
    "string \<Rightarrow> (string \<Rightarrow> string \<Rightarrow> string) \<Rightarrow> entries \<Rightarrow> entries \<Rightarrow> entries" and
    handleUniqueParamsArr :: "string \<Rightarrow> (string \<Rightarrow> string \<Rightarrow> string) \<Rightarrow> val list \<Rightarrow> val list" where
  "handleUniqueParamsMap t g out [] = out"
| "handleUniqueParamsMap t g out ((k, v) # kvs) = handleUniqueParamsMap t g
     (case v of
        VArr xs \<Rightarrow> AList.update (g t k) (VArr (handleUniqueParamsArr t g xs)) out
      | VMap m \<Rightarrow> AList.update (g t k) (VMap (handleUniqueParamsMap t g [] m)) out
      | VNilMap \<Rightarrow> AList.update (g t k) (VMap []) out
      | _ \<Rightarrow> AList.update (g t k) v out) kvs"
| "handleUniqueParamsArr t g [] = []"
| "handleUniqueParamsArr t g (v # vs) =
     (case v of
        VArr xs \<Rightarrow> VArr (handleUniqueParamsArr t g xs)
      | VMap m \<Rightarrow> VMap (handleUniqueParamsMap t g [] m)
      | VNilMap \<Rightarrow> VMap []
      | _ \<Rightarrow> v) # handleUniqueParamsArr t g vs"

definition handleUniqueParams :: "val \<Rightarrow> string \<Rightarrow> (string \<Rightarrow> string \<Rightarrow> string) \<Rightarrow> val" where
  "handleUniqueParams v t g = (case v of
     VMap m \<Rightarrow> VMap (handleUniqueParamsMap t g [] m)
   | VNilMap \<Rightarrow> VMap []
   | VArr xs \<Rightarrow> VArr (handleUniqueParamsArr t g xs)
   | _ \<Rightarrow> VNil)"

section \<open>The encodings\<close>

definition dots_to_tildes :: "string \<Rightarrow> string" where
  "dots_to_tildes s = strings_Replace s ''.'' ''~'' (-1)"

definition tildes_to_dots :: "string \<Rightarrow> string" where
  "tildes_to_dots s = strings_Replace s ''~'' ''.'' (-1)"

text \<open>The closure \<open>PostTrigger\<close> passes: put the event type's name after \<open>data.\<close>.\<close>

definition add_type_name :: "string \<Rightarrow> string \<Rightarrow> string" where
  "add_type_name t key = strings_Replace key ''data.'' (''data.'' @ t @ ''.'') 1"

text \<open>The closure \<open>decodeCondition\<close> passes: drop the second dotted component.\<close>

definition drop_type_name :: "string \<Rightarrow> string \<Rightarrow> string" where
  "drop_type_name t key =
     (let i = nat (index_byte key CHR ''.'' + 1);
          firstPart = take i key;
          rest = drop i key
      in firstPart @ drop (nat (index_byte rest CHR ''.'' + 1)) rest)"

definition encodeCondition :: "val \<Rightarrow> val" where
  "encodeCondition v = handleDotTilde v dots_to_tildes"

definition decodeCondition :: "val \<Rightarrow> val" where
  "decodeCondition v =
     handleUniqueParams (handleDotTilde v tildes_to_dots) ''unusedEventTypeName'' drop_type_name"

section \<open>Both as a renaming of keys\<close>

text \<open>A renaming may treat the keys of scalars (first argument true) and of containers apart.\<close>

definition is_leaf :: "val \<Rightarrow> bool" where
  "is_leaf v = (case v of VArr xs \<Rightarrow> False | VMap m \<Rightarrow> False | VNilMap \<Rightarrow> False | _ \<Rightarrow> True)"

type_synonym renaming = "bool \<Rightarrow> string \<Rightarrow> string"

fun rename_val :: "renaming \<Rightarrow> val \<Rightarrow> val" and
    rename_entries :: "renaming \<Rightarrow> entries \<Rightarrow> entries" and
    rename_list :: "renaming \<Rightarrow> val list \<Rightarrow> val list" where
  "rename_val h (VArr xs) = VArr (rename_list h xs)"
| "rename_val h (VMap kvs) = VMap (rename_entries h kvs)"
| "rename_val h VNilMap = VMap []"
| "rename_val h VNil = VNil"
| "rename_val h (VBool b) = VBool b"
| "rename_val h (VInt i) = VInt i"
| "rename_val h (VFloat m e) = VFloat m e"
| "rename_val h (VStr s) = VStr s"
| "rename_entries h [] = []"
| "rename_entries h ((k, v) # kvs) = (h (is_leaf v) k, rename_val h v) # rename_entries h kvs"
| "rename_list h [] = []"
| "rename_list h (v # vs) = rename_val h v # rename_list h vs"

text \<open>The renaming keeps the keys of every map distinct.\<close>

fun rename_ok :: "renaming \<Rightarrow> val \<Rightarrow> bool" and
    rename_ok_entries :: "renaming \<Rightarrow> entries \<Rightarrow> bool" and
    rename_ok_list :: "renaming \<Rightarrow> val list \<Rightarrow> bool" where
  "rename_ok h (VArr xs) = rename_ok_list h xs"
| "rename_ok h (VMap kvs) = rename_ok_entries h kvs"
| "rename_ok h _ = True"
| "rename_ok_entries h [] = True"
| "rename_ok_entries h ((k, v) # kvs) =
     (h (is_leaf v) k \<notin> fst ` set (rename_entries h kvs) \<and> rename_ok h v \<and> rename_ok_entries h kvs)"
| "rename_ok_list h [] = True"
| "rename_ok_list h (v # vs) = (rename_ok h v \<and> rename_ok_list h vs)"

lemma is_leaf_simps [simp]:
  "\<not> is_leaf (VArr xs)" "\<not> is_leaf (VMap m)" "\<not> is_leaf VNilMap" "is_leaf VNil"
  "is_leaf (VBool b)" "is_leaf (VInt i)" "is_leaf (VFloat n e)" "is_leaf (VStr s)"
  by (simp_all add: is_leaf_def)

lemma is_leaf_rename [simp]: "is_leaf (rename_val h v) = is_leaf v"
  by (cases v) auto

definition dot_tilde_renaming :: "(string \<Rightarrow> string) \<Rightarrow> renaming" where
  "dot_tilde_renaming f = (\<lambda>leaf k. if leaf then f k else k)"

lemma handleDotTilde_rename:
  "rename_ok_entries (dot_tilde_renaming f) kvs \<Longrightarrow>
     fst ` set out \<inter> fst ` set (rename_entries (dot_tilde_renaming f) kvs) = {} \<Longrightarrow>
     handleDotTildeMap f out kvs = out @ rename_entries (dot_tilde_renaming f) kvs"
  "rename_ok_list (dot_tilde_renaming f) vs \<Longrightarrow>
     handleDotTildeArr f vs = rename_list (dot_tilde_renaming f) vs"
proof (induction f out kvs and f vs rule: handleDotTildeMap_handleDotTildeArr.induct)
  case (2 f out k v kvs)
  then show ?case
    by (cases v) (auto simp: dot_tilde_renaming_def update_new)
next
  case (4 f v vs)
  then show ?case by (cases v) (auto simp: dot_tilde_renaming_def)
qed auto

lemma handleUniqueParams_rename:
  "rename_ok_entries (\<lambda>_. g t) kvs \<Longrightarrow>
     fst ` set out \<inter> fst ` set (rename_entries (\<lambda>_. g t) kvs) = {} \<Longrightarrow>
     handleUniqueParamsMap t g out kvs = out @ rename_entries (\<lambda>_. g t) kvs"
  "rename_ok_list (\<lambda>_. g t) vs \<Longrightarrow>
     handleUniqueParamsArr t g vs = rename_list (\<lambda>_. g t) vs"
proof (induction t g out kvs and t g vs
    rule: handleUniqueParamsMap_handleUniqueParamsArr.induct)
  case (2 t g out k v kvs)
  then show ?case
    by (cases v) (auto simp: update_new)
next
  case (4 t g v vs)
  then show ?case by (cases v) auto
qed auto

section \<open>Renamings compose\<close>

lemma rename_comp:
  "rename_val h (rename_val h' v) = rename_val (\<lambda>l k. h l (h' l k)) v"
  "rename_entries h (rename_entries h' kvs) = rename_entries (\<lambda>l k. h l (h' l k)) kvs"
  "rename_list h (rename_list h' vs) = rename_list (\<lambda>l k. h l (h' l k)) vs"
  by (induction h' v and h' kvs and h' vs
      rule: rename_val_rename_entries_rename_list.induct) auto

lemma rename_ok_comp:
  "rename_ok h (rename_val h' v) \<longleftrightarrow> rename_ok (\<lambda>l k. h l (h' l k)) v"
  "rename_ok_entries h (rename_entries h' kvs) \<longleftrightarrow> rename_ok_entries (\<lambda>l k. h l (h' l k)) kvs"
  "rename_ok_list h (rename_list h' vs) \<longleftrightarrow> rename_ok_list (\<lambda>l k. h l (h' l k)) vs"
  by (induction h' v and h' kvs and h' vs
      rule: rename_val_rename_entries_rename_list.induct) (auto simp: rename_comp)

lemma map_fst_rename_entries:
  "map fst (rename_entries h kvs) = map (\<lambda>(k, v). h (is_leaf v) k) kvs"
  by (induction kvs) auto

lemma fst_rename_entries:
  "fst ` set (rename_entries h kvs) = (\<lambda>(k, v). h (is_leaf v) k) ` set kvs"
  using map_fst_rename_entries [of h kvs] by (metis image_set)

text \<open>A renaming that is injective on the keys that occur keeps every map a map.\<close>

definition inj_renaming :: "(string \<Rightarrow> bool) \<Rightarrow> renaming \<Rightarrow> bool" where
  "inj_renaming P h \<longleftrightarrow> (\<forall>l l' k k'. P k \<and> P k' \<and> h l k = h l' k' \<longrightarrow> k = k')"

lemma rename_key_new:
  assumes "inj_renaming P h" "keys_ok_entries P ((k, v) # kvs)"
  shows "h (is_leaf v) k \<notin> fst ` set (rename_entries h kvs)"
proof
  assume "h (is_leaf v) k \<in> fst ` set (rename_entries h kvs)"
  then obtain k' v' where kv: "(k', v') \<in> set kvs" and eq: "h (is_leaf v) k = h (is_leaf v') k'"
    by (auto simp: fst_rename_entries)
  from kv assms(2) have "P k'" "P k" by (auto simp: keys_ok_entries_iff)
  with assms(1) eq have "k = k'" unfolding inj_renaming_def by blast
  with kv assms(2) show False by force
qed

lemma rename_okI:
  "inj_renaming P h \<Longrightarrow> keys_ok P v \<Longrightarrow> rename_ok h v"
  "inj_renaming P h \<Longrightarrow> keys_ok_entries P kvs \<Longrightarrow> rename_ok_entries h kvs"
  "inj_renaming P h \<Longrightarrow> keys_ok_list P vs \<Longrightarrow> rename_ok_list h vs"
proof (induction P v and P kvs and P vs rule: keys_ok_keys_ok_entries_keys_ok_list.induct)
  case (5 P k v kvs)
  have "h (is_leaf v) k \<notin> fst ` set (rename_entries h kvs)"
    using rename_key_new [OF 5(3,4)] .
  with 5 show ?case by auto
qed auto

text \<open>A renaming that fixes every key is the identity on JSON values.\<close>

definition fixes_keys :: "(string \<Rightarrow> bool) \<Rightarrow> renaming \<Rightarrow> bool" where
  "fixes_keys P h \<longleftrightarrow> (\<forall>l k. P k \<longrightarrow> h l k = k)"

lemma fixes_keys_inj: "fixes_keys P h \<Longrightarrow> inj_renaming P h"
  by (auto simp: fixes_keys_def inj_renaming_def)

lemma rename_id:
  "fixes_keys P h \<Longrightarrow> keys_ok P v \<Longrightarrow> json_val v \<Longrightarrow> rename_val h v = v"
  "fixes_keys P h \<Longrightarrow> keys_ok_entries P kvs \<Longrightarrow> json_entries kvs \<Longrightarrow> rename_entries h kvs = kvs"
  "fixes_keys P h \<Longrightarrow> keys_ok_list P vs \<Longrightarrow> list_all json_val vs \<Longrightarrow> rename_list h vs = vs"
  by (induction P v and P kvs and P vs rule: keys_ok_keys_ok_entries_keys_ok_list.induct)
     (simp_all add: fixes_keys_def json_val_nil list_all_iff)

text \<open>Only what a renaming does to the keys that occur matters.\<close>

definition same_on_keys :: "(string \<Rightarrow> bool) \<Rightarrow> renaming \<Rightarrow> renaming \<Rightarrow> bool" where
  "same_on_keys P h h' \<longleftrightarrow> (\<forall>l k. P k \<longrightarrow> h l k = h' l k)"

lemma rename_cong:
  "same_on_keys P h h' \<Longrightarrow> keys_ok P v \<Longrightarrow> rename_val h v = rename_val h' v"
  "same_on_keys P h h' \<Longrightarrow> keys_ok_entries P kvs \<Longrightarrow> rename_entries h kvs = rename_entries h' kvs"
  "same_on_keys P h h' \<Longrightarrow> keys_ok_list P vs \<Longrightarrow> rename_list h vs = rename_list h' vs"
  by (induction P v and P kvs and P vs rule: keys_ok_keys_ok_entries_keys_ok_list.induct)
     (simp_all add: same_on_keys_def)

lemma rename_ok_cong:
  "same_on_keys P h h' \<Longrightarrow> keys_ok P v \<Longrightarrow> rename_ok h v = rename_ok h' v"
  "same_on_keys P h h' \<Longrightarrow> keys_ok_entries P kvs \<Longrightarrow> rename_ok_entries h kvs = rename_ok_entries h' kvs"
  "same_on_keys P h h' \<Longrightarrow> keys_ok_list P vs \<Longrightarrow> rename_ok_list h vs = rename_ok_list h' vs"
proof (induction P v and P kvs and P vs rule: keys_ok_keys_ok_entries_keys_ok_list.induct)
  case (5 P k v kvs)
  moreover from 5 have "rename_entries h kvs = rename_entries h' kvs"
    by (auto intro: rename_cong(2))
  ultimately show ?case by (auto simp: same_on_keys_def)
qed auto

section \<open>The two encodings on keys\<close>

lemma dots_to_tildes_sub: "dots_to_tildes k = sub_byte CHR ''.'' CHR ''~'' k"
  by (simp add: dots_to_tildes_def strings_Replace_byte)

lemma tildes_to_dots_sub: "tildes_to_dots k = sub_byte CHR ''~'' CHR ''.'' k"
  by (simp add: tildes_to_dots_def strings_Replace_byte)

definition plain_key :: "string \<Rightarrow> bool" where
  "plain_key k \<longleftrightarrow> CHR ''~'' \<notin> set k"

lemma tildes_dots_inverse: "plain_key k \<Longrightarrow> tildes_to_dots (dots_to_tildes k) = k"
  by (simp add: dots_to_tildes_sub tildes_to_dots_sub sub_byte_inverse plain_key_def)

lemma tildes_to_dots_plain: "plain_key k \<Longrightarrow> tildes_to_dots k = k"
  by (simp add: tildes_to_dots_sub plain_key_def)

lemma dots_to_tildes_plain_iff:
  "plain_key k \<Longrightarrow> plain_key (dots_to_tildes k) \<Longrightarrow> dots_to_tildes k = k"
  by (induction k) (auto simp: plain_key_def dots_to_tildes_sub split: if_splits)

abbreviation enc_renaming :: renaming where
  "enc_renaming \<equiv> dot_tilde_renaming dots_to_tildes"

abbreviation dec_renaming :: renaming where
  "dec_renaming \<equiv> dot_tilde_renaming tildes_to_dots"

lemma enc_renaming_inj:
  assumes "plain_key k" "plain_key k'" "enc_renaming l k = enc_renaming l' k'"
  shows "k = k'"
proof (cases "l = l'")
  case True
  with assms show ?thesis
    by (cases l) (auto simp: dot_tilde_renaming_def dots_to_tildes_sub plain_key_def sub_byte_inj)
next
  case False
  then consider "l" "\<not> l'" | "\<not> l" "l'" by auto
  then show ?thesis
  proof cases
    case 1
    with assms have "dots_to_tildes k = k'" by (simp add: dot_tilde_renaming_def)
    with assms(1,2) show ?thesis using dots_to_tildes_plain_iff [of k] by simp
  next
    case 2
    with assms have "dots_to_tildes k' = k" by (simp add: dot_tilde_renaming_def)
    with assms(1,2) show ?thesis using dots_to_tildes_plain_iff [of k'] by simp
  qed
qed

lemma inj_enc_renaming: "inj_renaming plain_key enc_renaming"
  unfolding inj_renaming_def using enc_renaming_inj by blast

lemma dec_enc_renaming: "plain_key k \<Longrightarrow> dec_renaming l (enc_renaming l k) = k"
  by (simp add: dot_tilde_renaming_def tildes_dots_inverse)

text \<open>Dropping the second component undoes adding it.\<close>

lemma nat_int_Suc: "nat (int n + 1) = Suc n"
  by simp

lemma drop_type_name_dotfree: "CHR ''.'' \<notin> set k \<Longrightarrow> drop_type_name t k = k"
  by (simp add: drop_type_name_def)

lemma drop_type_name_data:
  "CHR ''.'' \<notin> set x \<Longrightarrow> CHR ''.'' \<notin> set y \<Longrightarrow>
     drop_type_name t (x @ CHR ''.'' # y @ CHR ''.'' # r) = x @ CHR ''.'' # r"
  by (simp add: drop_type_name_def Let_def nat_int_Suc)

lemma drop_type_name_one_dot:
  "CHR ''.'' \<notin> set x \<Longrightarrow> CHR ''.'' \<notin> set y \<Longrightarrow>
     drop_type_name t (x @ CHR ''.'' # y) = x @ CHR ''.'' # y"
  by (simp add: drop_type_name_def Let_def nat_int_Suc)

lemma add_type_name_dotfree:
  assumes "CHR ''.'' \<notin> set k"
  shows "add_type_name t k = k"
proof -
  have "\<not> str_contains k ''data.''" using assms by (auto simp: str_contains_iff)
  then show ?thesis by (simp add: add_type_name_def strings_Replace_absent)
qed

lemma strings_Replace_0 [simp]: "strings_Replace s old new 0 = s"
  by (cases s) auto

lemma add_type_name_data: "add_type_name t (''data.'' @ r) = ''data.'' @ t @ ''.'' @ r"
  by (simp add: add_type_name_def hasPrefix_def)

text \<open>
  The keys for which the translation is faithful: no tilde, and either no dot or \<open>data.\<close>
  in front; and the event type names: no dot, no tilde.
\<close>

definition cond_key :: "string \<Rightarrow> bool" where
  "cond_key k \<longleftrightarrow> plain_key k \<and> (CHR ''.'' \<notin> set k \<or> hasPrefix k ''data.'')"

definition type_name_ok :: "string \<Rightarrow> bool" where
  "type_name_ok t \<longleftrightarrow> CHR ''.'' \<notin> set t \<and> CHR ''~'' \<notin> set t"

lemma cond_key_plain: "cond_key k \<Longrightarrow> plain_key k"
  by (simp add: cond_key_def)

lemma add_type_name_plain:
  "type_name_ok t \<Longrightarrow> cond_key k \<Longrightarrow> plain_key (add_type_name t k)"
  by (auto simp: cond_key_def type_name_ok_def plain_key_def hasPrefix_iff
      add_type_name_data [unfolded append_Cons append_Nil] add_type_name_dotfree)

lemma drop_add_type_name:
  assumes t: "type_name_ok t" and k: "cond_key k"
  shows "drop_type_name u (add_type_name t k) = k"
proof (cases "CHR ''.'' \<in> set k")
  case False
  then show ?thesis by (simp add: add_type_name_dotfree drop_type_name_dotfree)
next
  case True
  with k obtain r where r: "k = ''data.'' @ r" by (auto simp: cond_key_def hasPrefix_iff)
  have "drop_type_name u (''data'' @ CHR ''.'' # t @ CHR ''.'' # r) = ''data'' @ CHR ''.'' # r"
    by (rule drop_type_name_data) (use t in \<open>auto simp: type_name_ok_def\<close>)
  with r show ?thesis using add_type_name_data [of t r] by simp
qed

section \<open>Round trips\<close>

text \<open>
  The pipeline of a stored condition: \<open>PostTrigger\<close> adds the type name, \<open>PostData\<close> turns
  dots to tildes; \<open>GetOne\<close> turns them back and drops the type name.
\<close>

definition add_renaming :: "string \<Rightarrow> renaming" where
  "add_renaming t = (\<lambda>_. add_type_name t)"

definition drop_renaming :: renaming where
  "drop_renaming = (\<lambda>_. drop_type_name ''unusedEventTypeName'')"

lemma encodeCondition_rename:
  "keys_ok plain_key (VMap kvs) \<Longrightarrow> encodeCondition (VMap kvs) = rename_val enc_renaming (VMap kvs)"
  using rename_okI(2) [OF inj_enc_renaming, of kvs]
  by (simp add: encodeCondition_def handleDotTilde_def handleDotTilde_rename)

lemma add_type_name_rename:
  assumes "rename_ok (add_renaming t) (VMap kvs)"
  shows "handleUniqueParams (VMap kvs) t add_type_name = rename_val (add_renaming t) (VMap kvs)"
  using assms by (simp add: handleUniqueParams_def handleUniqueParams_rename add_renaming_def)

lemma decodeCondition_rename:
  assumes "rename_ok dec_renaming (VMap kvs)"
    and "rename_ok drop_renaming (rename_val dec_renaming (VMap kvs))"
  shows "decodeCondition (VMap kvs) = rename_val drop_renaming (rename_val dec_renaming (VMap kvs))"
  using assms
  by (simp add: decodeCondition_def handleDotTilde_def handleUniqueParams_def drop_renaming_def
      handleDotTilde_rename handleUniqueParams_rename)

lemma same_dec_enc:
  "same_on_keys plain_key (\<lambda>l k. h l (dec_renaming l (enc_renaming l k))) h"
  by (simp add: same_on_keys_def dec_enc_renaming)

text \<open>Decoding what was encoded drops the second component of every key.\<close>

lemma decode_encode_rename:
  assumes plain: "keys_ok plain_key (VMap kvs)" and ok: "rename_ok drop_renaming (VMap kvs)"
  shows "decodeCondition (encodeCondition (VMap kvs)) = rename_val drop_renaming (VMap kvs)"
proof -
  let ?e = "rename_entries enc_renaming kvs"
  have enc: "encodeCondition (VMap kvs) = VMap ?e"
    using encodeCondition_rename [OF plain] by simp
  have "inj_renaming plain_key (\<lambda>l k. dec_renaming l (enc_renaming l k))"
    by (rule fixes_keys_inj) (simp add: fixes_keys_def dec_enc_renaming)
  from rename_okI(2) [OF this] plain have dec_ok: "rename_ok dec_renaming (VMap ?e)"
    by (simp add: rename_ok_comp)
  have drop_ok: "rename_ok drop_renaming (rename_val dec_renaming (VMap ?e))"
    using rename_ok_cong(2) [OF same_dec_enc, of kvs drop_renaming] plain ok
    by (simp add: rename_ok_comp rename_comp)
  show ?thesis
    using decodeCondition_rename [OF dec_ok drop_ok] plain
      rename_cong(2) [OF same_dec_enc, of kvs drop_renaming]
    by (simp add: enc rename_comp)
qed

lemma keys_ok_mono:
  "keys_ok P v \<Longrightarrow> (\<And>k. P k \<Longrightarrow> Q k) \<Longrightarrow> keys_ok Q v"
  "keys_ok_entries P kvs \<Longrightarrow> (\<And>k. P k \<Longrightarrow> Q k) \<Longrightarrow> keys_ok_entries Q kvs"
  "keys_ok_list P vs \<Longrightarrow> (\<And>k. P k \<Longrightarrow> Q k) \<Longrightarrow> keys_ok_list Q vs"
  by (induction P v and P kvs and P vs rule: keys_ok_keys_ok_entries_keys_ok_list.induct) auto

lemma keys_ok_rename:
  "\<forall>l k. P k \<longrightarrow> Q (h l k) \<Longrightarrow> rename_ok h v \<Longrightarrow> keys_ok P v \<Longrightarrow> keys_ok Q (rename_val h v)"
  "\<forall>l k. P k \<longrightarrow> Q (h l k) \<Longrightarrow> rename_ok_entries h kvs \<Longrightarrow> keys_ok_entries P kvs \<Longrightarrow>
     keys_ok_entries Q (rename_entries h kvs)"
  "\<forall>l k. P k \<longrightarrow> Q (h l k) \<Longrightarrow> rename_ok_list h vs \<Longrightarrow> keys_ok_list P vs \<Longrightarrow>
     keys_ok_list Q (rename_list h vs)"
  by (induction P v and P kvs and P vs rule: keys_ok_keys_ok_entries_keys_ok_list.induct) auto

lemma drop_add_fixes: "type_name_ok t \<Longrightarrow> fixes_keys cond_key (\<lambda>l k. drop_renaming l (add_renaming t l k))"
  by (simp add: fixes_keys_def drop_renaming_def add_renaming_def drop_add_type_name)

lemma add_renaming_inj:
  assumes "type_name_ok t"
  shows "inj_renaming cond_key (add_renaming t)"
  unfolding inj_renaming_def add_renaming_def using drop_add_type_name [OF assms] by metis

text \<open>
  Adding the event type name to the data paths of a condition, encoding it for the index and
  decoding it on the way back gives the condition that was posted, for conditions whose dotted
  keys are data paths and event types whose names have neither dots nor tildes.
\<close>

lemma condition_pipeline:
  assumes t: "type_name_ok t" and keys: "keys_ok cond_key (VMap kvs)" and js: "json_val (VMap kvs)"
  shows "decodeCondition (encodeCondition (handleUniqueParams (VMap kvs) t add_type_name)) = VMap kvs"
proof -
  let ?u = "rename_entries (add_renaming t) kvs"
  from keys have ok: "rename_ok (add_renaming t) (VMap kvs)"
    using rename_okI(2) [OF add_renaming_inj [OF t]] by simp
  have u: "handleUniqueParams (VMap kvs) t add_type_name = VMap ?u"
    using add_type_name_rename [OF ok] by simp
  have plain: "keys_ok plain_key (VMap ?u)"
    using keys_ok_rename(1) [of cond_key plain_key "add_renaming t" "VMap kvs"] ok keys t
    by (simp add: add_renaming_def add_type_name_plain)
  have drop_ok: "rename_ok drop_renaming (VMap ?u)"
    using rename_okI(2) [OF fixes_keys_inj [OF drop_add_fixes [OF t]]] keys
    by (simp add: rename_ok_comp)
  have "rename_val drop_renaming (VMap ?u) = VMap kvs"
    using rename_id(1) [OF drop_add_fixes [OF t] keys js] by (simp add: rename_comp)
  then show ?thesis using decode_encode_rename [OF plain drop_ok] u by simp
qed

lemma json_val_base: "json_val VNil" "json_val (VBool b)" "json_val (VFloat m e)" "json_val (VStr s)"
  by (simp_all add: json_val_def)

text \<open>The renamed conditions are JSON values, so storing them loses nothing.\<close>

lemma json_rename:
  "json_val v \<Longrightarrow> json_val (rename_val h v)"
  "json_entries kvs \<Longrightarrow> json_entries (rename_entries h kvs)"
  "\<forall>v \<in> set vs. json_val v \<Longrightarrow> \<forall>v \<in> set (rename_list h vs). json_val v"
  by (induction h v and h kvs and h vs rule: rename_val_rename_entries_rename_list.induct)
     (auto simp: json_val_base)

lemma condition_stored:
  assumes "type_name_ok t" "keys_ok_entries cond_key kvs" "json_entries kvs"
  shows "\<exists>u e. handleUniqueParams (VMap kvs) t add_type_name = VMap u \<and> encodeCondition (VMap u) = VMap e \<and>
    json_entries e \<and> decodeCondition (VMap e) = VMap kvs"
proof -
  let ?u = "rename_entries (add_renaming t) kvs"
  have ok: "rename_ok (add_renaming t) (VMap kvs)"
    using rename_okI(2) [OF add_renaming_inj [OF assms(1)]] assms(2) by simp
  have u: "handleUniqueParams (VMap kvs) t add_type_name = VMap ?u"
    using add_type_name_rename [OF ok] by simp
  have "keys_ok plain_key (VMap ?u)"
    using keys_ok_rename(2) [of cond_key plain_key "add_renaming t" kvs] ok assms(1,2)
    by (simp add: add_renaming_def add_type_name_plain)
  then have e: "encodeCondition (VMap ?u) = VMap (rename_entries enc_renaming ?u)"
    using encodeCondition_rename by simp
  have "decodeCondition (VMap (rename_entries enc_renaming ?u)) = VMap kvs"
    using condition_pipeline [OF assms(1), of kvs] assms(2,3) u e by simp
  with u e json_rename(2) [OF json_rename(2) [OF assms(3)]] show ?thesis by blast
qed

text \<open>Keys with at most one dot survive any number of encodings and decodings.\<close>

definition one_dot_key :: "string \<Rightarrow> bool" where
  "one_dot_key k \<longleftrightarrow> plain_key k \<and> length (filter (\<lambda>c. c = CHR ''.'') k) \<le> 1"

lemma one_dot_split:
  assumes "length (filter (\<lambda>c. c = CHR ''.'') k) \<le> 1" and "CHR ''.'' \<in> set k"
  shows "\<exists>x y. k = x @ CHR ''.'' # y \<and> CHR ''.'' \<notin> set x \<and> CHR ''.'' \<notin> set y"
proof -
  obtain x y where k: "k = x @ CHR ''.'' # y" and x: "CHR ''.'' \<notin> set x"
    using assms(2) by (meson split_list_first)
  have "filter (\<lambda>c. c = CHR ''.'') y = []" using assms(1) k by simp
  then have "CHR ''.'' \<notin> set y" by (auto simp: filter_empty_conv)
  with k x show ?thesis by blast
qed

lemma drop_type_name_one_dot_key: "one_dot_key k \<Longrightarrow> drop_type_name t k = k"
  using one_dot_split [of k] drop_type_name_dotfree drop_type_name_one_dot
  by (metis one_dot_key_def)

text \<open>
  What a condition becomes when it is encoded without its type name and decoded: every key with
  two dots or more loses its second component.
\<close>

definition switched :: "entries \<Rightarrow> entries" where
  "switched kvs = rename_entries drop_renaming kvs"

lemma condition_switched:
  assumes "keys_ok_entries plain_key kvs" "rename_ok drop_renaming (VMap kvs)" "json_entries kvs"
  shows "json_entries (rename_entries enc_renaming kvs)"
    "decodeCondition (VMap (rename_entries enc_renaming kvs)) = VMap (switched kvs)"
  using assms decode_encode_rename [of kvs] encodeCondition_rename [of kvs] json_rename(2) [OF assms(3)]
  by (simp_all add: switched_def)

lemma one_dot_switched:
  assumes "keys_ok_entries one_dot_key kvs" "json_entries kvs"
  shows "keys_ok_entries plain_key kvs" "rename_ok drop_renaming (VMap kvs)" "switched kvs = kvs"
proof -
  have fx: "fixes_keys one_dot_key drop_renaming"
    by (simp add: fixes_keys_def drop_renaming_def drop_type_name_one_dot_key)
  show "keys_ok_entries plain_key kvs"
    using keys_ok_mono(2) [OF assms(1), of plain_key] by (simp add: one_dot_key_def)
  show "rename_ok drop_renaming (VMap kvs)"
    using rename_okI(2) [OF fixes_keys_inj [OF fx]] assms(1) by simp
  show "switched kvs = kvs" using rename_id(2) [OF fx] assms by (simp add: switched_def)
qed

end
