(* ===== verification/JsonText.thy ===== *)
theory JsonText
  imports GoValues
begin

text \<open>
  The text of values: \<open>json.Marshal\<close> (map keys in byte order, strings escaped) and
  \<open>fmt.Sprint\<close> (the \<open>%v\<close> verb). Both write a \<open>float64\<close> with \<open>strconv\<close>'s shortest
  \<open>'g'\<close> format, as Go 1.7 does. Strings are taken to be valid UTF-8.
\<close>

section \<open>Numbers\<close>

text \<open>
  The decimal digits of the mantissa without trailing zeros, and the position of the
  decimal point relative to the first digit.
\<close>

definition strip_zeros :: "string \<Rightarrow> string" where
  "strip_zeros s = rev (dropWhile (\<lambda>c. c = CHR ''0'') (rev s))"

definition exponent_text :: "int \<Rightarrow> string" where
  "exponent_text x = (if x < 0 then ''-'' else ''+'') @
     (if \<bar>x\<bar> < 10 then ''0'' else []) @ show_nat (nat \<bar>x\<bar>)"

definition float_g :: "int \<Rightarrow> nat \<Rightarrow> string" where
  "float_g m e =
     (if m = 0 then ''0'' else
      let all = show_nat (nat \<bar>m\<bar>);
          ds = strip_zeros all;
          dp = int (length all) - int e;
          x = dp - 1;
          sign = (if m < 0 then ''-'' else [])
      in sign @
         (if x < -4 \<or> x \<ge> 6
          then (case ds of d # r \<Rightarrow> [d] @ (if r = [] then [] else CHR ''.'' # r)
                 | [] \<Rightarrow> []) @ ''e'' @ exponent_text x
          else if dp \<le> 0 then ''0.'' @ replicate (nat (- dp)) CHR ''0'' @ ds
          else if nat dp \<ge> length ds then ds @ replicate (nat dp - length ds) CHR ''0''
          else take (nat dp) ds @ ''.'' @ drop (nat dp) ds))"

section \<open>Strings\<close>

definition hex_char :: "nat \<Rightarrow> char" where
  "hex_char n = (if n < 10 then char_of (48 + n) else char_of (87 + n))"

definition escape_char :: "char \<Rightarrow> string" where
  "escape_char c =
     (let n = of_char c :: nat in
      if n = 34 \<or> n = 92 then [char_of (92 :: nat), c]
      else if n = 10 then [char_of (92 :: nat), CHR ''n'']
      else if n = 13 then [char_of (92 :: nat), CHR ''r'']
      else if n = 9 then [char_of (92 :: nat), CHR ''t'']
      else if n < 32 \<or> n = 60 \<or> n = 62 \<or> n = 38
        then char_of (92 :: nat) # ''u00'' @ [hex_char (n div 16), hex_char (n mod 16)]
      else [c])"

definition quote :: "string \<Rightarrow> string" where
  "quote s = CHR 0x22 # concat (map escape_char s) @ [CHR 0x22]"

text \<open>Go's own quoting, \<open>strconv.Quote\<close>, which the \<open>%#v\<close> verb uses.\<close>

definition go_escape_char :: "char \<Rightarrow> string" where
  "go_escape_char c =
     (let n = of_char c :: nat in
      if n = 34 \<or> n = 92 then [char_of (92 :: nat), c]
      else if 7 \<le> n \<and> n \<le> 13 then [char_of (92 :: nat), ''abtnvfr'' ! (n - 7)]
      else if n < 32 \<or> n = 127
        then char_of (92 :: nat) # ''x'' @ [hex_char (n div 16), hex_char (n mod 16)]
      else [c])"

definition go_quote :: "string \<Rightarrow> string" where
  "go_quote s = CHR 0x22 # concat (map go_escape_char s) @ [CHR 0x22]"

text \<open>The error of \<open>strconv.Atoi\<close>: bad syntax, or a value outside 64 bits.\<close>

definition atoi_error :: "string \<Rightarrow> string" where
  "atoi_error s =
     (let ds = (if s \<noteq> [] \<and> (hd s = CHR ''-'' \<or> hd s = CHR ''+'') then tl s else s)
      in ''strconv.ParseInt: parsing '' @ go_quote s @ '': '' @
         (if ds = [] \<or> dec_val 0 ds = None then ''invalid syntax'' else ''value out of range''))"

text \<open>The dynamic type of a value, as the \<open>%T\<close> verb names it.\<close>

definition type_name :: "val \<Rightarrow> string" where
  "type_name v = (case v of
     VNil \<Rightarrow> ''<nil>'' | VBool _ \<Rightarrow> ''bool'' | VInt _ \<Rightarrow> ''int'' | VFloat _ _ \<Rightarrow> ''float64''
   | VStr _ \<Rightarrow> ''string'' | VArr _ \<Rightarrow> ''[]interface {}''
   | VMap _ \<Rightarrow> ''map[string]interface {}'' | VNilMap \<Rightarrow> ''map[string]interface {}'')"

fun join :: "string \<Rightarrow> string list \<Rightarrow> string" where
  "join sep [] = []"
| "join sep [x] = x"
| "join sep (x # y # ys) = x @ sep @ join sep (y # ys)"

section \<open>Values\<close>

primrec json_text :: "val \<Rightarrow> string" where
  "json_text VNil = ''null''"
| "json_text (VBool b) = (if b then ''true'' else ''false'')"
| "json_text (VInt i) = itoa i"
| "json_text (VFloat m e) = float_g m e"
| "json_text (VStr s) = quote s"
| "json_text (VArr xs) = ''['' @ join '','' (map json_text xs) @ '']''"
| "json_text (VMap kvs) = ''{'' @ join '','' (map (\<lambda>(k, t). quote k @ '':'' @ t)
     (sort_key fst (map (map_prod id json_text) kvs))) @ ''}''"
| "json_text VNilMap = ''null''"

primrec sprint :: "val \<Rightarrow> string" where
  "sprint VNil = ''<nil>''"
| "sprint (VBool b) = (if b then ''true'' else ''false'')"
| "sprint (VInt i) = itoa i"
| "sprint (VFloat m e) = float_g m e"
| "sprint (VStr s) = s"
| "sprint (VArr xs) = ''['' @ join '' '' (map sprint xs) @ '']''"
| "sprint (VMap kvs) = ''map['' @ join '' ''
     (map (\<lambda>(k, t). k @ '':'' @ t) (map (map_prod id sprint) kvs)) @ '']''"
| "sprint VNilMap = ''map[]''"

end
