(* ===== verification/JsonParse.thy ===== *)
theory JsonParse
  imports JsonText
begin

text \<open>
  \<open>json.Unmarshal\<close> into an \<open>interface{}\<close>: a parser of JSON text. \<open>None\<close> is its syntax
  error. Every recursive call is on a shorter text; the length tests make that visible to
  the termination proof and always succeed. A number is read as the decimal it denotes; of
  the escapes \<open>\u\<close> those up to \<open>FFFF\<close> are written in UTF-8, without pairing surrogates.
\<close>

section \<open>Tokens\<close>

fun skip_ws :: "string \<Rightarrow> string" where
  "skip_ws [] = []"
| "skip_ws (c # s) = (if of_char c \<in> {9 :: nat, 10, 13, 32} then skip_ws s else c # s)"

lemma length_skip_ws: "length (skip_ws s) \<le> length s"
  by (induction s) auto

definition hex_val :: "char \<Rightarrow> nat option" where
  "hex_val c = (let n = of_char c :: nat in
     if 48 \<le> n \<and> n \<le> 57 then Some (n - 48)
     else if 97 \<le> n \<and> n \<le> 102 then Some (n - 87)
     else if 65 \<le> n \<and> n \<le> 70 then Some (n - 55) else None)"

definition utf8 :: "nat \<Rightarrow> string" where
  "utf8 n = (if n < 128 then [char_of n]
     else if n < 2048 then [char_of (192 + n div 64), char_of (128 + n mod 64)]
     else [char_of (224 + n div 4096), char_of (128 + n div 64 mod 64), char_of (128 + n mod 64)])"

definition simple_escape :: "char \<Rightarrow> char option" where
  "simple_escape c = (let n = of_char c :: nat in
     if n \<in> {34, 47, 92} then Some c
     else if c = CHR ''b'' then Some (char_of (8 :: nat))
     else if c = CHR ''f'' then Some (char_of (12 :: nat))
     else if c = CHR ''n'' then Some (char_of (10 :: nat))
     else if c = CHR ''r'' then Some (char_of (13 :: nat))
     else if c = CHR ''t'' then Some (char_of (9 :: nat)) else None)"

text \<open>The rest of a string literal, after its opening quote.\<close>

function scan_string :: "string \<Rightarrow> (string \<times> string) option" where
  "scan_string [] = None"
| "scan_string (c # s) =
     (if c = CHR 0x22 then Some ([], s)
      else if of_char c < (32 :: nat) then None
      else if c = CHR 0x5C then
        (case s of
           [] \<Rightarrow> None
         | x # r \<Rightarrow>
             if x = CHR ''u'' then
               (case map hex_val (take 4 r) of
                  [Some a, Some b, Some d, Some e] \<Rightarrow>
                    map_option (\<lambda>(t, r'). (utf8 (a * 4096 + b * 256 + d * 16 + e) @ t, r'))
                      (scan_string (drop 4 r))
                | _ \<Rightarrow> None)
             else (case simple_escape x of
                  None \<Rightarrow> None
                | Some y \<Rightarrow> map_option (\<lambda>(t, r'). (y # t, r')) (scan_string r)))
      else map_option (\<lambda>(t, r'). (c # t, r')) (scan_string s))"
  by pat_completeness auto
termination
  by (relation "measure length") auto

text \<open>A number: sign, digits, fraction, exponent; the decimal in lowest terms.\<close>

fun trim_frac :: "int \<Rightarrow> nat \<Rightarrow> val" where
  "trim_frac m 0 = VFloat m 0"
| "trim_frac m (Suc e) = (if m mod 10 = 0 then trim_frac (m div 10) e else VFloat m (Suc e))"

definition scale_num :: "int \<Rightarrow> nat \<Rightarrow> int \<Rightarrow> val" where
  "scale_num m f x =
     (if x \<ge> int f then VFloat (m * 10 ^ nat (x - int f)) 0 else trim_frac m (nat (int f - x)))"

definition digits_val :: "string \<Rightarrow> int" where
  "digits_val ds = (case dec_val 0 ds of None \<Rightarrow> 0 | Some n \<Rightarrow> n)"

definition scan_digits :: "string \<Rightarrow> string \<times> string" where
  "scan_digits s = (takeWhile is_digit s, dropWhile is_digit s)"

definition scan_exponent :: "string \<Rightarrow> (int \<times> string) option" where
  "scan_exponent s = (case s of
     c # r \<Rightarrow>
       if c = CHR ''e'' \<or> c = CHR ''E'' then
         (let (neg, r') = (case r of
                x # r2 \<Rightarrow> if x = CHR ''-'' then (True, r2) else if x = CHR ''+'' then (False, r2) else (False, r)
              | [] \<Rightarrow> (False, r));
              (ds, rest) = scan_digits r'
          in if ds = [] then None else Some (if neg then - digits_val ds else digits_val ds, rest))
       else Some (0, s)
   | [] \<Rightarrow> Some (0, s))"

definition scan_number :: "string \<Rightarrow> (val \<times> string) option" where
  "scan_number s =
     (let (neg, s1) = (case s of c # r \<Rightarrow> if c = CHR ''-'' then (True, r) else (False, s)
                         | [] \<Rightarrow> (False, s));
          (ds, s2) = scan_digits s1;
          (fr, s3) = (case s2 of c # r \<Rightarrow> if c = CHR ''.'' then (Some (fst (scan_digits r)), snd (scan_digits r))
                                          else (None, s2)
                         | [] \<Rightarrow> (None, s2))
      in if ds = [] \<or> (length ds > 1 \<and> hd ds = CHR ''0'') \<or> fr = Some [] then None
         else (case scan_exponent s3 of
             None \<Rightarrow> None
           | Some (x, s4) \<Rightarrow>
               let f = (case fr of None \<Rightarrow> [] | Some d \<Rightarrow> d);
                   m = digits_val (ds @ f)
               in Some (scale_num (if neg then - m else m) (length f) x, s4)))"

section \<open>Values\<close>

function (sequential) parse_value :: "string \<Rightarrow> (val \<times> string) option" and
    parse_elems :: "string \<Rightarrow> (val list \<times> string) option" and
    parse_members :: "string \<Rightarrow> entries \<Rightarrow> (entries \<times> string) option" where
  "parse_value [] = None"
| "parse_value (c # s) =
     (if c = CHR ''{'' then
        (case skip_ws s of
           d # r \<Rightarrow> if d = CHR ''}'' then Some (VMap [], r)
                    else if length (d # r) < length (c # s)
                    then map_option (\<lambda>(kvs, t). (VMap kvs, t)) (parse_members (d # r) []) else None
         | [] \<Rightarrow> None)
      else if c = CHR ''['' then
        (case skip_ws s of
           d # r \<Rightarrow> if d = CHR '']'' then Some (VArr [], r)
                    else if length (d # r) < length (c # s)
                    then map_option (\<lambda>(xs, t). (VArr xs, t)) (parse_elems (d # r)) else None
         | [] \<Rightarrow> None)
      else if c = CHR 0x22 then map_option (\<lambda>(x, t). (VStr x, t)) (scan_string s)
      else if hasPrefix (c # s) ''true'' then Some (VBool True, drop 4 (c # s))
      else if hasPrefix (c # s) ''false'' then Some (VBool False, drop 5 (c # s))
      else if hasPrefix (c # s) ''null'' then Some (VNil, drop 4 (c # s))
      else scan_number (c # s))"
| "parse_elems s =
     (case parse_value (skip_ws s) of
        None \<Rightarrow> None
      | Some (v, t) \<Rightarrow>
          (case skip_ws t of
             d # r \<Rightarrow> if d = CHR '']'' then Some ([v], r)
                      else if d = CHR '','' \<and> length r < length s
                      then map_option (\<lambda>(vs, u). (v # vs, u)) (parse_elems r) else None
           | [] \<Rightarrow> None))"
| "parse_members s acc =
     (case skip_ws s of
        [] \<Rightarrow> None
      | q # t \<Rightarrow>
          if q \<noteq> CHR 0x22 then None else
          (case scan_string t of
             None \<Rightarrow> None
           | Some (k, t1) \<Rightarrow>
               (case skip_ws t1 of
                  [] \<Rightarrow> None
                | d # t2 \<Rightarrow>
                    if d \<noteq> CHR '':'' \<or> length t2 \<ge> length s then None else
                    (case parse_value (skip_ws t2) of
                       None \<Rightarrow> None
                     | Some (v, t3) \<Rightarrow>
                         (case skip_ws t3 of
                            [] \<Rightarrow> None
                          | e # r \<Rightarrow>
                              if e = CHR ''}'' then Some (AList.update k v acc, r)
                              else if e = CHR '','' \<and> length r < length s
                              then parse_members r (AList.update k v acc) else None)))))"
  by pat_completeness auto
termination
  by (relation "measure (\<lambda>x. case x of Inl s \<Rightarrow> 2 * length s
        | Inr (Inl s) \<Rightarrow> 2 * length s + 1 | Inr (Inr (s, acc)) \<Rightarrow> 2 * length s + 1)")
     (auto dest!: arg_cong [where f = length] simp: less_Suc_eq_le
       intro: le_trans [OF length_skip_ws] le_less_trans [OF length_skip_ws])

definition json_Unmarshal :: "string \<Rightarrow> string + val" where
  "json_Unmarshal s =
     (case parse_value (skip_ws s) of
        None \<Rightarrow> Inl ''invalid character''
      | Some (v, t) \<Rightarrow> if skip_ws t = [] then Inr v else Inl ''invalid character after top-level value'')"

text \<open>
  \<open>Decoder.Decode\<close>, with which gin binds a body: it reads the first value and leaves what follows.
\<close>

definition json_Decode :: "string \<Rightarrow> string + val" where
  "json_Decode s = (case parse_value (skip_ws s) of None \<Rightarrow> Inl ''invalid character'' | Some (v, t) \<Rightarrow> Inr v)"

lemma json_Decode_Unmarshal: "json_Unmarshal s = Inr v \<Longrightarrow> json_Decode s = Inr v"
  by (auto simp: json_Unmarshal_def json_Decode_def split: option.splits if_splits)

section \<open>Strings without escapes\<close>

definition json_safe :: "string \<Rightarrow> bool" where
  "json_safe s \<longleftrightarrow> (\<forall>c \<in> set s. c \<noteq> CHR 0x22 \<and> c \<noteq> CHR 0x5C \<and> 32 \<le> (of_char c :: nat))"

lemma scan_string_safe [simp]: "json_safe s \<Longrightarrow> scan_string (s @ CHR 0x22 # r) = Some (s, r)"
  by (induction s) (auto simp: json_safe_def)

end
