(* ===== verification/Pagination.thy ===== *)
theory Pagination
  imports JsonParse
begin

text \<open>
  Query parameters and pagination: \<open>HttpQueryParams.go\<close> and \<open>JsonPagination.go\<close> of
  \<open>pz-gocommon/gocommon\<close>, \<open>NewQueryFormat\<close> of its \<open>elasticsearch/common.go\<close>, and
  \<open>getInflateParam\<close> of \<open>workflow/Service.go\<close>. A fallible call is a sum: \<open>Inl\<close> its error.
\<close>

section \<open>HttpQueryParams\<close>

record httpQueryParams =
  raw :: "(string \<times> string) list"

text \<open>The first value of each key of the parsed URL query.\<close>

definition NewQueryParams :: "(string \<times> string list) list \<Rightarrow> httpQueryParams outcome" where
  "NewQueryParams query =
     (if list_all (\<lambda>(k, v). v \<noteq> []) query
      then Ret \<lparr>raw = fold (\<lambda>(k, v). AList.update k (hd v)) query []\<rparr>
      else Panic ''runtime error: index out of range'')"

definition AddString :: "httpQueryParams \<Rightarrow> string \<Rightarrow> string \<Rightarrow> httpQueryParams" where
  "AddString params key value = params\<lparr>raw := AList.update key value (raw params)\<rparr>"

text \<open>The value of a key, when the key is not empty, present and its value not empty.\<close>

definition raw_value :: "httpQueryParams \<Rightarrow> string \<Rightarrow> string option" where
  "raw_value params key =
     (if key = [] then None
      else case map_of (raw params) key of
             None \<Rightarrow> None
           | Some value \<Rightarrow> if value = [] then None else Some value)"

definition GetAsInt :: "httpQueryParams \<Rightarrow> string \<Rightarrow> int \<Rightarrow> string + int" where
  "GetAsInt params key defalt =
     (case raw_value params key of
        None \<Rightarrow> Inr defalt
      | Some value \<Rightarrow> (case atoi value of
            None \<Rightarrow> Inl (atoi_error value)
          | Some i \<Rightarrow> Inr i))"

definition GetAsString :: "httpQueryParams \<Rightarrow> string \<Rightarrow> string \<Rightarrow> string + string" where
  "GetAsString params key defalt =
     (case raw_value params key of None \<Rightarrow> Inr defalt | Some s \<Rightarrow> Inr s)"

definition GetAsID :: "httpQueryParams \<Rightarrow> string \<Rightarrow> string \<Rightarrow> string + string" where
  "GetAsID params key defalt = GetAsString params key defalt"

datatype sortOrder = SortOrderAscending | SortOrderDescending

primrec sortOrder_text :: "sortOrder \<Rightarrow> string" where
  "sortOrder_text SortOrderAscending = ''asc''"
| "sortOrder_text SortOrderDescending = ''desc''"

definition GetAsSortOrder :: "httpQueryParams \<Rightarrow> string \<Rightarrow> sortOrder \<Rightarrow> string + sortOrder" where
  "GetAsSortOrder params key defalt =
     (case raw_value params key of
        None \<Rightarrow> Inr defalt
      | Some value \<Rightarrow>
          if toLower value = ''desc'' then Inr SortOrderDescending
          else if toLower value = ''asc'' then Inr SortOrderAscending
          else Inl (''query argument for '' @ dquoted value @ '' must be '' @ dquoted ''asc'' @ '' or '' @ dquoted ''desc''))"

definition GetSortOrder :: "httpQueryParams \<Rightarrow> sortOrder \<Rightarrow> string + sortOrder" where
  "GetSortOrder params defalt = GetAsSortOrder params ''order'' defalt"

definition GetPage :: "httpQueryParams \<Rightarrow> int \<Rightarrow> string + int" where
  "GetPage params defalt = GetAsInt params ''page'' defalt"

definition GetPerPage :: "httpQueryParams \<Rightarrow> int \<Rightarrow> string + int" where
  "GetPerPage params defalt = GetAsInt params ''perPage'' defalt"

definition GetSortBy :: "httpQueryParams \<Rightarrow> string \<Rightarrow> string + string" where
  "GetSortBy params defalt = GetAsString params ''sortBy'' defalt"

text \<open>\<open>strconv.ParseBool\<close>; a parameter that is no boolean counts as false.\<close>

definition parseBool :: "string \<Rightarrow> bool option" where
  "parseBool s =
     (if s \<in> {''1'', ''t'', ''T'', ''TRUE'', ''true'', ''True''} then Some True
      else if s \<in> {''0'', ''f'', ''F'', ''FALSE'', ''false'', ''False''} then Some False else None)"

definition getInflateParam :: "httpQueryParams \<Rightarrow> bool" where
  "getInflateParam params =
     (let inflateString = (case GetAsString params ''inflate'' ''false'' of
            Inl e \<Rightarrow> ''false'' | Inr s \<Rightarrow> s)
      in case parseBool inflateString of None \<Rightarrow> False | Some inflate \<Rightarrow> inflate)"

section \<open>JsonPagination\<close>

record jsonPagination =
  Count :: int
  Page :: int
  PerPage :: int
  SortBy :: string
  Order :: sortOrder

definition defaultJsonPagination :: jsonPagination where
  "defaultJsonPagination = \<lparr>Count = 0, Page = 0, PerPage = 10, SortBy = ''createdOn'',
     Order = SortOrderDescending\<rparr>"

definition NewJsonPagination :: "httpQueryParams \<Rightarrow> string + jsonPagination" where
  "NewJsonPagination params =
     (case GetPerPage params (PerPage defaultJsonPagination) of Inl e \<Rightarrow> Inl e | Inr perPage \<Rightarrow>
      case GetPage params (Page defaultJsonPagination) of Inl e \<Rightarrow> Inl e | Inr page \<Rightarrow>
      case GetSortBy params (SortBy defaultJsonPagination) of Inl e \<Rightarrow> Inl e | Inr sortBy \<Rightarrow>
      case GetSortOrder params (Order defaultJsonPagination) of Inl e \<Rightarrow> Inl e | Inr order \<Rightarrow>
      Inr \<lparr>Count = 0, Page = page, PerPage = perPage, SortBy = sortBy, Order = order\<rparr>)"

definition StartIndex :: "jsonPagination \<Rightarrow> int" where
  "StartIndex p = wrap64 (Page p * PerPage p)"

definition EndIndex :: "jsonPagination \<Rightarrow> int" where
  "EndIndex p = wrap64 (StartIndex p + PerPage p)"

definition jsonPagination_String :: "jsonPagination \<Rightarrow> string" where
  "jsonPagination_String p = ''perPage='' @ itoa (PerPage p) @ ''&page='' @ itoa (Page p) @
     ''&sortBy='' @ SortBy p @ ''&order='' @ sortOrder_text (Order p)"

text \<open>
  Go's conversion of a \<open>float64\<close> to \<open>int\<close> truncates; out of range the amd64 result is the
  least integer.
\<close>

definition float_to_int :: "int \<Rightarrow> nat \<Rightarrow> int" where
  "float_to_int m e = (let t = quot m (10 ^ e) in if in_int64 t then t else - (2 ^ 63))"

text \<open>
  \<open>SyncPagination\<close> merges the size, offset and order of the query text with those of the
  pagination, which it updates in place: the result is the new text (or an error) and the
  updated pagination. Its three steps, in order.
\<close>

definition sync_size :: "jsonPagination \<Rightarrow> entries \<Rightarrow> entries \<times> jsonPagination" where
  "sync_size format dsl =
     (case map_get dsl ''size'' of
        VFloat m e \<Rightarrow> (dsl, format\<lparr>PerPage := float_to_int m e\<rparr>)
      | _ \<Rightarrow> (AList.update ''size'' (VInt (PerPage format)) dsl, format))"

definition sync_from :: "jsonPagination \<Rightarrow> entries \<Rightarrow> (entries \<times> jsonPagination) outcome" where
  "sync_from format dsl =
     (case map_get dsl ''from'' of
        VFloat m e \<Rightarrow>
          if PerPage format = 0 then Panic ''runtime error: integer divide by zero''
          else let dslFrom = float_to_int m e
               in Ret (AList.update ''from''
                         (VInt (wrap64 (dslFrom - remainder dslFrom (PerPage format)))) dsl,
                       format\<lparr>Page := wrap64 (quot dslFrom (PerPage format))\<rparr>)
      | _ \<Rightarrow> Ret (AList.update ''from'' (VInt (wrap64 (Page format * PerPage format))) dsl, format))"

definition sort_text :: "jsonPagination \<Rightarrow> string" where
  "sort_text format = ''[{'' @ [CHR 0x22] @ SortBy format @ [CHR 0x22] @ '':'' @ [CHR 0x22] @
     sortOrder_text (Order format) @ [CHR 0x22] @ ''}]''"

definition sync_sort :: "jsonPagination \<Rightarrow> entries \<Rightarrow> (string + entries) outcome" where
  "sync_sort format dsl =
     (if map_get dsl ''sort'' = VNil
      then (case json_Unmarshal (sort_text format) of
              Inl e \<Rightarrow> Ret (Inl e)
            | Inr (VArr sortDsl) \<Rightarrow> Ret (Inr (AList.update ''sort'' (VArr sortDsl) dsl))
            | Inr g \<Rightarrow> Panic ''interface conversion: not []interface {}'')
      else Ret (Inr dsl))"

definition SyncPagination ::
    "jsonPagination \<Rightarrow> string \<Rightarrow> ((string + string) \<times> jsonPagination) outcome" where
  "SyncPagination format dslString =
     (case json_Unmarshal dslString of
        Inl e \<Rightarrow> Ret (Inl e, format)
      | Inr f \<Rightarrow>
          obind (assert_map f) (\<lambda>m.
            case sync_size format (entries_of m) of (dsl1, format1) \<Rightarrow>
              obind (sync_from format1 dsl1) (\<lambda>(dsl2, format2).
                obind (sync_sort format2 dsl2) (\<lambda>r. case r of
                    Inl e \<Rightarrow> Ret (Inl e, format2)
                  | Inr dsl3 \<Rightarrow> Ret (Inr (json_text (VMap dsl3)), format2)))))"

section \<open>QueryFormat\<close>

record queryFormat =
  qf_Size :: int
  qf_From :: int
  qf_Order :: bool
  qf_Key :: string

definition NewQueryFormat :: "jsonPagination \<Rightarrow> queryFormat" where
  "NewQueryFormat params = \<lparr>qf_Size = PerPage params, qf_From = wrap64 (Page params * PerPage params),
     qf_Order = (Order params = SortOrderAscending), qf_Key = SortBy params\<rparr>"

section \<open>Lemmas\<close>

lemma NewJsonPagination_default: "NewJsonPagination \<lparr>raw = []\<rparr> = Inr defaultJsonPagination"
  by (simp add: NewJsonPagination_def defaultJsonPagination_def GetPerPage_def GetPage_def
      GetSortBy_def GetSortOrder_def GetAsInt_def GetAsString_def GetAsSortOrder_def raw_value_def)

lemma map_get_update [simp]:
  "map_get (AList.update k v kvs) k' = (if k = k' then v else map_get kvs k')"
  by (simp add: map_get_def update_conv')

lemma sync_size_keeps: "sync_size format dsl = (dsl', format') \<Longrightarrow> k \<noteq> ''size'' \<Longrightarrow> map_get dsl' k = map_get dsl k"
  by (auto simp: sync_size_def split: val.splits)

lemma sync_size_page: "sync_size format dsl = (dsl', format') \<Longrightarrow>
    Page format' = Page format \<and> SortBy format' = SortBy format \<and> Order format' = Order format"
  by (auto simp: sync_size_def split: val.splits)

lemma sync_from_PerPage: "sync_from format dsl = Ret (dsl', format') \<Longrightarrow> PerPage format' = PerPage format"
  by (auto simp: sync_from_def Let_def split: val.splits if_splits)

text \<open>
  An offset in the query text is rounded down to a page boundary, and the page is the one
  that starts there.
\<close>

lemma sync_from_aligned:
  assumes size: "0 < PerPage format" and dfrom: "map_get dsl ''from'' = VFloat m e"
    and nonneg: "0 \<le> m" and ok: "sync_from format dsl = Ret (dsl', format')"
  shows "map_get dsl' ''from'' = VInt (Page format' * PerPage format')
    \<and> Page format' * PerPage format' \<le> float_to_int m e \<or> \<not> in_int64 (m div 10 ^ e)"
proof (cases "in_int64 (m div 10 ^ e)")
  case False
  then show ?thesis by simp
next
  case True
  let ?d = "m div 10 ^ e" and ?p = "PerPage format"
  have d: "float_to_int m e = ?d" "0 \<le> ?d"
    using nonneg True by (simp_all add: float_to_int_def quot_nonneg Let_def pos_imp_zdiv_nonneg_iff)
  have q: "quot ?d ?p = ?d div ?p" and r: "remainder ?d ?p = ?d mod ?p"
    using d size by (simp_all add: quot_nonneg remainder_nonneg)
  have "0 \<le> ?d div ?p" "?d div ?p \<le> ?d"
    using d size zdiv_mono2 [of ?d 1 ?p] by (simp_all add: pos_imp_zdiv_nonneg_iff)
  then have q64: "in_int64 (?d div ?p)" using True by (simp add: in_int64_def)
  have "0 \<le> ?d - ?d mod ?p" "?d - ?d mod ?p \<le> ?d"
    using d size by (simp_all add: zmod_le_nonneg_dividend)
  then have f64: "in_int64 (?d - ?d mod ?p)" using True by (simp add: in_int64_def)
  have eq: "?d - ?d mod ?p = ?d div ?p * ?p" by (simp add: minus_mod_eq_div_mult)
  show ?thesis
    using ok dfrom size d q r q64 f64 eq \<open>?d - ?d mod ?p \<le> ?d\<close>
    by (auto simp: sync_from_def Let_def)
qed

lemma sync_sort_keeps: "sync_sort format dsl = Ret (Inr dsl') \<Longrightarrow> k \<noteq> ''sort'' \<Longrightarrow> map_get dsl' k = map_get dsl k"
  by (auto simp: sync_sort_def split: if_splits sum.splits val.splits)

text \<open>The page that is reported after a query is the one its offset lies in.\<close>

lemma SyncPagination_offset:
  assumes parsed: "json_Unmarshal text = Inr (VMap dsl)" and dfrom: "map_get dsl ''from'' = VFloat m e" "0 \<le> m"
    and size: "0 < PerPage format'" and range: "in_int64 (m div 10 ^ e + PerPage format')"
    and ok: "SyncPagination format text = Ret (Inr text', format')"
  shows "StartIndex format' \<le> m div 10 ^ e \<and> m div 10 ^ e < EndIndex format' \<and>
    (\<exists>dsl'. text' = json_text (VMap dsl') \<and> map_get dsl' ''from'' = VInt (StartIndex format'))"
proof -
  let ?d = "m div 10 ^ e" and ?p = "PerPage format'"
  obtain dsl1 f1 where s1: "sync_size format dsl = (dsl1, f1)" by fastforce
  with ok parsed obtain dsl2 dsl3 where s2: "sync_from f1 dsl1 = Ret (dsl2, format')"
    and s3: "sync_sort format' dsl2 = Ret (Inr dsl3)" "text' = json_text (VMap dsl3)"
    by (auto simp: SyncPagination_def assert_map_def simp del: json_text.simps split: sum.splits)
      (metis sum.exhaust)
  have p: "PerPage f1 = ?p" using sync_from_PerPage [OF s2] by simp
  have from1: "map_get dsl1 ''from'' = VFloat m e" using sync_size_keeps [OF s1] dfrom(1) by simp
  have d0: "0 \<le> ?d" using dfrom(2) by (simp add: pos_imp_zdiv_nonneg_iff)
  have d64: "in_int64 ?d" using d0 size range by (simp add: in_int64_def)
  have fi: "float_to_int m e = ?d" using dfrom(2) d64 by (simp add: float_to_int_def quot_nonneg)
  have r: "?d - ?d mod ?p = ?d div ?p * ?p" by (simp add: minus_mod_eq_div_mult)
  have "0 \<le> ?d div ?p" "?d div ?p \<le> ?d" using size d0 zdiv_mono2 [of ?d 1 ?p] by (simp_all add: pos_imp_zdiv_nonneg_iff)
  moreover from this have "0 \<le> ?d div ?p * ?p" using size by simp
  moreover have "?d div ?p * ?p \<le> ?d" "?d < ?d div ?p * ?p + ?p"
    using r pos_mod_sign [OF size, of ?d] pos_mod_bound [OF size, of ?d] by linarith+
  ultimately have le: "?d div ?p * ?p \<le> ?d" "?d < ?d div ?p * ?p + ?p"
    and q64: "in_int64 (?d div ?p)" "in_int64 (?d div ?p * ?p)" "in_int64 (?d div ?p * ?p + ?p)"
    using range size by (simp_all add: in_int64_def)
  have f: "Page format' = ?d div ?p" "map_get dsl2 ''from'' = VInt (?d div ?p * ?p)"
    using s2 from1 size d0 q64 r
    by (auto simp: sync_from_def p fi quot_nonneg remainder_nonneg Let_def dest!: arg_cong [where f = Page])
  then have "StartIndex format' = ?d div ?p * ?p" "EndIndex format' = ?d div ?p * ?p + ?p"
    using q64 by (simp_all add: StartIndex_def EndIndex_def)
  with le f(2) s3(2) sync_sort_keeps [OF s3(1), of "''from''"] show ?thesis by auto
qed

lemma NewQueryFormat_from: "qf_From (NewQueryFormat p) = StartIndex p"
  by (simp add: NewQueryFormat_def StartIndex_def)

end
