(* ===== verification/Structs.thy ===== *)
theory Structs
  imports Conditions Pagination
begin

text \<open>
  The data of the service (\<open>workflow/common.go\<close>, \<open>TestElasticsearchDB.go\<close>): events, event
  types, triggers, alerts and statistics, with the translation \<open>encoding/json\<close> makes between
  a struct and a JSON document by the struct's tags. A time stamp is its RFC 3339 text. A
  document's field is found by its exact name; a null or missing field is the zero value.
\<close>

type_synonym ident = string
type_synonym timeStamp = string

definition zero_time :: timeStamp where
  "zero_time = ''0001-01-01T00:00:00Z''"

section \<open>Structs\<close>

record jobType =
  jt_Data :: gomap
  jt_Type :: string

record jobRequest =
  jr_CreatedBy :: string
  jr_JobType :: jobType

record trigger =
  tr_TriggerID :: ident
  tr_Name :: string
  tr_EventTypeID :: ident
  tr_Condition :: gomap
  tr_Job :: jobRequest
  tr_PercolationID :: ident
  tr_CreatedBy :: string
  tr_CreatedOn :: timeStamp
  tr_Enabled :: bool

record triggerUpdate =
  tu_Enabled :: bool

record event =
  ev_EventID :: ident
  ev_EventTypeID :: ident
  ev_Data :: gomap
  ev_CreatedBy :: string
  ev_CreatedOn :: timeStamp
  ev_CronSchedule :: string

record eventType =
  et_EventTypeID :: ident
  et_Name :: string
  et_Mapping :: gomap
  et_CreatedBy :: string
  et_CreatedOn :: timeStamp

record alert =
  al_AlertID :: ident
  al_TriggerID :: ident
  al_EventID :: ident
  al_JobID :: ident
  al_CreatedBy :: string
  al_CreatedOn :: timeStamp

record alertExt =
  ax_AlertID :: ident
  ax_Trigger :: trigger
  ax_Event :: event
  ax_JobID :: ident
  ax_CreatedBy :: string
  ax_CreatedOn :: timeStamp

record testElasticsearchBody =
  te_ID :: ident
  te_Value :: int

section \<open>Statistics\<close>

record stats =
  st_CreatedOn :: timeStamp
  NumEventTypes :: int
  NumEvents :: int
  NumTriggers :: int
  NumAlerts :: int
  NumTriggeredJobs :: int

definition incrCounter :: "int \<Rightarrow> int" where
  "incrCounter counter = wrap64 (counter + 1)"

definition IncrEventTypes :: "stats \<Rightarrow> stats" where
  "IncrEventTypes s = s\<lparr>NumEventTypes := incrCounter (NumEventTypes s)\<rparr>"

definition IncrEvents :: "stats \<Rightarrow> stats" where
  "IncrEvents s = s\<lparr>NumEvents := incrCounter (NumEvents s)\<rparr>"

definition IncrTriggers :: "stats \<Rightarrow> stats" where
  "IncrTriggers s = s\<lparr>NumTriggers := incrCounter (NumTriggers s)\<rparr>"

definition IncrAlerts :: "stats \<Rightarrow> stats" where
  "IncrAlerts s = s\<lparr>NumAlerts := incrCounter (NumAlerts s)\<rparr>"

definition IncrTriggerJobs :: "stats \<Rightarrow> stats" where
  "IncrTriggerJobs s = s\<lparr>NumTriggeredJobs := incrCounter (NumTriggeredJobs s)\<rparr>"

section \<open>json.Marshal\<close>

definition enc_jobRequest :: "jobRequest \<Rightarrow> val" where
  "enc_jobRequest j = VMap [
     (''createdBy'', VStr (jr_CreatedBy j)),
     (''jobType'', VMap [(''data'', of_gomap (jt_Data (jr_JobType j))),
                         (''type'', VStr (jt_Type (jr_JobType j)))])]"

definition enc_trigger :: "trigger \<Rightarrow> val" where
  "enc_trigger t = VMap [
     (''triggerId'', VStr (tr_TriggerID t)),
     (''name'', VStr (tr_Name t)),
     (''eventTypeId'', VStr (tr_EventTypeID t)),
     (''condition'', of_gomap (tr_Condition t)),
     (''job'', enc_jobRequest (tr_Job t)),
     (''percolationId'', VStr (tr_PercolationID t)),
     (''createdBy'', VStr (tr_CreatedBy t)),
     (''createdOn'', VStr (tr_CreatedOn t)),
     (''enabled'', VBool (tr_Enabled t))]"

definition enc_event :: "event \<Rightarrow> val" where
  "enc_event e = VMap [
     (''eventId'', VStr (ev_EventID e)),
     (''eventTypeId'', VStr (ev_EventTypeID e)),
     (''data'', of_gomap (ev_Data e)),
     (''createdBy'', VStr (ev_CreatedBy e)),
     (''createdOn'', VStr (ev_CreatedOn e)),
     (''cronSchedule'', VStr (ev_CronSchedule e))]"

definition enc_eventType :: "eventType \<Rightarrow> val" where
  "enc_eventType t = VMap [
     (''eventTypeId'', VStr (et_EventTypeID t)),
     (''name'', VStr (et_Name t)),
     (''mapping'', of_gomap (et_Mapping t)),
     (''createdBy'', VStr (et_CreatedBy t)),
     (''createdOn'', VStr (et_CreatedOn t))]"

definition enc_alert :: "alert \<Rightarrow> val" where
  "enc_alert a = VMap [
     (''alertId'', VStr (al_AlertID a)),
     (''triggerId'', VStr (al_TriggerID a)),
     (''eventId'', VStr (al_EventID a)),
     (''jobId'', VStr (al_JobID a)),
     (''createdBy'', VStr (al_CreatedBy a)),
     (''createdOn'', VStr (al_CreatedOn a))]"

definition enc_testBody :: "testElasticsearchBody \<Rightarrow> val" where
  "enc_testBody b = VMap [(''id'', VStr (te_ID b)), (''value'', VInt (te_Value b))]"

section \<open>json.Unmarshal\<close>

text \<open>Sequencing of fallible decoders.\<close>

definition sbind :: "'e + 'a \<Rightarrow> ('a \<Rightarrow> 'e + 'b) \<Rightarrow> 'e + 'b" where
  "sbind r f = (case r of Inl e \<Rightarrow> Inl e | Inr x \<Rightarrow> f x)"

lemma sbind_simps [simp]: "sbind (Inr x) f = f x" "sbind (Inl e) f = Inl e"
  by (simp_all add: sbind_def)

definition json_type_error :: string where
  "json_type_error = ''json: cannot unmarshal value into Go struct field''"

definition str_field :: "entries \<Rightarrow> string \<Rightarrow> string + string" where
  "str_field kvs n = (case map_get kvs n of VNil \<Rightarrow> Inr [] | VStr s \<Rightarrow> Inr s | _ \<Rightarrow> Inl json_type_error)"

definition time_field :: "entries \<Rightarrow> string \<Rightarrow> string + timeStamp" where
  "time_field kvs n = (case map_get kvs n of VNil \<Rightarrow> Inr zero_time | VStr s \<Rightarrow> Inr s
     | _ \<Rightarrow> Inl json_type_error)"

definition bool_field :: "entries \<Rightarrow> string \<Rightarrow> string + bool" where
  "bool_field kvs n = (case map_get kvs n of VNil \<Rightarrow> Inr False | VBool b \<Rightarrow> Inr b
     | _ \<Rightarrow> Inl json_type_error)"

definition int_field :: "entries \<Rightarrow> string \<Rightarrow> string + int" where
  "int_field kvs n = (case map_get kvs n of VNil \<Rightarrow> Inr 0
     | VFloat m e \<Rightarrow> if e = 0 \<and> in_int64 m then Inr m else Inl json_type_error
     | _ \<Rightarrow> Inl json_type_error)"

definition map_field :: "entries \<Rightarrow> string \<Rightarrow> string + gomap" where
  "map_field kvs n = (case map_get kvs n of VNil \<Rightarrow> Inr None | VMap m \<Rightarrow> Inr (Some m)
     | _ \<Rightarrow> Inl json_type_error)"

text \<open>A struct is decoded from an object; \<open>null\<close> leaves it zero.\<close>

definition obj_fields :: "val \<Rightarrow> string + entries" where
  "obj_fields v = (case v of VMap kvs \<Rightarrow> Inr kvs | VNil \<Rightarrow> Inr [] | _ \<Rightarrow> Inl json_type_error)"

definition dec_jobRequest :: "val \<Rightarrow> string + jobRequest" where
  "dec_jobRequest v =
     sbind (obj_fields v) (\<lambda>f.
     sbind (str_field f ''createdBy'') (\<lambda>c.
     sbind (obj_fields (map_get f ''jobType'')) (\<lambda>g.
     sbind (map_field g ''data'') (\<lambda>d.
     sbind (str_field g ''type'') (\<lambda>t.
     Inr \<lparr>jr_CreatedBy = c, jr_JobType = \<lparr>jt_Data = d, jt_Type = t\<rparr>\<rparr>)))))"

definition dec_trigger :: "val \<Rightarrow> string + trigger" where
  "dec_trigger v =
     sbind (obj_fields v) (\<lambda>f.
     sbind (str_field f ''triggerId'') (\<lambda>i.
     sbind (str_field f ''name'') (\<lambda>n.
     sbind (str_field f ''eventTypeId'') (\<lambda>et.
     sbind (map_field f ''condition'') (\<lambda>cond.
     sbind (dec_jobRequest (map_get f ''job'')) (\<lambda>job.
     sbind (str_field f ''percolationId'') (\<lambda>p.
     sbind (str_field f ''createdBy'') (\<lambda>cb.
     sbind (time_field f ''createdOn'') (\<lambda>co.
     sbind (bool_field f ''enabled'') (\<lambda>en.
     Inr \<lparr>tr_TriggerID = i, tr_Name = n, tr_EventTypeID = et, tr_Condition = cond, tr_Job = job,
          tr_PercolationID = p, tr_CreatedBy = cb, tr_CreatedOn = co, tr_Enabled = en\<rparr>))))))))))"

definition dec_event :: "val \<Rightarrow> string + event" where
  "dec_event v =
     sbind (obj_fields v) (\<lambda>f.
     sbind (str_field f ''eventId'') (\<lambda>i.
     sbind (str_field f ''eventTypeId'') (\<lambda>et.
     sbind (map_field f ''data'') (\<lambda>d.
     sbind (str_field f ''createdBy'') (\<lambda>cb.
     sbind (time_field f ''createdOn'') (\<lambda>co.
     sbind (str_field f ''cronSchedule'') (\<lambda>cs.
     Inr \<lparr>ev_EventID = i, ev_EventTypeID = et, ev_Data = d, ev_CreatedBy = cb,
          ev_CreatedOn = co, ev_CronSchedule = cs\<rparr>)))))))"

definition dec_eventType :: "val \<Rightarrow> string + eventType" where
  "dec_eventType v =
     sbind (obj_fields v) (\<lambda>f.
     sbind (str_field f ''eventTypeId'') (\<lambda>i.
     sbind (str_field f ''name'') (\<lambda>n.
     sbind (map_field f ''mapping'') (\<lambda>m.
     sbind (str_field f ''createdBy'') (\<lambda>cb.
     sbind (time_field f ''createdOn'') (\<lambda>co.
     Inr \<lparr>et_EventTypeID = i, et_Name = n, et_Mapping = m, et_CreatedBy = cb, et_CreatedOn = co\<rparr>))))))"

definition dec_alert :: "val \<Rightarrow> string + alert" where
  "dec_alert v =
     sbind (obj_fields v) (\<lambda>f.
     sbind (str_field f ''alertId'') (\<lambda>i.
     sbind (str_field f ''triggerId'') (\<lambda>t.
     sbind (str_field f ''eventId'') (\<lambda>e.
     sbind (str_field f ''jobId'') (\<lambda>j.
     sbind (str_field f ''createdBy'') (\<lambda>cb.
     sbind (time_field f ''createdOn'') (\<lambda>co.
     Inr \<lparr>al_AlertID = i, al_TriggerID = t, al_EventID = e, al_JobID = j, al_CreatedBy = cb,
          al_CreatedOn = co\<rparr>)))))))"

definition dec_testBody :: "val \<Rightarrow> string + testElasticsearchBody" where
  "dec_testBody v =
     sbind (obj_fields v) (\<lambda>f.
     sbind (str_field f ''id'') (\<lambda>i.
     sbind (int_field f ''value'') (\<lambda>n.
     Inr \<lparr>te_ID = i, te_Value = n\<rparr>)))"

section \<open>A struct survives storage\<close>

text \<open>What a map field looks like after a round trip: nil stays nil.\<close>

definition wire_map :: "gomap \<Rightarrow> gomap" where
  "wire_map m = map_option wire_entries m"

definition json_map :: "gomap \<Rightarrow> bool" where
  "json_map m \<longleftrightarrow> wire_map m = m"

lemma wire_of_gomap: "wire (of_gomap m) = (case m of None \<Rightarrow> VNil | Some kvs \<Rightarrow> VMap (wire_entries kvs))"
  by (simp add: of_gomap_def wire_VMap split: option.split del: wire.simps(7))

lemma map_field_wire: "map_get f n = wire (of_gomap m) \<Longrightarrow> map_field f n = Inr (wire_map m)"
  by (simp add: map_field_def wire_of_gomap wire_map_def split: option.split)

lemma json_map_simps [simp]: "json_map None" "json_map (Some kvs) \<longleftrightarrow> json_entries kvs"
  by (simp_all add: json_map_def wire_map_def json_entries_def)

lemmas field_defs = str_field_def time_field_def bool_field_def int_field_def obj_fields_def

lemma dec_enc_event: "dec_event (wire (enc_event e)) = Inr (e\<lparr>ev_Data := wire_map (ev_Data e)\<rparr>)"
proof -
  have "map_field [(''eventId'', VStr (ev_EventID e)), (''eventTypeId'', VStr (ev_EventTypeID e)),
     (''data'', wire (of_gomap (ev_Data e))), (''createdBy'', VStr (ev_CreatedBy e)),
     (''createdOn'', VStr (ev_CreatedOn e)), (''cronSchedule'', VStr (ev_CronSchedule e))] ''data''
     = Inr (wire_map (ev_Data e))"
    by (rule map_field_wire) (simp add: map_get_def)
  then show ?thesis
    by (simp add: dec_event_def enc_event_def field_defs map_get_def)
qed

lemma dec_enc_eventType:
  "dec_eventType (wire (enc_eventType t)) = Inr (t\<lparr>et_Mapping := wire_map (et_Mapping t)\<rparr>)"
proof -
  have "map_field [(''eventTypeId'', VStr (et_EventTypeID t)), (''name'', VStr (et_Name t)),
     (''mapping'', wire (of_gomap (et_Mapping t))), (''createdBy'', VStr (et_CreatedBy t)),
     (''createdOn'', VStr (et_CreatedOn t))] ''mapping'' = Inr (wire_map (et_Mapping t))"
    by (rule map_field_wire) (simp add: map_get_def)
  then show ?thesis
    by (simp add: dec_eventType_def enc_eventType_def field_defs map_get_def)
qed

lemma dec_enc_alert: "dec_alert (wire (enc_alert a)) = Inr a"
  by (simp add: dec_alert_def enc_alert_def field_defs map_get_def)

lemma dec_enc_testBody: "in_int64 (te_Value b) \<Longrightarrow> dec_testBody (wire (enc_testBody b)) = Inr b"
  by (simp add: dec_testBody_def enc_testBody_def field_defs map_get_def)

definition wire_job :: "jobRequest \<Rightarrow> jobRequest" where
  "wire_job j = j\<lparr>jr_JobType := (jr_JobType j)\<lparr>jt_Data := wire_map (jt_Data (jr_JobType j))\<rparr>\<rparr>"

lemma dec_enc_jobRequest: "dec_jobRequest (wire (enc_jobRequest j)) = Inr (wire_job j)"
proof -
  have "map_field [(''data'', wire (of_gomap (jt_Data (jr_JobType j)))),
     (''type'', VStr (jt_Type (jr_JobType j)))] ''data'' = Inr (wire_map (jt_Data (jr_JobType j)))"
    by (rule map_field_wire) (simp add: map_get_def)
  then show ?thesis
    by (simp add: dec_jobRequest_def enc_jobRequest_def field_defs map_get_def wire_job_def)
qed

lemma dec_enc_trigger:
  "dec_trigger (wire (enc_trigger t)) =
     Inr (t\<lparr>tr_Condition := wire_map (tr_Condition t), tr_Job := wire_job (tr_Job t)\<rparr>)"
proof -
  have "map_field [(''triggerId'', VStr (tr_TriggerID t)), (''name'', VStr (tr_Name t)),
     (''eventTypeId'', VStr (tr_EventTypeID t)), (''condition'', wire (of_gomap (tr_Condition t))),
     (''job'', wire (enc_jobRequest (tr_Job t))), (''percolationId'', VStr (tr_PercolationID t)),
     (''createdBy'', VStr (tr_CreatedBy t)), (''createdOn'', VStr (tr_CreatedOn t)),
     (''enabled'', VBool (tr_Enabled t))] ''condition'' = Inr (wire_map (tr_Condition t))"
    by (rule map_field_wire) (simp add: map_get_def)
  then show ?thesis
    by (simp add: dec_trigger_def enc_trigger_def field_defs map_get_def dec_enc_jobRequest)
qed

end
