(* ===== verification/Responses.thy ===== *)
theory Responses
  imports Structs
begin

text \<open>
  Responses (\<open>pz-gocommon/gocommon/JsonResponse.go\<close>): the status code, the payload with the
  type name that goes with it, and the error test. The fields \<open>Inner\<close> and \<open>Metadata\<close> are never
  set by the service and are left out.
\<close>

section \<open>Payloads\<close>

text \<open>
  The dynamic types the service puts into \<open>Data\<close>. A list is a Go slice. \<open>goName\<close> is what
  \<open>reflect.TypeOf\<close> says; the table of type names is filled by the two \<open>init\<close> functions.
\<close>

datatype payload =
    PNil
  | PString string
  | PInt int
  | PVersion string
  | PStats stats
  | PEventType eventType
  | PEventTypes "eventType list"
  | PEvent event
  | PEvents "event list"
  | PTrigger trigger
  | PTriggers "trigger list"
  | PAlert alert
  | PAlerts "alert list"
  | PAlertExts "alertExt list"
  | PTestBody testElasticsearchBody

definition goName :: "payload \<Rightarrow> string" where
  "goName p = (case p of
     PNil \<Rightarrow> '''' | PString _ \<Rightarrow> ''string'' | PInt _ \<Rightarrow> ''int'' | PVersion _ \<Rightarrow> ''*piazza.Version''
   | PStats _ \<Rightarrow> ''workflow.Stats''
   | PEventType _ \<Rightarrow> ''*workflow.EventType'' | PEventTypes _ \<Rightarrow> ''[]workflow.EventType''
   | PEvent _ \<Rightarrow> ''*workflow.Event'' | PEvents _ \<Rightarrow> ''[]workflow.Event''
   | PTrigger _ \<Rightarrow> ''*workflow.Trigger'' | PTriggers _ \<Rightarrow> ''[]workflow.Trigger''
   | PAlert _ \<Rightarrow> ''*workflow.Alert'' | PAlerts _ \<Rightarrow> ''[]workflow.Alert''
   | PAlertExts _ \<Rightarrow> ''[]workflow.AlertExt''
   | PTestBody _ \<Rightarrow> ''*workflow.TestElasticsearchBody'')"

definition common_types :: "(string \<times> string) list" where
  "common_types = [(''string'', ''string''), (''[]string'', ''string-list''), (''int'', ''int''),
     (''*piazza.Version'', ''version'')]"

definition workflow_types :: "(string \<times> string) list" where
  "workflow_types = [
     (''*workflow.EventType'', ''eventtype''), (''[]workflow.EventType'', ''eventtype-list''),
     (''*workflow.Event'', ''event''), (''[]workflow.Event'', ''event-list''),
     (''*workflow.Trigger'', ''trigger''), (''[]workflow.Trigger'', ''trigger-list''),
     (''*workflow.Alert'', ''alert''), (''[]workflow.Alert'', ''alert-list''),
     (''[]workflow.AlertExt'', ''alertext-list''), (''workflow.Stats'', ''workflowstats''),
     (''*workflow.TestElasticsearchBody'', ''testelasticsearch''),
     (''[]workflow.TestElasticsearchBody'', ''testelasticsearch-list'')]"

definition JsonResponseDataTypes :: "(string \<times> string) list" where
  "JsonResponseDataTypes = common_types @ workflow_types"

section \<open>Responses\<close>

record jsonResponse =
  StatusCode :: int
  resp_Type :: string
  Data :: payload
  Pagination :: "jsonPagination option"
  Message :: string
  Origin :: string

definition IsError :: "jsonResponse \<Rightarrow> bool" where
  "IsError resp \<longleftrightarrow> StatusCode resp < 200 \<or> StatusCode resp > 299"

definition ToError :: "jsonResponse \<Rightarrow> err" where
  "ToError resp = (if \<not> IsError resp then None
     else Some (''{'' @ itoa (StatusCode resp) @ '': '' @ Message resp @ ''}''))"

definition newJsonResponse500 :: "string \<Rightarrow> jsonResponse" where
  "newJsonResponse500 e = \<lparr>StatusCode = 500, resp_Type = '''', Data = PNil, Pagination = None,
     Message = e, Origin = ''''\<rparr>"

definition SetType :: "jsonResponse \<Rightarrow> err \<times> jsonResponse" where
  "SetType resp =
     (if Data resp = PNil then (None, resp\<lparr>resp_Type := ''''\<rparr>)
      else case map_of JsonResponseDataTypes (goName (Data resp)) of
             None \<Rightarrow> (Some (''Type '' @ goName (Data resp) @ '' is not a valid response type''), resp)
           | Some modelName \<Rightarrow> (None, resp\<lparr>resp_Type := modelName\<rparr>))"

definition data_response :: "int \<Rightarrow> payload \<Rightarrow> jsonResponse" where
  "data_response code obj = \<lparr>StatusCode = code, resp_Type = '''', Data = obj, Pagination = None,
     Message = '''', Origin = ''''\<rparr>"

definition message_response :: "int \<Rightarrow> string \<Rightarrow> string \<Rightarrow> string \<Rightarrow> jsonResponse" where
  "message_response code typ msg origin = \<lparr>StatusCode = code, resp_Type = typ, Data = PNil,
     Pagination = None, Message = msg, Origin = origin\<rparr>"

lemma ToError_iff: "ToError resp = None \<longleftrightarrow> 200 \<le> StatusCode resp \<and> StatusCode resp \<le> 299"
  by (auto simp: ToError_def IsError_def)

text \<open>Every payload the service builds has a registered type.\<close>

lemma SetType_ok: "fst (SetType resp) = None"
  by (cases "Data resp")
     (simp_all add: SetType_def goName_def JsonResponseDataTypes_def common_types_def workflow_types_def)

lemma SetType_data: "snd (SetType (data_response code obj)) =
    (data_response code obj)\<lparr>resp_Type := (if obj = PNil then ''''
       else the (map_of JsonResponseDataTypes (goName obj)))\<rparr>"
  by (cases obj)
     (simp_all add: SetType_def data_response_def goName_def JsonResponseDataTypes_def
       common_types_def workflow_types_def)

end
