(* ===== verification/Indexes.thy ===== *)
theory Indexes
  imports Pagination
begin

text \<open>
  The document index the databases are written against: the responses
  (\<open>pz-gocommon/elasticsearch/responses.go\<close>), the Go interface \<open>IIndex\<close>
  (\<open>elasticsearch/common.go\<close>) as a record of its methods, and, as a locale, the contract of a
  healthy index that the databases rely on. \<open>MockIndex\<close> provides it.
\<close>

section \<open>Responses\<close>

text \<open>A \<open>*json.RawMessage\<close> is the value its text denotes; \<open>None\<close> is the nil pointer.\<close>

record searchResultHit =
  hit_ID :: string
  hit_Source :: "val option"

record searchResult =
  totalHits :: int
  hits :: "searchResultHit list"
  sr_Found :: bool

record indexResponse =
  Created :: bool
  ir_ID :: string
  ir_Index :: string
  ir_Type :: string

record percolateResponseMatch =
  prm_Id :: string
  prm_Index :: string

record percolateResponse =
  pr_Total :: int
  pr_Matches :: "percolateResponseMatch list"

record deleteResponse =
  dr_Found :: bool
  dr_ID :: string

record getResult =
  gr_ID :: string
  gr_Source :: "val option"
  gr_Found :: bool

definition TotalHits :: "searchResult \<Rightarrow> int" where
  "TotalHits r = totalHits r"

definition NumHits :: "searchResult \<Rightarrow> int" where
  "NumHits r = int (length (hits r))"

definition GetHits :: "searchResult \<Rightarrow> searchResultHit list" where
  "GetHits r = hits r"

definition GetHit :: "searchResult \<Rightarrow> nat \<Rightarrow> searchResultHit outcome" where
  "GetHit r i = (if i < length (hits r) then Ret (hits r ! i)
     else Panic ''runtime error: index out of range'')"

section \<open>The interface\<close>

text \<open>
  The value of a term query keeps its dynamic type: the program passes a \<open>string\<close> in one
  place and an identifier (\<open>piazza.Ident\<close>) in others.
\<close>

datatype termValue = TermString string | TermIdent string

primrec termValue_text :: "termValue \<Rightarrow> string" where
  "termValue_text (TermString s) = s"
| "termValue_text (TermIdent s) = s"

text \<open>
  The methods of \<open>IIndex\<close> the program calls, over an index state. A pair of a pointer and an
  error is kept as it is: which combinations occur is a matter of the implementation. The
  schema given to \<open>SetMapping\<close> is the value of its JSON text.
\<close>

record 'x iIndex =
  ix_GetVersion :: "'x \<Rightarrow> string"
  ix_IndexName :: "'x \<Rightarrow> string"
  ix_IndexExists :: "('x, bool \<times> err) go"
  ix_TypeExists :: "string \<Rightarrow> ('x, bool \<times> err) go"
  ix_ItemExists :: "string \<Rightarrow> string \<Rightarrow> ('x, bool \<times> err) go"
  ix_Create :: "string \<Rightarrow> ('x, err) go"
  ix_Close :: "('x, err) go"
  ix_Delete :: "('x, err) go"
  ix_PostData :: "string \<Rightarrow> string \<Rightarrow> val \<Rightarrow> ('x, indexResponse option \<times> err) go"
  ix_PutData :: "string \<Rightarrow> string \<Rightarrow> val \<Rightarrow> ('x, indexResponse option \<times> err) go"
  ix_GetByID :: "string \<Rightarrow> string \<Rightarrow> ('x, getResult option \<times> err) go"
  ix_DeleteByID :: "string \<Rightarrow> string \<Rightarrow> ('x, deleteResponse option \<times> err) go"
  ix_FilterByMatchAll :: "string \<Rightarrow> jsonPagination option \<Rightarrow> ('x, searchResult option \<times> err) go"
  ix_GetAllElements :: "string \<Rightarrow> ('x, searchResult option \<times> err) go"
  ix_FilterByTermQuery :: "string \<Rightarrow> string \<Rightarrow> termValue \<Rightarrow> jsonPagination option \<Rightarrow>
     ('x, searchResult option \<times> err) go"
  ix_SearchByJSON :: "string \<Rightarrow> string \<Rightarrow> ('x, searchResult option \<times> err) go"
  ix_SetMapping :: "string \<Rightarrow> val \<Rightarrow> ('x, err) go"
  ix_GetTypes :: "('x, string list \<times> err) go"
  ix_AddPercolationQuery :: "string \<Rightarrow> string \<Rightarrow> ('x, indexResponse option \<times> err) go"
  ix_DeletePercolationQuery :: "string \<Rightarrow> ('x, deleteResponse option \<times> err) go"
  ix_AddPercolationDocument :: "string \<Rightarrow> val \<Rightarrow> ('x, percolateResponse option \<times> err) go"

section \<open>The contract of a healthy index\<close>

text \<open>
  \<open>docs x t i\<close> is the document of type \<open>t\<close> and identifier \<open>i\<close>; \<open>has_type\<close> tells which types
  exist; \<open>inv\<close> holds of every state a healthy index reaches. The laws say what a lookup
  returns after an insertion or a deletion, and that nothing else changes.
\<close>

type_synonym store = "string \<Rightarrow> string \<Rightarrow> val option"

definition store_put :: "string \<Rightarrow> string \<Rightarrow> val option \<Rightarrow> store \<Rightarrow> store" where
  "store_put t i d s = s(t := (s t)(i := d))"

lemma store_put_apply: "store_put t i d s t' i' = (if t' = t \<and> i' = i then d else s t' i')"
  by (auto simp: store_put_def)

locale doc_lookup =
  fixes esi :: "'x iIndex"
    and docs :: "'x \<Rightarrow> store"
    and has_type :: "'x \<Rightarrow> string \<Rightarrow> bool"
    and inv :: "'x \<Rightarrow> bool"
  assumes get_hit: "inv x \<Longrightarrow> docs x t i = Some d \<Longrightarrow>
      ix_GetByID esi t i x = (Ret (Some \<lparr>gr_ID = i, gr_Source = Some d, gr_Found = True\<rparr>, None), x)"
    and get_miss: "inv x \<Longrightarrow> docs x t i = None \<Longrightarrow>
      \<exists>g e. ix_GetByID esi t i x = (Ret (Some g, Some e), x) \<and> \<not> gr_Found g"
    and type_exists: "inv x \<Longrightarrow> ix_TypeExists esi t x = (Ret (has_type x t, None), x)"
    and item_exists: "inv x \<Longrightarrow> ix_ItemExists esi t i x = (Ret (docs x t i \<noteq> None, None), x)"
    and doc_type: "inv x \<Longrightarrow> docs x t i \<noteq> None \<Longrightarrow> has_type x t"

locale doc_index = doc_lookup +
  assumes post_new: "inv x \<Longrightarrow> has_type x t \<Longrightarrow> i \<noteq> [] \<Longrightarrow> docs x t i = None \<Longrightarrow>
      \<exists>r x'. ix_PostData esi t i v x = (Ret (Some r, None), x') \<and> Created r \<and> ir_ID r = i \<and>
        inv x' \<and> docs x' = store_put t i (Some (wire v)) (docs x) \<and> has_type x' = has_type x"
    and put: "inv x \<Longrightarrow> has_type x t \<Longrightarrow> i \<noteq> [] \<Longrightarrow>
      \<exists>r x'. ix_PutData esi t i v x = (Ret (Some r, None), x') \<and>
        inv x' \<and> docs x' = store_put t i (Some (wire v)) (docs x) \<and> has_type x' = has_type x"
    and delete_hit: "inv x \<Longrightarrow> docs x t i = Some d \<Longrightarrow>
      \<exists>r x'. ix_DeleteByID esi t i x = (Ret (Some r, None), x') \<and> dr_Found r \<and>
        inv x' \<and> docs x' = store_put t i None (docs x) \<and> has_type x' = has_type x"
    and delete_miss: "inv x \<Longrightarrow> has_type x t \<Longrightarrow> docs x t i = None \<Longrightarrow>
      \<exists>r e. ix_DeleteByID esi t i x = (Ret (Some r, e), x) \<and> \<not> dr_Found r"


text \<open>
  The search, mapping and percolation laws. A term search over documents that all have the
  field as a string finds exactly the documents whose field has that text, each once.
\<close>

definition doc_field :: "string \<Rightarrow> val \<Rightarrow> string option" where
  "doc_field name d = (case as_map d of None \<Rightarrow> None | Some m \<Rightarrow> as_string (map_get (entries_of m) name))"

definition hit_pairs :: "searchResult \<Rightarrow> (string \<times> val option) list" where
  "hit_pairs sr = map (\<lambda>h. (hit_ID h, hit_Source h)) (hits sr)"

definition percolateTypeName :: string where
  "percolateTypeName = ''.percolate''"

locale search_index = doc_index +
  assumes term_query: "inv x \<Longrightarrow> has_type x t \<Longrightarrow>
      (\<forall>i d. docs x t i = Some d \<longrightarrow> doc_field name d \<noteq> None) \<Longrightarrow>
      \<exists>sr. ix_FilterByTermQuery esi t name (TermString v) f x = (Ret (Some sr, None), x) \<and>
        distinct (map hit_ID (hits sr)) \<and> (sr_Found sr \<longleftrightarrow> hits sr \<noteq> []) \<and>
        set (hit_pairs sr) = {(i, Some d) |i d. docs x t i = Some d \<and> doc_field name d = Some v}"
    and set_mapping: "inv x \<Longrightarrow> \<not> has_type x t \<Longrightarrow>
      \<exists>x'. ix_SetMapping esi t (VMap m) x = (Ret None, x') \<and> inv x' \<and> docs x' = docs x \<and>
        has_type x' = (has_type x)(t := True)"
    and add_query: "inv x \<Longrightarrow> i \<noteq> [] \<Longrightarrow>
      \<exists>r x'. ix_AddPercolationQuery esi i q x = (Ret (Some r, None), x') \<and> Created r \<and>
        ir_ID r = i \<and> inv x' \<and>
        (\<forall>t' j. t' \<noteq> percolateTypeName \<or> j \<noteq> i \<longrightarrow> docs x' t' j = docs x t' j) \<and>
        (\<forall>t'. has_type x t' \<longrightarrow> has_type x' t')"

text \<open>
  Percolation: which queries match a document is the index's matter, given by \<open>matches\<close>. The
  mock index stores the document under the identifier 0 of its percolator's type.
\<close>

locale trigger_index = search_index +
  fixes matches :: "'a \<Rightarrow> string \<Rightarrow> val \<Rightarrow> string list"
  assumes get_types: "inv x \<Longrightarrow> \<exists>ts. ix_GetTypes esi x = (Ret (ts, None), x) \<and> set ts = {t. has_type x t}"
    and add_document: "inv x \<Longrightarrow>
      \<exists>p x'. ix_AddPercolationDocument esi t v x = (Ret (Some p, None), x') \<and>
        map prm_Id (pr_Matches p) = matches x t v \<and> inv x' \<and>
        (\<forall>t' i. t' \<noteq> percolateTypeName \<or> i \<noteq> ''0'' \<longrightarrow> docs x' t' i = docs x t' i) \<and>
        (\<forall>t'. has_type x t' \<longrightarrow> has_type x' t')"

end
