(* ===== verification/MockIndexes.thy ===== *)
theory MockIndexes
  imports Indexes "HOL-Library.Multiset"
begin

text \<open>
  The in-memory index (\<open>pz-gocommon/elasticsearch/mock_index.go\<close>) that the program runs on
  when mocking: its state, its methods, its invariant, and the proof that it meets the
  contract of \<open>Indexes\<close>.
\<close>

section \<open>State\<close>

record mockIndexType =
  items :: "(string \<times> val) list"
  mapping :: val

record mockIndex =
  index_name :: string
  types :: "(string \<times> mockIndexType) list"
  "exists" :: bool
  is_open :: bool
  settings :: val
  idSource :: int

definition NewMockIndex :: "string \<Rightarrow> mockIndex" where
  "NewMockIndex indexName = \<lparr>index_name = indexName, types = [], exists = False, is_open = False,
     settings = VNil, idSource = 0\<rparr>"

section \<open>Lookup\<close>

definition mock_IndexExists :: "(mockIndex, bool \<times> err) go" where
  "mock_IndexExists = gets (\<lambda>esi. (exists esi, nil_err))"

definition mock_TypeExists :: "string \<Rightarrow> (mockIndex, bool \<times> err) go" where
  "mock_TypeExists typ = bnd mock_IndexExists (\<lambda>(ok, err).
     case err of Some e \<Rightarrow> ret (False, Some e)
     | None \<Rightarrow> if \<not> ok then ret (False, None)
               else gets (\<lambda>esi. (map_of (types esi) typ \<noteq> None, None)))"

text \<open>The pointer \<open>esi.types[typeName]\<close> is nil for a missing type; its fields are then out of reach.\<close>

definition mock_type_ptr :: "string \<Rightarrow> (mockIndex, mockIndexType) go" where
  "mock_type_ptr typeName = bnd (gets (\<lambda>esi. map_of (types esi) typeName)) (\<lambda>p. lift (deref p))"

definition mock_ItemExists :: "string \<Rightarrow> string \<Rightarrow> (mockIndex, bool \<times> err) go" where
  "mock_ItemExists typeName i = bnd (mock_TypeExists typeName) (\<lambda>(ok, err).
     case err of Some e \<Rightarrow> ret (False, Some e)
     | None \<Rightarrow> if \<not> ok then ret (False, None)
               else bnd (mock_type_ptr typeName) (\<lambda>typ. ret (map_of (items typ) i \<noteq> None, None)))"

definition mock_GetByID :: "string \<Rightarrow> string \<Rightarrow> (mockIndex, getResult option \<times> err) go" where
  "mock_GetByID typeName i = bnd (mock_ItemExists typeName i) (\<lambda>(ok, err).
     case err of Some e \<Rightarrow> ret (None, Some e)
     | None \<Rightarrow>
         if \<not> ok then ret (Some \<lparr>gr_ID = [], gr_Source = None, gr_Found = False\<rparr>,
                            Some (''GetById: id does not exist: '' @ i))
         else bnd (mock_type_ptr typeName) (\<lambda>typ.
           ret (Some \<lparr>gr_ID = i, gr_Source = map_of (items typ) i, gr_Found = True\<rparr>, None)))"

section \<open>Updates\<close>

definition mock_addType :: "string \<Rightarrow> val \<Rightarrow> (mockIndex, err) go" where
  "mock_addType typeName m =
     (case as_map m of
        None \<Rightarrow> ret (Some ''json: cannot unmarshal into Go value of type map[string]interface {}'')
      | Some obj \<Rightarrow> bnd (modify (\<lambda>esi. esi\<lparr>types := AList.update typeName
             \<lparr>items = [], mapping = VMap (entries_of obj)\<rparr> (types esi)\<rparr>)) (\<lambda>_. ret None))"

definition mock_SetMapping :: "string \<Rightarrow> val \<Rightarrow> (mockIndex, err) go" where
  "mock_SetMapping typeName m = mock_addType typeName m"

text \<open>\<open>Create\<close>: a settings text names the initial types.\<close>

primrec mock_add_types :: "entries \<Rightarrow> (mockIndex, err) go" where
  "mock_add_types [] = ret None"
| "mock_add_types (kv # kvs) = bnd (mock_addType (fst kv) (snd kv)) (\<lambda>err.
     case err of Some e \<Rightarrow> ret (Some e) | None \<Rightarrow> mock_add_types kvs)"

definition mock_Create :: "string \<Rightarrow> (mockIndex, err) go" where
  "mock_Create setts = bnd (gets exists) (\<lambda>ex.
     if ex then ret (Some ''Index already exists'')
     else bnd (modify (\<lambda>esi. esi\<lparr>exists := True\<rparr>)) (\<lambda>_.
       if setts = [] then bnd (modify (\<lambda>esi. esi\<lparr>settings := VNil\<rparr>)) (\<lambda>_. ret None)
       else (case json_Unmarshal setts of
               Inl e \<Rightarrow> ret (Some e)
             | Inr v \<Rightarrow> (case v of
                   VMap obj \<Rightarrow> bnd (modify (\<lambda>esi. esi\<lparr>settings := VMap obj\<rparr>)) (\<lambda>_.
                       bnd (lift (assert_map (map_get obj ''mappings''))) (\<lambda>ms.
                         mock_add_types (entries_of ms)))
                 | VNil \<Rightarrow> bnd (modify (\<lambda>esi. esi\<lparr>settings := VNilMap\<rparr>)) (\<lambda>_.
                       lift (Panic ''interface conversion: not map[string]interface {}''))
                 | _ \<Rightarrow> ret (Some ''json: cannot unmarshal into Go value'')))))"

definition mock_Close :: "(mockIndex, err) go" where
  "mock_Close = bnd (modify (\<lambda>esi. esi\<lparr>is_open := False\<rparr>)) (\<lambda>_. ret None)"

definition mock_Delete :: "(mockIndex, err) go" where
  "mock_Delete = bnd (modify (\<lambda>esi. esi\<lparr>exists := False, is_open := False, types := []\<rparr>)) (\<lambda>_. ret None)"

definition mock_newId :: "(mockIndex, string) go" where
  "mock_newId = bnd (modify (\<lambda>esi. esi\<lparr>idSource := wrap64 (idSource esi + 1)\<rparr>)) (\<lambda>_.
     gets (\<lambda>esi. itoa (idSource esi)))"

text \<open>\<open>PostData\<close> creates a missing type, and names a document that has no identifier.\<close>

definition mock_store :: "string \<Rightarrow> mockIndexType \<Rightarrow> (mockIndex, unit) go" where
  "mock_store typeName typ = modify (\<lambda>esi. esi\<lparr>types := AList.update typeName typ (types esi)\<rparr>)"

definition mock_PostData :: "string \<Rightarrow> string \<Rightarrow> val \<Rightarrow> (mockIndex, indexResponse option \<times> err) go" where
  "mock_PostData typeName id0 obj = bnd mock_IndexExists (\<lambda>(ok, err).
     case err of Some e \<Rightarrow> ret (None, Some e)
     | None \<Rightarrow> if \<not> ok then ret (None, Some ''Index does not exist'')
       else bnd (mock_TypeExists typeName) (\<lambda>(ok, err).
         case err of Some e \<Rightarrow> ret (None, Some e)
         | None \<Rightarrow>
           bnd (if \<not> ok then bnd (mock_store typeName \<lparr>items = [], mapping = VNil\<rparr>) (\<lambda>_. ret ())
                else ret ()) (\<lambda>_.
           bnd (mock_type_ptr typeName) (\<lambda>typ.
           bnd (if id0 = [] then mock_newId else ret id0) (\<lambda>i.
           bnd (mock_store typeName (typ\<lparr>items := AList.update i (wire obj) (items typ)\<rparr>)) (\<lambda>_.
           gets (\<lambda>esi. (Some \<lparr>Created = True, ir_ID = i, ir_Index = index_name esi,
                              ir_Type = typeName\<rparr>, nil_err))))))))"

definition mock_PutData :: "string \<Rightarrow> string \<Rightarrow> val \<Rightarrow> (mockIndex, indexResponse option \<times> err) go" where
  "mock_PutData typeName i obj = mock_PostData typeName i obj"

text \<open>\<open>DeleteByID\<close>: a missing type is an error without a response, a missing item is none.\<close>

definition mock_DeleteByID :: "string \<Rightarrow> string \<Rightarrow> (mockIndex, deleteResponse option \<times> err) go" where
  "mock_DeleteByID typeName i = bnd (mock_TypeExists typeName) (\<lambda>(ok, err).
     case err of Some e \<Rightarrow> ret (None, Some e)
     | None \<Rightarrow> if \<not> ok then ret (None, Some (''GetById: type does not exist: '' @ typeName))
       else bnd (mock_ItemExists typeName i) (\<lambda>(ok, err).
         case err of Some e \<Rightarrow> ret (None, Some e)
         | None \<Rightarrow> if \<not> ok then ret (Some \<lparr>dr_Found = False, dr_ID = []\<rparr>, None)
           else bnd (mock_type_ptr typeName) (\<lambda>typ.
             bnd (mock_store typeName (typ\<lparr>items := AList.delete i (items typ)\<rparr>)) (\<lambda>_.
               ret (Some \<lparr>dr_Found = True, dr_ID = i\<rparr>, None)))))"

section \<open>Search\<close>

text \<open>\<open>srhSortMatches\<close>: by identifier, in byte order.\<close>

definition srhSortMatches :: "searchResultHit list \<Rightarrow> searchResultHit list" where
  "srhSortMatches matches = sort_key hit_ID matches"

text \<open>A slice expression \<open>xs[lo:hi]\<close> panics outside the bounds.\<close>

definition go_slice :: "'a list \<Rightarrow> int \<Rightarrow> int \<Rightarrow> 'a list outcome" where
  "go_slice xs lo hi =
     (if 0 \<le> lo \<and> lo \<le> hi \<and> hi \<le> int (length xs)
      then Ret (take (nat hi - nat lo) (drop (nat lo) xs))
      else Panic ''runtime error: slice bounds out of range'')"

definition put_all :: "(string \<times> val) list \<Rightarrow> (string \<times> val) list \<Rightarrow> (string \<times> val) list" where
  "put_all kvs objs = fold (\<lambda>(k, v). AList.update k v) kvs objs"

text \<open>The documents a match-all search ranges over: one type, or all but the percolator's.\<close>

definition all_objs :: "mockIndex \<Rightarrow> string \<Rightarrow> (string \<times> val) list" where
  "all_objs esi typeName =
     (if typeName = []
      then fold (\<lambda>(tk, tv) objs. if tk = percolateTypeName then objs else put_all (items tv) objs)
             (types esi) []
      else (case map_of (types esi) typeName of
              None \<Rightarrow> [] | Some typ \<Rightarrow> put_all (items typ) []))"

definition hit_of :: "string \<times> val \<Rightarrow> searchResultHit" where
  "hit_of kv = \<lparr>hit_ID = fst kv, hit_Source = Some (snd kv)\<rparr>"

text \<open>One page of the sorted hits.\<close>

definition page_of :: "searchResultHit list \<Rightarrow> int \<Rightarrow> int \<Rightarrow> searchResultHit list outcome" where
  "page_of hs lo n =
     (if lo \<ge> int (length hs) then Ret []
      else if wrap64 (lo + n) \<ge> int (length hs) then go_slice hs lo (int (length hs))
      else go_slice hs lo (wrap64 (lo + n)))"

definition mock_FilterByMatchAll ::
    "string \<Rightarrow> jsonPagination option \<Rightarrow> (mockIndex, searchResult option \<times> err) go" where
  "mock_FilterByMatchAll typeName realFormat =
     bnd (lift (deref realFormat)) (\<lambda>params.
       let format = NewQueryFormat params in
       bnd (gets (\<lambda>esi. all_objs esi typeName)) (\<lambda>objs.
         bnd (lift (page_of (srhSortMatches (map hit_of objs)) (qf_From format) (qf_Size format)))
           (\<lambda>page. ret (Some \<lparr>totalHits = int (length objs), hits = page, sr_Found = False\<rparr>, None))))"

definition mock_GetAllElements :: "string \<Rightarrow> (mockIndex, searchResult option \<times> err) go" where
  "mock_GetAllElements typ = ret (None, Some ''GetAllElements not supported under mocking'')"

text \<open>
  A term search compares a string field of every document of the type; a document that is no
  object, a field that is no string, or a term that is not of type \<open>string\<close> panics. The total
  counts the documents of the type, not the matches.
\<close>

definition term_string :: "termValue \<Rightarrow> string outcome" where
  "term_string v = (case v of TermString s \<Rightarrow> Ret s
     | TermIdent s \<Rightarrow> Panic ''interface conversion: interface {} is piazza.Ident, not string'')"

definition term_matches :: "string \<Rightarrow> termValue \<Rightarrow> val \<Rightarrow> bool outcome" where
  "term_matches name v obj =
     obind (assert_map obj) (\<lambda>m.
       obind (assert_string (map_get (entries_of m) name)) (\<lambda>actualValue.
         obind (term_string v) (\<lambda>s. Ret (actualValue = s))))"

primrec term_filter :: "string \<Rightarrow> termValue \<Rightarrow> (string \<times> val) list \<Rightarrow> (string \<times> val) list outcome" where
  "term_filter name v [] = Ret []"
| "term_filter name v (kv # kvs) =
     obind (term_matches name v (snd kv)) (\<lambda>ok.
       obind (term_filter name v kvs) (\<lambda>r. Ret (if ok then kv # r else r)))"

definition mock_FilterByTermQuery ::
    "string \<Rightarrow> string \<Rightarrow> termValue \<Rightarrow> jsonPagination option \<Rightarrow> (mockIndex, searchResult option \<times> err) go" where
  "mock_FilterByTermQuery typeName name v realFormat =
     bnd (mock_type_ptr typeName) (\<lambda>typ.
       let objs = put_all (items typ) [] in
       bnd (lift (term_filter name v objs)) (\<lambda>found.
         ret (Some \<lparr>totalHits = int (length objs), hits = srhSortMatches (map hit_of found),
                    sr_Found = found \<noteq> []\<rparr>, None)))"

definition mock_SearchByJSON :: "string \<Rightarrow> string \<Rightarrow> (mockIndex, searchResult option \<times> err) go" where
  "mock_SearchByJSON typ jsn = ret (None, Some ''SearchByJSON not supported under mocking'')"

definition mock_GetTypes :: "(mockIndex, string list \<times> err) go" where
  "mock_GetTypes = gets (\<lambda>esi. (map fst (types esi), nil_err))"

section \<open>Percolation\<close>

text \<open>
  Queries and documents to percolate are stored as documents of the type \<open>.percolate\<close>;
  nothing ever matches. The package variable \<open>percid\<close> is 0 and never changes.
\<close>

definition mock_AddPercolationQuery :: "string \<Rightarrow> string \<Rightarrow> (mockIndex, indexResponse option \<times> err) go" where
  "mock_AddPercolationQuery i query = mock_PostData percolateTypeName i (VStr query)"

definition mock_DeletePercolationQuery :: "string \<Rightarrow> (mockIndex, deleteResponse option \<times> err) go" where
  "mock_DeletePercolationQuery i = mock_DeleteByID percolateTypeName i"

definition mock_AddPercolationDocument ::
    "string \<Rightarrow> val \<Rightarrow> (mockIndex, percolateResponse option \<times> err) go" where
  "mock_AddPercolationDocument typeName doc =
     bnd (mock_PostData percolateTypeName (itoa 0) doc) (\<lambda>(r, err).
       case err of Some e \<Rightarrow> ret (None, Some e)
       | None \<Rightarrow> ret (Some \<lparr>pr_Total = 0, pr_Matches = []\<rparr>, None))"

definition mock_index :: "mockIndex iIndex" where
  "mock_index = \<lparr>
     ix_GetVersion = (\<lambda>_. ''2.2.0''),
     ix_IndexName = index_name,
     ix_IndexExists = mock_IndexExists,
     ix_TypeExists = mock_TypeExists,
     ix_ItemExists = mock_ItemExists,
     ix_Create = mock_Create,
     ix_Close = mock_Close,
     ix_Delete = mock_Delete,
     ix_PostData = mock_PostData,
     ix_PutData = mock_PutData,
     ix_GetByID = mock_GetByID,
     ix_DeleteByID = mock_DeleteByID,
     ix_FilterByMatchAll = mock_FilterByMatchAll,
     ix_GetAllElements = mock_GetAllElements,
     ix_FilterByTermQuery = mock_FilterByTermQuery,
     ix_SearchByJSON = mock_SearchByJSON,
     ix_SetMapping = mock_SetMapping,
     ix_GetTypes = mock_GetTypes,
     ix_AddPercolationQuery = mock_AddPercolationQuery,
     ix_DeletePercolationQuery = mock_DeletePercolationQuery,
     ix_AddPercolationDocument = mock_AddPercolationDocument\<rparr>"

section \<open>The contract holds\<close>

definition mock_docs :: "mockIndex \<Rightarrow> store" where
  "mock_docs esi t i = (case map_of (types esi) t of None \<Rightarrow> None | Some ty \<Rightarrow> map_of (items ty) i)"

definition mock_has_type :: "mockIndex \<Rightarrow> string \<Rightarrow> bool" where
  "mock_has_type esi t \<longleftrightarrow> map_of (types esi) t \<noteq> None"

text \<open>The maps are maps, and the index exists.\<close>

definition mock_inv :: "mockIndex \<Rightarrow> bool" where
  "mock_inv esi \<longleftrightarrow> exists esi \<and> distinct (map fst (types esi)) \<and>
     (\<forall>(t, ty) \<in> set (types esi). distinct (map fst (items ty)))"

lemma mock_TypeExists_app: "exists x \<Longrightarrow> mock_TypeExists t x = (Ret (mock_has_type x t, None), x)"
  by (simp add: mock_TypeExists_def mock_IndexExists_def mock_has_type_def bnd_def gets_def)

lemma mock_type_ptr_app: "map_of (types x) t = Some ty \<Longrightarrow> mock_type_ptr t x = (Ret ty, x)"
  by (simp add: mock_type_ptr_def bnd_def gets_def lift_def)

lemma mock_ItemExists_app: "exists x \<Longrightarrow> mock_ItemExists t i x = (Ret (mock_docs x t i \<noteq> None, None), x)"
  by (cases "map_of (types x) t")
     (simp_all add: mock_ItemExists_def mock_TypeExists_app mock_has_type_def mock_docs_def
       mock_type_ptr_app bnd_def ret_def)

lemma mock_GetByID_hit: "exists x \<Longrightarrow> mock_docs x t i = Some d \<Longrightarrow>
    mock_GetByID t i x = (Ret (Some \<lparr>gr_ID = i, gr_Source = Some d, gr_Found = True\<rparr>, None), x)"
  by (cases "map_of (types x) t")
     (simp_all add: mock_GetByID_def mock_ItemExists_app mock_docs_def mock_type_ptr_app bnd_def ret_def)

lemma mock_GetByID_miss: "exists x \<Longrightarrow> mock_docs x t i = None \<Longrightarrow>
    mock_GetByID t i x = (Ret (Some \<lparr>gr_ID = [], gr_Source = None, gr_Found = False\<rparr>,
      Some (''GetById: id does not exist: '' @ i)), x)"
  by (simp add: mock_GetByID_def mock_ItemExists_app bnd_def ret_def)

text \<open>Storing under a type: what it does to the documents and the invariant.\<close>

lemma set_update_subset: "set (AList.update k v al) \<subseteq> insert (k, v) (set al)"
  by (induction al) auto

lemma mock_inv_store:
  assumes "mock_inv x" "distinct (map fst (items ty))"
  shows "mock_inv (x\<lparr>types := AList.update t ty (types x)\<rparr>)"
  using assms set_update_subset [of t ty "types x"]
  by (fastforce simp: mock_inv_def distinct_update)

lemma mock_inv_items: "mock_inv x \<Longrightarrow> map_of (types x) t = Some ty \<Longrightarrow> distinct (map fst (items ty))"
  by (auto simp: mock_inv_def dest: map_of_SomeD)

lemma mock_docs_store:
  "mock_docs (x\<lparr>types := AList.update t ty (types x)\<rparr>) = (mock_docs x)(t := map_of (items ty))"
  by (auto simp: mock_docs_def fun_eq_iff update_conv')

lemma mock_has_type_store:
  "mock_has_type x t \<Longrightarrow> mock_has_type (x\<lparr>types := AList.update t ty (types x)\<rparr>) = mock_has_type x"
  by (auto simp: mock_has_type_def fun_eq_iff update_conv')

lemma mock_PostData_app:
  assumes "exists x" "map_of (types x) t = Some ty" "i \<noteq> []"
  shows "mock_PostData t i v x =
    (Ret (Some \<lparr>Created = True, ir_ID = i, ir_Index = index_name x, ir_Type = t\<rparr>, None),
     x\<lparr>types := AList.update t (ty\<lparr>items := AList.update i (wire v) (items ty)\<rparr>) (types x)\<rparr>)"
proof -
  have "mock_has_type x t" using assms(2) by (simp add: mock_has_type_def)
  with assms show ?thesis
    by (simp add: mock_PostData_def mock_IndexExists_def mock_TypeExists_app mock_type_ptr_app
        mock_store_def bnd_def ret_def gets_def modify_def)
qed

lemma mock_PostData_new_type:
  assumes "exists x" "map_of (types x) t = None" "i \<noteq> []"
  shows "mock_PostData t i v x =
    (Ret (Some \<lparr>Created = True, ir_ID = i, ir_Index = index_name x, ir_Type = t\<rparr>, None),
     x\<lparr>types := AList.update t \<lparr>items = [(i, wire v)], mapping = VNil\<rparr> (types x)\<rparr>)"
proof -
  have "\<not> mock_has_type x t" using assms(2) by (simp add: mock_has_type_def)
  moreover have "AList.update t b (AList.update t a (types x)) = AList.update t b (types x)" for a b
    by (simp add: update_nonempty)
  ultimately show ?thesis using assms
    by (simp add: mock_PostData_def mock_IndexExists_def mock_TypeExists_app mock_type_ptr_def
        mock_store_def bnd_def ret_def gets_def modify_def lift_def update_conv')
qed

lemma mock_DeleteByID_hit:
  assumes "exists x" "map_of (types x) t = Some ty" "map_of (items ty) i = Some d"
  shows "mock_DeleteByID t i x = (Ret (Some \<lparr>dr_Found = True, dr_ID = i\<rparr>, None),
     x\<lparr>types := AList.update t (ty\<lparr>items := AList.delete i (items ty)\<rparr>) (types x)\<rparr>)"
proof -
  have "mock_has_type x t" "mock_docs x t i = Some d"
    using assms by (simp_all add: mock_has_type_def mock_docs_def)
  with assms show ?thesis
    by (simp add: mock_DeleteByID_def mock_TypeExists_app mock_ItemExists_app mock_type_ptr_app
        mock_store_def bnd_def ret_def modify_def)
qed

lemma mock_DeleteByID_miss:
  "exists x \<Longrightarrow> mock_has_type x t \<Longrightarrow> mock_docs x t i = None \<Longrightarrow>
     mock_DeleteByID t i x = (Ret (Some \<lparr>dr_Found = False, dr_ID = []\<rparr>, None), x)"
  by (simp add: mock_DeleteByID_def mock_TypeExists_app mock_ItemExists_app bnd_def ret_def)

lemma mock_inv_exists: "mock_inv x \<Longrightarrow> exists x"
  by (simp add: mock_inv_def)

lemma mock_post_law:
  assumes "mock_inv x" "mock_has_type x t" "i \<noteq> []"
  shows "\<exists>r x'. mock_PostData t i v x = (Ret (Some r, None), x') \<and> Created r \<and> ir_ID r = i \<and>
    mock_inv x' \<and> mock_docs x' = store_put t i (Some (wire v)) (mock_docs x) \<and>
    mock_has_type x' = mock_has_type x"
proof -
  from assms(2) obtain ty where ty: "map_of (types x) t = Some ty"
    by (auto simp: mock_has_type_def)
  have "mock_docs x t = map_of (items ty)" using ty by (simp add: mock_docs_def fun_eq_iff)
  with assms ty show ?thesis
    by (simp add: mock_PostData_app mock_inv_exists mock_inv_store distinct_update mock_inv_items
        mock_docs_store mock_has_type_store store_put_def update_conv')
qed

lemma mock_delete_law:
  assumes "mock_inv x" "mock_docs x t i = Some d"
  shows "\<exists>r x'. mock_DeleteByID t i x = (Ret (Some r, None), x') \<and> dr_Found r \<and>
    mock_inv x' \<and> mock_docs x' = store_put t i None (mock_docs x) \<and> mock_has_type x' = mock_has_type x"
proof -
  from assms(2) obtain ty where ty: "map_of (types x) t = Some ty" "map_of (items ty) i = Some d"
    by (auto simp: mock_docs_def split: option.splits)
  then have "mock_has_type x t" "mock_docs x t = map_of (items ty)"
    by (simp_all add: mock_has_type_def mock_docs_def fun_eq_iff)
  with assms ty show ?thesis
    by (simp add: mock_DeleteByID_hit mock_inv_exists mock_inv_store distinct_delete mock_inv_items
        mock_docs_store mock_has_type_store store_put_def delete_conv')
qed

text \<open>The search laws.\<close>

lemma put_all_append: "distinct (map fst (acc @ kvs)) \<Longrightarrow> put_all kvs acc = acc @ kvs"
proof (induction kvs arbitrary: acc)
  case (Cons kv kvs)
  have "AList.update (fst kv) (snd kv) acc = acc @ [kv]"
    using Cons.prems by (cases kv) (simp add: update_new)
  with Cons show ?case by (simp add: put_all_def case_prod_unfold)
qed (simp add: put_all_def)

lemma put_all_distinct [simp]: "distinct (map fst kvs) \<Longrightarrow> put_all kvs [] = kvs"
  using put_all_append [of "[]" kvs] by simp

lemma term_filter_eq:
  "\<forall>kv \<in> set kvs. doc_field name (snd kv) \<noteq> None \<Longrightarrow>
     term_filter name (TermString v) kvs = Ret (filter (\<lambda>kv. doc_field name (snd kv) = Some v) kvs)"
proof (induction kvs)
  case (Cons kv kvs)
  then obtain s where s: "doc_field name (snd kv) = Some s" by auto
  then have "term_matches name (TermString v) (snd kv) = Ret (s = v)"
    by (auto simp: term_matches_def doc_field_def assert_map_def assert_string_def term_string_def
        split: option.splits)
  with Cons s show ?case by auto
qed simp

lemma hit_pairs_sorted:
  "hit_pairs \<lparr>totalHits = n, hits = srhSortMatches (map hit_of kvs), sr_Found = b\<rparr> =
     map (\<lambda>h. (hit_ID h, hit_Source h)) (sort_key hit_ID (map hit_of kvs))"
  by (simp add: hit_pairs_def srhSortMatches_def)

lemma mock_term_law:
  assumes "mock_inv x" "mock_has_type x t"
    and fields: "\<forall>i d. mock_docs x t i = Some d \<longrightarrow> doc_field name d \<noteq> None"
  shows "\<exists>sr. mock_FilterByTermQuery t name (TermString v) f x = (Ret (Some sr, None), x) \<and>
    distinct (map hit_ID (hits sr)) \<and> (sr_Found sr \<longleftrightarrow> hits sr \<noteq> []) \<and>
    set (hit_pairs sr) = {(i, Some d) |i d. mock_docs x t i = Some d \<and> doc_field name d = Some v}"
proof -
  from assms(2) obtain ty where ty: "map_of (types x) t = Some ty" by (auto simp: mock_has_type_def)
  have dist: "distinct (map fst (items ty))" using mock_inv_items [OF assms(1) ty] .
  have docs: "mock_docs x t = map_of (items ty)" using ty by (simp add: mock_docs_def fun_eq_iff)
  let ?found = "filter (\<lambda>kv. doc_field name (snd kv) = Some v) (items ty)"
  let ?sr = "\<lparr>totalHits = int (length (items ty)), hits = srhSortMatches (map hit_of ?found),
      sr_Found = (?found \<noteq> [])\<rparr>"
  have fields': "\<forall>kv \<in> set (items ty). doc_field name (snd kv) \<noteq> None"
  proof
    fix kv assume "kv \<in> set (items ty)"
    then have "mock_docs x t (fst kv) = Some (snd kv)" using docs dist by (simp add: map_of_eq_Some_iff)
    then show "doc_field name (snd kv) \<noteq> None" using fields by blast
  qed
  have "mock_FilterByTermQuery t name (TermString v) f x = (Ret (Some ?sr, None), x)"
    using term_filter_eq [OF fields', of v] dist
    by (simp add: mock_FilterByTermQuery_def bnd_def mock_type_ptr_app [OF ty] lift_def ret_def Let_def)
  moreover have "distinct (map hit_ID (hits ?sr))"
  proof -
    have "distinct (map fst ?found)" using dist by (simp add: distinct_map_filter)
    then have "distinct (map hit_ID (map hit_of ?found))" by (simp add: comp_def hit_of_def)
    moreover have "mset (map hit_ID (srhSortMatches (map hit_of ?found))) = mset (map hit_ID (map hit_of ?found))"
      by (simp add: srhSortMatches_def multiset.map_comp)
    ultimately show ?thesis by (metis mset_eq_imp_distinct_iff searchResult.select_convs(2))
  qed
  moreover have "sr_Found ?sr \<longleftrightarrow> hits ?sr \<noteq> []"
  proof -
    have "length (hits ?sr) = length ?found" by (simp add: srhSortMatches_def)
    then have "hits ?sr = [] \<longleftrightarrow> ?found = []" unfolding length_0_conv [symmetric] by (simp only:)
    then show ?thesis by (simp only: searchResult.select_convs)
  qed
  moreover have "set (hit_pairs ?sr) = {(i, Some d) |i d. mock_docs x t i = Some d \<and> doc_field name d = Some v}"
    unfolding hit_pairs_sorted docs using dist
    by (auto simp: hit_of_def map_of_eq_Some_iff image_iff)
  ultimately show ?thesis by blast
qed

lemma mock_set_mapping_law:
  assumes "mock_inv x" "\<not> mock_has_type x t"
  shows "\<exists>x'. mock_SetMapping t (VMap m) x = (Ret None, x') \<and> mock_inv x' \<and>
    mock_docs x' = mock_docs x \<and> mock_has_type x' = (mock_has_type x)(t := True)"
proof -
  have "mock_docs x t = (\<lambda>_. None)" using assms(2) by (simp add: mock_docs_def mock_has_type_def fun_eq_iff)
  then have "mock_docs (x\<lparr>types := AList.update t \<lparr>items = [], mapping = VMap m\<rparr> (types x)\<rparr>) = mock_docs x"
    by (auto simp: mock_docs_store)
  with assms show ?thesis
    by (simp add: mock_SetMapping_def mock_addType_def bnd_def modify_def ret_def mock_inv_store)
       (auto simp: mock_has_type_def fun_eq_iff update_conv')
qed

lemma mock_add_query_law:
  assumes "mock_inv x" "i \<noteq> []"
  shows "\<exists>r x'. mock_AddPercolationQuery i q x = (Ret (Some r, None), x') \<and> Created r \<and>
    ir_ID r = i \<and> mock_inv x' \<and>
    (\<forall>t' j. t' \<noteq> percolateTypeName \<or> j \<noteq> i \<longrightarrow> mock_docs x' t' j = mock_docs x t' j) \<and>
    (\<forall>t'. mock_has_type x t' \<longrightarrow> mock_has_type x' t')"
proof (cases "map_of (types x) percolateTypeName")
  case None
  then show ?thesis using assms
    by (simp add: mock_AddPercolationQuery_def mock_PostData_new_type mock_inv_exists mock_inv_store
        mock_docs_store mock_has_type_store) (auto simp: mock_docs_def mock_has_type_def update_conv')
next
  case (Some ty)
  then show ?thesis using assms
    by (simp add: mock_AddPercolationQuery_def mock_PostData_app mock_inv_exists mock_inv_store
        distinct_update mock_inv_items mock_docs_store mock_has_type_store update_conv')
      (auto simp: mock_docs_def mock_has_type_def update_conv')
qed

interpretation mock: search_index mock_index mock_docs mock_has_type mock_inv
proof
  fix x t i d v name f m q
  show "mock_inv x \<Longrightarrow> mock_docs x t i = Some d \<Longrightarrow> ix_GetByID mock_index t i x =
      (Ret (Some \<lparr>gr_ID = i, gr_Source = Some d, gr_Found = True\<rparr>, None), x)"
    by (simp add: mock_index_def mock_GetByID_hit mock_inv_exists)
  show "mock_inv x \<Longrightarrow> mock_docs x t i = None \<Longrightarrow>
      \<exists>g e. ix_GetByID mock_index t i x = (Ret (Some g, Some e), x) \<and> \<not> gr_Found g"
    by (simp add: mock_index_def mock_GetByID_miss mock_inv_exists)
  show "mock_inv x \<Longrightarrow> ix_TypeExists mock_index t x = (Ret (mock_has_type x t, None), x)"
    by (simp add: mock_index_def mock_TypeExists_app mock_inv_exists)
  show "mock_inv x \<Longrightarrow> ix_ItemExists mock_index t i x = (Ret (mock_docs x t i \<noteq> None, None), x)"
    by (simp add: mock_index_def mock_ItemExists_app mock_inv_exists)
  show "mock_inv x \<Longrightarrow> mock_docs x t i \<noteq> None \<Longrightarrow> mock_has_type x t"
    by (auto simp: mock_docs_def mock_has_type_def split: option.splits)
  show "mock_inv x \<Longrightarrow> mock_has_type x t \<Longrightarrow> i \<noteq> [] \<Longrightarrow> mock_docs x t i = None \<Longrightarrow>
      \<exists>r x'. ix_PostData mock_index t i v x = (Ret (Some r, None), x') \<and> Created r \<and> ir_ID r = i \<and>
        mock_inv x' \<and> mock_docs x' = store_put t i (Some (wire v)) (mock_docs x) \<and>
        mock_has_type x' = mock_has_type x"
    using mock_post_law [of x t i v] by (simp add: mock_index_def)
  show "mock_inv x \<Longrightarrow> mock_has_type x t \<Longrightarrow> i \<noteq> [] \<Longrightarrow>
      \<exists>r x'. ix_PutData mock_index t i v x = (Ret (Some r, None), x') \<and>
        mock_inv x' \<and> mock_docs x' = store_put t i (Some (wire v)) (mock_docs x) \<and>
        mock_has_type x' = mock_has_type x"
    using mock_post_law [of x t i v] by (auto simp: mock_index_def mock_PutData_def)
  show "mock_inv x \<Longrightarrow> mock_docs x t i = Some d \<Longrightarrow>
      \<exists>r x'. ix_DeleteByID mock_index t i x = (Ret (Some r, None), x') \<and> dr_Found r \<and>
        mock_inv x' \<and> mock_docs x' = store_put t i None (mock_docs x) \<and>
        mock_has_type x' = mock_has_type x"
    using mock_delete_law [of x t i d] by (simp add: mock_index_def)
  show "mock_inv x \<Longrightarrow> mock_has_type x t \<Longrightarrow> mock_docs x t i = None \<Longrightarrow>
      \<exists>r e. ix_DeleteByID mock_index t i x = (Ret (Some r, e), x) \<and> \<not> dr_Found r"
    by (simp add: mock_index_def mock_DeleteByID_miss mock_inv_exists)
  show "mock_inv x \<Longrightarrow> mock_has_type x t \<Longrightarrow>
      \<forall>i d. mock_docs x t i = Some d \<longrightarrow> doc_field name d \<noteq> None \<Longrightarrow>
      \<exists>sr. ix_FilterByTermQuery mock_index t name (TermString v) f x = (Ret (Some sr, None), x) \<and>
        distinct (map hit_ID (hits sr)) \<and> (sr_Found sr \<longleftrightarrow> hits sr \<noteq> []) \<and>
        set (hit_pairs sr) = {(i, Some d) |i d. mock_docs x t i = Some d \<and> doc_field name d = Some v}" for v
    using mock_term_law [of x t name v f] by (simp add: mock_index_def)
  show "mock_inv x \<Longrightarrow> \<not> mock_has_type x t \<Longrightarrow>
      \<exists>x'. ix_SetMapping mock_index t (VMap m) x = (Ret None, x') \<and> mock_inv x' \<and>
        mock_docs x' = mock_docs x \<and> mock_has_type x' = (mock_has_type x)(t := True)"
    using mock_set_mapping_law [of x t m] by (simp add: mock_index_def)
  show "mock_inv x \<Longrightarrow> i \<noteq> [] \<Longrightarrow>
      \<exists>r x'. ix_AddPercolationQuery mock_index i q x = (Ret (Some r, None), x') \<and> Created r \<and>
        ir_ID r = i \<and> mock_inv x' \<and>
        (\<forall>t' j. t' \<noteq> percolateTypeName \<or> j \<noteq> i \<longrightarrow> mock_docs x' t' j = mock_docs x t' j) \<and>
        (\<forall>t'. mock_has_type x t' \<longrightarrow> mock_has_type x' t')"
    using mock_add_query_law [of x i q] by (simp add: mock_index_def)
qed

section \<open>Percolation\<close>

text \<open>The mock index as it is, and the same index with a percolator that answers with given matches.\<close>

definition percolating_mock :: "(mockIndex \<Rightarrow> string \<Rightarrow> val \<Rightarrow> string list) \<Rightarrow> mockIndex iIndex" where
  "percolating_mock matches = mock_index\<lparr>ix_AddPercolationDocument := (\<lambda>t v x.
     case mock_AddPercolationDocument t v x of
       (Ret (Some p, e), x') \<Rightarrow> (Ret (Some (p\<lparr>pr_Matches :=
          map (\<lambda>i. \<lparr>prm_Id = i, prm_Index = index_name x\<rparr>) (matches x t v)\<rparr>), e), x')
     | r \<Rightarrow> r)\<rparr>"

lemma mock_AddPercolationDocument_app:
  assumes "mock_inv x"
  shows "\<exists>x'. mock_AddPercolationDocument t v x = (Ret (Some \<lparr>pr_Total = 0, pr_Matches = []\<rparr>, None), x') \<and>
    mock_inv x' \<and> (\<forall>t' i. t' \<noteq> percolateTypeName \<or> i \<noteq> ''0'' \<longrightarrow> mock_docs x' t' i = mock_docs x t' i) \<and>
    (\<forall>t'. mock_has_type x t' \<longrightarrow> mock_has_type x' t')"
proof -
  have z: "itoa 0 = ''0''" by code_simp
  show ?thesis
  proof (cases "map_of (types x) percolateTypeName")
    case None
    then have "mock_docs x percolateTypeName = (\<lambda>_. None)" by (simp add: mock_docs_def fun_eq_iff)
    with None assms z show ?thesis
      by (simp add: mock_AddPercolationDocument_def mock_PostData_new_type bnd_def ret_def mock_inv_exists
          mock_inv_store mock_docs_store) (auto simp: mock_has_type_def update_conv')
  next
    case (Some ty)
    then have "mock_docs x percolateTypeName = map_of (items ty)" by (simp add: mock_docs_def fun_eq_iff)
    with Some assms z show ?thesis
      by (simp add: mock_AddPercolationDocument_def mock_PostData_app bnd_def ret_def mock_inv_exists
          mock_inv_store mock_docs_store distinct_update mock_inv_items)
         (auto simp: mock_has_type_def update_conv')
  qed
qed

lemma mock_GetTypes_app:
  "mock_GetTypes x = (Ret (map fst (types x), None), x)" "set (map fst (types x)) = {t. mock_has_type x t}"
  by (simp add: mock_GetTypes_def gets_def) (auto simp: mock_has_type_def map_of_eq_None_iff)

interpretation plain: trigger_index mock_index mock_docs mock_has_type mock_inv "\<lambda>_ _ _. []"
proof unfold_locales
  fix x t v
  assume x: "mock_inv x"
  show "\<exists>ts. ix_GetTypes mock_index x = (Ret (ts, None), x) \<and> set ts = {t. mock_has_type x t}"
    using mock_GetTypes_app [of x] by (auto simp: mock_index_def)
  show "\<exists>p x'. ix_AddPercolationDocument mock_index t v x = (Ret (Some p, None), x') \<and>
      map prm_Id (pr_Matches p) = [] \<and> mock_inv x' \<and>
      (\<forall>t' i. t' \<noteq> percolateTypeName \<or> i \<noteq> ''0'' \<longrightarrow> mock_docs x' t' i = mock_docs x t' i) \<and>
      (\<forall>t'. mock_has_type x t' \<longrightarrow> mock_has_type x' t')"
    using mock_AddPercolationDocument_app [OF x, of t v] by (auto simp: mock_index_def)
qed

lemma percolating_mock_ix:
  "ix_GetByID (percolating_mock m) = ix_GetByID mock_index"
  "ix_TypeExists (percolating_mock m) = ix_TypeExists mock_index"
  "ix_ItemExists (percolating_mock m) = ix_ItemExists mock_index"
  "ix_PostData (percolating_mock m) = ix_PostData mock_index"
  "ix_PutData (percolating_mock m) = ix_PutData mock_index"
  "ix_DeleteByID (percolating_mock m) = ix_DeleteByID mock_index"
  "ix_FilterByTermQuery (percolating_mock m) = ix_FilterByTermQuery mock_index"
  "ix_SetMapping (percolating_mock m) = ix_SetMapping mock_index"
  "ix_GetTypes (percolating_mock m) = ix_GetTypes mock_index"
  "ix_AddPercolationQuery (percolating_mock m) = ix_AddPercolationQuery mock_index"
  by (simp_all add: percolating_mock_def)

interpretation perc: trigger_index "percolating_mock m" mock_docs mock_has_type mock_inv m for m
proof unfold_locales
  fix x t v
  assume x: "mock_inv x"
  from mock_AddPercolationDocument_app [OF x, of t v] obtain x' where x':
    "mock_AddPercolationDocument t v x = (Ret (Some \<lparr>pr_Total = 0, pr_Matches = []\<rparr>, None), x')" "mock_inv x'"
    "\<forall>t' i. t' \<noteq> percolateTypeName \<or> i \<noteq> ''0'' \<longrightarrow> mock_docs x' t' i = mock_docs x t' i"
    "\<forall>t'. mock_has_type x t' \<longrightarrow> mock_has_type x' t'" by blast
  then show "\<exists>p x'. ix_AddPercolationDocument (percolating_mock m) t v x = (Ret (Some p, None), x') \<and>
      map prm_Id (pr_Matches p) = m x t v \<and> mock_inv x' \<and>
      (\<forall>t' i. t' \<noteq> percolateTypeName \<or> i \<noteq> ''0'' \<longrightarrow> mock_docs x' t' i = mock_docs x t' i) \<and>
      (\<forall>t'. mock_has_type x t' \<longrightarrow> mock_has_type x' t')"
    by (simp add: percolating_mock_def comp_def)
qed (unfold percolating_mock_ix, (fact mock.get_hit mock.get_miss mock.type_exists mock.item_exists mock.doc_type
    mock.post_new mock.put mock.delete_hit mock.delete_miss mock.term_query mock.set_mapping mock.add_query
    plain.get_types)+)

end
