(* ===== verification/CronParse.thy ===== *)
theory CronParse
  imports JsonText "HOL-Library.Word"
begin

unbundle bit_operations_syntax

text \<open>
  The cron specification parser (\<open>vegertar-cron/parser.go\<close>, \<open>constantdelay.go\<close> and the
  types of \<open>spec.go\<close>). A field is a 64-bit set; the loop that fills it with a step other
  than one need not end, so it is a partial function and a parse may hang.
\<close>

type_synonym u64 = "64 word"

section \<open>Schedules\<close>

record specSchedule =
  Second :: u64
  Minute :: u64
  Hour :: u64
  Dom :: u64
  Month :: u64
  Dow :: u64

text \<open>\<open>NowSchedule\<close> carries its flag \<open>ran\<close>; a delay is in nanoseconds.\<close>

datatype schedule =
    SpecSchedule specSchedule
  | ConstantDelaySchedule int
  | NowSchedule bool

record bounds =
  b_min :: u64
  b_max :: u64
  b_names :: "(string \<times> u64) list"

definition seconds :: bounds where "seconds = \<lparr>b_min = 0, b_max = 59, b_names = []\<rparr>"
definition minutes :: bounds where "minutes = \<lparr>b_min = 0, b_max = 59, b_names = []\<rparr>"
definition hours :: bounds where "hours = \<lparr>b_min = 0, b_max = 23, b_names = []\<rparr>"
definition dom_bounds :: bounds where "dom_bounds = \<lparr>b_min = 1, b_max = 31, b_names = []\<rparr>"

definition months :: bounds where
  "months = \<lparr>b_min = 1, b_max = 12, b_names = [(''jan'', 1), (''feb'', 2), (''mar'', 3),
     (''apr'', 4), (''may'', 5), (''jun'', 6), (''jul'', 7), (''aug'', 8), (''sep'', 9),
     (''oct'', 10), (''nov'', 11), (''dec'', 12)]\<rparr>"

definition dow_bounds :: bounds where
  "dow_bounds = \<lparr>b_min = 0, b_max = 6, b_names = [(''sun'', 0), (''mon'', 1), (''tue'', 2),
     (''wed'', 3), (''thu'', 4), (''fri'', 5), (''sat'', 6)]\<rparr>"

definition starBit :: u64 where "starBit = push_bit 63 1"

section \<open>Bit sets\<close>

text \<open>\<open>for i := min; i <= max; i += step { bits |= 1 << i }\<close>; \<open>None\<close> is not returning.\<close>

partial_function (option) getBits_loop :: "u64 \<Rightarrow> u64 \<Rightarrow> u64 \<Rightarrow> u64 \<Rightarrow> u64 option" where
  "getBits_loop i mx step bits =
     (if i \<le> mx then getBits_loop (i + step) mx step (bits OR push_bit (unat i) 1)
      else Some bits)"

declare getBits_loop.simps [code]

definition getBits :: "u64 \<Rightarrow> u64 \<Rightarrow> u64 \<Rightarrow> u64 outcome" where
  "getBits mn mx step =
     (if step = 1
      then Ret (NOT (push_bit (unat (mx + 1)) (-1)) AND push_bit (unat mn) (-1))
      else (case getBits_loop mn mx step 0 of None \<Rightarrow> Hang | Some bits \<Rightarrow> Ret bits))"

definition all_bits :: "bounds \<Rightarrow> u64 outcome" where
  "all_bits r = obind (getBits (b_min r) (b_max r) 1) (\<lambda>b. Ret (b OR starBit))"

section \<open>Ranges and fields\<close>

definition mustParseInt :: "string \<Rightarrow> u64 outcome" where
  "mustParseInt expr =
     (case atoi expr of
        None \<Rightarrow> Panic (''Failed to parse int from '' @ expr @ '': '' @ atoi_error expr)
      | Some num \<Rightarrow> if num < 0 then Panic (''Negative number ('' @ itoa num @ '') not allowed: '' @ expr)
                    else Ret (word_of_int num))"

definition parseIntOrName :: "string \<Rightarrow> (string \<times> u64) list \<Rightarrow> u64 outcome" where
  "parseIntOrName expr names =
     (case map_of names (toLower expr) of Some namedInt \<Rightarrow> Ret namedInt | None \<Rightarrow> mustParseInt expr)"

text \<open>
  A range is \<open>number | number-number | *\<close>, with an optional \<open>/step\<close>. The two ends (with the
  star bit), the step (with the end it may extend to the maximum), and the checks on them.
\<close>

definition range_ends :: "string \<Rightarrow> string list \<Rightarrow> bounds \<Rightarrow> (u64 \<times> u64 \<times> u64) outcome" where
  "range_ends expr lowAndHigh r =
     (if lowAndHigh ! 0 = ''*'' \<or> lowAndHigh ! 0 = ''?''
      then Ret (b_min r, b_max r, starBit)
      else obind (parseIntOrName (lowAndHigh ! 0) (b_names r)) (\<lambda>start.
        if length lowAndHigh = 1 then Ret (start, start, 0)
        else if length lowAndHigh = 2
        then obind (parseIntOrName (lowAndHigh ! 1) (b_names r)) (\<lambda>end0. Ret (start, end0, 0))
        else Panic (''Too many hyphens: '' @ expr)))"

definition range_step :: "string \<Rightarrow> string list \<Rightarrow> bool \<Rightarrow> u64 \<Rightarrow> bounds \<Rightarrow> (u64 \<times> u64) outcome" where
  "range_step expr rangeAndStep singleDigit end0 r =
     (if length rangeAndStep = 1 then Ret (end0, 1)
      else if length rangeAndStep = 2
      then obind (mustParseInt (rangeAndStep ! 1)) (\<lambda>step.
             Ret (if singleDigit then b_max r else end0, step))
      else Panic (''Too many slashes: '' @ expr))"

definition range_bits :: "string \<Rightarrow> u64 \<Rightarrow> u64 \<Rightarrow> u64 \<Rightarrow> u64 \<Rightarrow> bounds \<Rightarrow> u64 outcome" where
  "range_bits expr start end1 step extra_star r =
     (if start < b_min r then Panic (''Beginning of range ('' @ itoa (uint start) @ '') below minimum ('' @
       itoa (uint (b_min r)) @ ''): '' @ expr)
      else if end1 > b_max r then Panic (''End of range ('' @ itoa (uint end1) @ '') above maximum ('' @
       itoa (uint (b_max r)) @ ''): '' @ expr)
      else if start > end1 then Panic (''Beginning of range ('' @ itoa (uint start) @ '') beyond end of range ('' @
       itoa (uint end1) @ ''): '' @ expr)
      else obind (getBits start end1 step) (\<lambda>b. Ret (b OR extra_star)))"

definition getRange :: "string \<Rightarrow> bounds \<Rightarrow> u64 outcome" where
  "getRange expr r =
     (let rangeAndStep = split_byte CHR ''/'' expr;
          lowAndHigh = split_byte CHR ''-'' (hd rangeAndStep);
          singleDigit = (length lowAndHigh = 1)
      in obind (range_ends expr lowAndHigh r) (\<lambda>(start, end0, extra_star).
           obind (range_step expr rangeAndStep singleDigit end0 r) (\<lambda>(end1, step).
             range_bits expr start end1 step extra_star r)))"

primrec or_ranges :: "bounds \<Rightarrow> u64 \<Rightarrow> string list \<Rightarrow> u64 outcome" where
  "or_ranges r bits [] = Ret bits"
| "or_ranges r bits (expr # exprs) = obind (getRange expr r) (\<lambda>b. or_ranges r (bits OR b) exprs)"

definition getField :: "string \<Rightarrow> bounds \<Rightarrow> u64 outcome" where
  "getField field r = or_ranges r 0 (fieldsFunc (\<lambda>c. c = CHR '','') field)"

section \<open>Delays\<close>

definition nanos_per_second :: int where "nanos_per_second = 1000000000"

text \<open>\<open>Every\<close>: at least a second, in whole seconds.\<close>

definition Every :: "int \<Rightarrow> schedule" where
  "Every duration0 =
     (let duration = (if duration0 < nanos_per_second then nanos_per_second else duration0)
      in ConstantDelaySchedule (duration - remainder duration nanos_per_second))"

text \<open>
  \<open>time.ParseDuration\<close>: a sign and a sequence of decimals with units, in nanoseconds, or its
  error. A fraction of a unit is truncated to nanoseconds.
\<close>

definition unit_nanos :: "string \<Rightarrow> int option" where
  "unit_nanos u = map_of [(''ns'', 1), (''us'', 1000),
     ([CHR 0xC2, CHR 0xB5, CHR ''s''], 1000), ([CHR 0xCE, CHR 0xBC, CHR ''s''], 1000), (''ms'', 1000000), (''s'', 1000000000),
     (''m'', 60000000000), (''h'', 3600000000000)] u"

definition unit_char :: "char \<Rightarrow> bool" where
  "unit_char c \<longleftrightarrow> c \<noteq> CHR ''.'' \<and> \<not> is_digit c"

definition invalid_duration :: string where "invalid_duration = ''time: invalid duration ''"

function parse_terms :: "string \<Rightarrow> int \<Rightarrow> string + int" where
  "parse_terms s d =
     (if s = [] then Inr d
      else let pre = takeWhile is_digit s; s1 = dropWhile is_digit s;
               dotted = (s1 \<noteq> [] \<and> hd s1 = CHR ''.'');
               post = (if dotted then takeWhile is_digit (tl s1) else []);
               s2 = (if dotted then dropWhile is_digit (tl s1) else s1);
               u = takeWhile unit_char s2; s3 = dropWhile unit_char s2
           in if pre = [] \<and> post = [] then Inl invalid_duration
              else (case (dec_val 0 pre, dec_val 0 post) of
                  (Some v, Some f) \<Rightarrow>
                    if \<not> in_int64 v then Inl invalid_duration
                    else if u = [] then Inl ''time: missing unit in duration ''
                    else (case unit_nanos u of
                        None \<Rightarrow> Inl (''time: unknown unit '' @ u @ '' in duration '')
                      | Some nanos \<Rightarrow>
                          let t = v * nanos + f * nanos div 10 ^ length post
                          in if in_int64 t \<and> in_int64 (d + t) \<and> length s3 < length s
                             then parse_terms s3 (d + t) else Inl invalid_duration)
                | _ \<Rightarrow> Inl invalid_duration))"
  by pat_completeness auto
termination
  by (relation "measure (\<lambda>(s, d). length s)") auto

definition ParseDuration :: "string \<Rightarrow> string + int" where
  "ParseDuration s =
     (let (neg, s1) = (case s of c # r \<Rightarrow>
              if c = CHR ''-'' then (True, r) else if c = CHR ''+'' then (False, r) else (False, s)
            | [] \<Rightarrow> (False, []))
      in if s1 = ''0'' then Inr 0
         else if s1 = [] then Inl (invalid_duration @ s)
         else (case parse_terms s1 0 of
             Inl e \<Rightarrow> Inl (e @ s) | Inr d \<Rightarrow> Inr (if neg then - d else d)))"

section \<open>Descriptors and specifications\<close>

definition spec_of :: "u64 outcome list \<Rightarrow> schedule outcome" where
  "spec_of fs = (case fs of
     [s, mi, h, dm, mo, dw] \<Rightarrow>
       obind s (\<lambda>s. obind mi (\<lambda>mi. obind h (\<lambda>h. obind dm (\<lambda>dm. obind mo (\<lambda>mo. obind dw (\<lambda>dw.
         Ret (SpecSchedule \<lparr>Second = s, Minute = mi, Hour = h, Dom = dm, Month = mo, Dow = dw\<rparr>)))))))
   | _ \<Rightarrow> Panic ''Expected 5 or 6 fields'')"

definition only :: "bounds \<Rightarrow> u64 outcome" where
  "only r = Ret (push_bit (unat (b_min r)) 1)"

definition parseDescriptor :: "string \<Rightarrow> schedule outcome" where
  "parseDescriptor spec =
     (if spec = ''@yearly'' \<or> spec = ''@annually''
      then spec_of [only seconds, only minutes, only hours, only dom_bounds, only months, all_bits dow_bounds]
      else if spec = ''@monthly''
      then spec_of [only seconds, only minutes, only hours, only dom_bounds, all_bits months, all_bits dow_bounds]
      else if spec = ''@weekly''
      then spec_of [only seconds, only minutes, only hours, all_bits dom_bounds, all_bits months, only dow_bounds]
      else if spec = ''@daily'' \<or> spec = ''@midnight''
      then spec_of [only seconds, only minutes, only hours, all_bits dom_bounds, all_bits months, all_bits dow_bounds]
      else if spec = ''@hourly''
      then spec_of [only seconds, only minutes, all_bits hours, all_bits dom_bounds, all_bits months, all_bits dow_bounds]
      else if spec = ''@now'' then Ret (NowSchedule False)
      else if hasPrefix spec ''@every ''
      then (case ParseDuration (drop (length ''@every '') spec) of
              Inl e \<Rightarrow> Panic (''Failed to parse duration '' @ spec @ '': '' @ e)
            | Inr duration \<Rightarrow> Ret (Every duration))
      else Panic (''Unrecognized descriptor: '' @ spec))"

text \<open>The body of \<open>Parse\<close>, and \<open>Parse\<close> itself: a panic becomes its error.\<close>

definition parse_body :: "string \<Rightarrow> schedule outcome" where
  "parse_body spec =
     (if spec = [] then Panic ''runtime error: index out of range''
      else if hd spec = CHR ''@'' then parseDescriptor spec
      else let fields = strings_Fields spec
           in if length fields \<noteq> 5 \<and> length fields \<noteq> 6
              then Panic (''Expected 5 or 6 fields, found '' @ itoa (int (length fields)) @ '': '' @ spec)
              else let fields = (if length fields = 5 then fields @ [''*''] else fields)
                   in spec_of [getField (fields ! 0) seconds, getField (fields ! 1) minutes,
                        getField (fields ! 2) hours, getField (fields ! 3) dom_bounds,
                        getField (fields ! 4) months, getField (fields ! 5) dow_bounds])"

definition cron_Parse :: "string \<Rightarrow> (string + schedule) outcome" where
  "cron_Parse spec =
     (case parse_body spec of Ret s \<Rightarrow> Ret (Inr s) | Panic m \<Rightarrow> Ret (Inl m) | Hang \<Rightarrow> Hang)"

lemma cron_Parse_no_panic: "cron_Parse spec \<noteq> Panic m"
  by (simp add: cron_Parse_def split: outcome.split)

section \<open>What a bit set contains\<close>

lemma dvd_step:
  assumes "(0::nat) < s"
  shows "i \<le> n \<and> s dvd (n - i) \<longleftrightarrow> n = i \<or> (i + s \<le> n \<and> s dvd (n - (i + s)))"
proof
  assume l: "i \<le> n \<and> s dvd (n - i)"
  then obtain k where k: "n = i + s * k" by (metis dvdE le_add_diff_inverse)
  then show "n = i \<or> (i + s \<le> n \<and> s dvd (n - (i + s)))"
    by (cases k) auto
next
  assume "n = i \<or> (i + s \<le> n \<and> s dvd (n - (i + s)))"
  then show "i \<le> n \<and> s dvd (n - i)"
  proof
    assume r: "i + s \<le> n \<and> s dvd (n - (i + s))"
    then obtain k where "n - (i + s) = s * k" by (auto elim: dvdE)
    with r have "n = i + s * Suc k" by simp
    then show ?thesis by simp
  qed simp
qed

lemma unat_add_step:
  fixes i :: u64
  assumes "i \<le> mx" "unat mx + unat step < 2 ^ 64"
  shows "unat (i + step) = unat i + unat step"
proof -
  have "unat i + unat step < 2 ^ LENGTH(64)" using assms by (simp add: word_le_nat_alt)
  then show ?thesis by (simp add: unat_word_ariths)
qed

lemma getBits_loop_spec:
  assumes step: "0 < unat step" and bound: "unat mx + unat step < 2 ^ 64"
  shows "\<exists>b. getBits_loop i mx step bits = Some b \<and>
     (\<forall>n < 64. bit b n \<longleftrightarrow> bit bits n \<or> (unat i \<le> n \<and> n \<le> unat mx \<and> unat step dvd (n - unat i)))"
proof (induction "Suc (unat mx) - unat i" arbitrary: i bits rule: less_induct)
  case less
  show ?case
  proof (cases "i \<le> mx")
    case False
    then have "unat mx < unat i" by (simp add: word_le_nat_alt)
    with False show ?thesis by (auto simp: getBits_loop.simps [of i])
  next
    case True
    let ?bits = "bits OR push_bit (unat i) 1"
    have i: "unat i \<le> unat mx" using True by (simp add: word_le_nat_alt)
    have next_i: "unat (i + step) = unat i + unat step" by (rule unat_add_step [OF True bound])
    have "Suc (unat mx) - unat (i + step) < Suc (unat mx) - unat i" using i next_i step by simp
    from less [OF this] obtain b where
      b: "getBits_loop (i + step) mx step ?bits = Some b"
      "\<And>n. n < 64 \<Longrightarrow> bit b n \<longleftrightarrow> bit ?bits n \<or>
         (unat (i + step) \<le> n \<and> n \<le> unat mx \<and> unat step dvd (n - unat (i + step)))"
      by blast
    have "bit b n \<longleftrightarrow> bit bits n \<or> (unat i \<le> n \<and> n \<le> unat mx \<and> unat step dvd (n - unat i))"
      if "n < 64" for n
      using b(2) [OF that] that i next_i dvd_step [OF step, of "unat i" n]
      by (auto simp: bit_or_iff bit_exp_iff)
    with b(1) True show ?thesis by (auto simp: getBits_loop.simps [of i])
  qed
qed

text \<open>With step zero the loop never returns.\<close>

lemma getBits_loop_0: "i \<le> mx \<Longrightarrow> getBits_loop i mx 0 bits = None"
proof (rule ccontr)
  assume le: "i \<le> mx" and "getBits_loop i mx 0 bits \<noteq> None"
  then obtain r where "getBits_loop i mx 0 bits = Some r" by auto
  then have "\<not> (0 = (0 :: u64) \<and> i \<le> mx)"
    by (rule getBits_loop.raw_induct [where P = "\<lambda>i mx step bits r. \<not> (step = 0 \<and> i \<le> mx)", rotated])
       (auto split: if_splits)
  with le show False by simp
qed

lemma bit_minus_one_u64: "bit (push_bit k (-1 :: u64)) n \<longleftrightarrow> k \<le> n \<and> n < 64"
  by (auto simp: bit_not_iff bit_mask_iff)

theorem getBits_spec:
  assumes range: "unat mx < 64" and step: "0 < unat step" "unat step < 2 ^ 63"
  shows "\<exists>b. getBits mn mx step = Ret b \<and>
     (\<forall>n < 64. bit b n \<longleftrightarrow> unat mn \<le> n \<and> n \<le> unat mx \<and> unat step dvd (n - unat mn))"
proof (cases "step = 1")
  case True
  have "unat (mx + 1) = Suc (unat mx)" using range by (simp add: unat_word_ariths)
  with True show ?thesis
    by (auto simp: getBits_def bit_and_iff bit_not_iff bit_mask_iff)
next
  case False
  have "unat mx + unat step < 2 ^ 64" using range step by simp
  from getBits_loop_spec [OF step(1) this, of mn 0] False show ?thesis
    by (auto simp: getBits_def)
qed

theorem getBits_hang_iff:
  assumes "unat mx < 64" "unat step < 2 ^ 63"
  shows "getBits mn mx step = Hang \<longleftrightarrow> step = 0 \<and> mn \<le> mx"
proof (cases "step = 0")
  case True
  show ?thesis
  proof (cases "mn \<le> mx")
    case le: True
    with True show ?thesis by (simp add: getBits_def getBits_loop_0)
  next
    case False
    with True show ?thesis by (simp add: getBits_def getBits_loop.simps [of mn])
  qed
next
  case False
  then have "0 < unat step" by (simp add: unat_gt_0)
  with getBits_spec [OF assms(1) _ assms(2), of mn] False show ?thesis by auto
qed

section \<open>Ranges and fields stay in bounds\<close>

lemma mustParseInt_not_Hang [simp]: "mustParseInt e \<noteq> Hang"
  by (simp add: mustParseInt_def split: option.split)

lemma parseIntOrName_not_Hang [simp]: "parseIntOrName e names \<noteq> Hang"
  by (simp add: parseIntOrName_def split: option.split)

lemma range_ends_not_Hang [simp]: "range_ends expr lh r \<noteq> Hang"
  by (simp add: range_ends_def)

lemma range_step_not_Hang [simp]: "range_step expr rs single e r \<noteq> Hang"
  by (simp add: range_step_def)

lemma atoi_range: "atoi s = Some v \<Longrightarrow> in_int64 v"
  by (auto simp: atoi_def Let_def split: list.splits if_splits option.splits)

lemma mustParseInt_bound:
  assumes "mustParseInt e = Ret n" shows "unat n < 2 ^ 63"
proof -
  from assms obtain v where v: "atoi e = Some v" "0 \<le> v" "n = word_of_int v"
    by (auto simp: mustParseInt_def split: option.splits if_splits)
  then have less: "v < 2 ^ 63" using atoi_range [of e v] by (simp add: in_int64_def)
  with v have "uint n = v" by (simp add: unsigned_of_int take_bit_int_eq_self)
  with less v(2) show ?thesis by (simp add: nat_less_iff flip: nat_uint_eq)
qed

lemma range_step_bound: "range_step expr rs single e r = Ret (end1, step) \<Longrightarrow> unat step < 2 ^ 63"
  by (auto simp: range_step_def dest: mustParseInt_bound split: if_splits)

definition starred :: "u64 \<Rightarrow> u64 \<Rightarrow> bool" where
  "starred b b0 \<longleftrightarrow> b = b0 \<or> b = (b0 OR starBit)"

lemma range_ends_star: "range_ends expr lh r = Ret (s, e, x) \<Longrightarrow> x = 0 \<or> x = starBit"
  by (auto simp: range_ends_def split: if_splits)

lemma bit_starBit: "bit starBit n \<longleftrightarrow> n = 63"
proof -
  have "bit (push_bit 63 (1 :: u64)) n \<longleftrightarrow> 63 \<le> n \<and> n < 64 \<and> bit (1 :: u64) (n - 63)"
    unfolding bit_push_bit_iff by auto
  also have "\<dots> \<longleftrightarrow> n = 63" unfolding bit_1_iff by auto
  finally show ?thesis unfolding starBit_def .
qed

text \<open>A range sets bits of its bounds only, and the star bit.\<close>

lemma range_bits_in_bounds:
  assumes "range_bits expr start end1 step x r = Ret b" "x = 0 \<or> x = starBit"
    "unat (b_max r) < 63" "unat step < 2 ^ 63" "n < 63" "bit b n"
  shows "unat (b_min r) \<le> n \<and> n \<le> unat (b_max r)"
proof -
  from assms(1) obtain b0 where
    le: "b_min r \<le> start" "end1 \<le> b_max r" "start \<le> end1"
    and b0: "getBits start end1 step = Ret b0" "b = (b0 OR x)"
    by (auto simp: range_bits_def not_less split: if_splits)
  have mx: "unat end1 < 64" using le(2) assms(3) by (simp add: word_le_nat_alt)
  have pos: "0 < unat step"
  proof (rule ccontr)
    assume "\<not> 0 < unat step"
    then have "step = 0" by (simp add: unat_gt_0)
    with getBits_hang_iff [OF mx assms(4), of start] le(3) b0(1) show False by simp
  qed
  from getBits_spec [OF mx pos assms(4), of start] b0(1)
  have "bit b0 n \<longleftrightarrow> unat start \<le> n \<and> n \<le> unat end1 \<and> unat step dvd (n - unat start)"
    using assms(5) by auto
  moreover have "bit b n \<longleftrightarrow> bit b0 n"
    using assms(2,5) b0(2) by (auto simp: bit_or_iff bit_starBit)
  ultimately show ?thesis using assms(6) le by (simp add: word_le_nat_alt)
qed

lemma getRange_in_bounds:
  assumes "getRange expr r = Ret b" "unat (b_max r) < 63" "n < 63" "bit b n"
  shows "unat (b_min r) \<le> n \<and> n \<le> unat (b_max r)"
proof -
  from assms(1) obtain lh rs single s e x e1 st where
    p: "range_ends expr lh r = Ret (s, e, x)" "range_step expr rs single e r = Ret (e1, st)"
       "range_bits expr s e1 st x r = Ret b"
    by (auto simp: getRange_def Let_def)
  from range_bits_in_bounds [OF p(3) range_ends_star [OF p(1)] assms(2) range_step_bound [OF p(2)]
    assms(3,4)] show ?thesis .
qed

lemma or_ranges_in_bounds:
  assumes "or_ranges r b0 exprs = Ret b" "unat (b_max r) < 63" "n < 63" "bit b n"
  shows "bit b0 n \<or> (unat (b_min r) \<le> n \<and> n \<le> unat (b_max r))"
  using assms
proof (induction exprs arbitrary: b0)
  case (Cons e es)
  then obtain b1 where "getRange e r = Ret b1" "or_ranges r (b0 OR b1) es = Ret b" by auto
  with Cons.IH [of "b0 OR b1"] Cons.prems getRange_in_bounds [of e r b1 n] show ?case
    by (auto simp: bit_or_iff)
qed simp

theorem getField_in_bounds:
  assumes "getField field r = Ret b" "unat (b_max r) < 63" "n < 63" "bit b n"
  shows "unat (b_min r) \<le> n \<and> n \<le> unat (b_max r)"
  using or_ranges_in_bounds [of r 0 _ b n] assms by (auto simp: getField_def)

section \<open>When a parse hangs\<close>

text \<open>A range hangs exactly when its ends are legal and its step reads as zero.\<close>

lemma range_bits_Hang_iff:
  assumes "unat (b_max r) < 63" "unat step < 2 ^ 63"
  shows "range_bits expr start end1 step x r = Hang \<longleftrightarrow>
    step = 0 \<and> b_min r \<le> start \<and> start \<le> end1 \<and> end1 \<le> b_max r"
proof (cases "end1 \<le> b_max r")
  case True
  then have "unat end1 < 64" using assms(1) by (simp add: word_le_nat_alt)
  from getBits_hang_iff [OF this assms(2)] True show ?thesis
    by (auto simp: range_bits_def not_less)
qed (auto simp: range_bits_def)

definition step_text :: "string \<Rightarrow> string option" where
  "step_text expr = (case split_byte CHR ''/'' expr of [_, s] \<Rightarrow> Some s | _ \<Rightarrow> None)"

lemma range_step_0:
  assumes "range_step expr (split_byte CHR ''/'' expr) single e r = Ret (end1, 0)"
  shows "\<exists>s. step_text expr = Some s \<and> atoi s = Some 0"
proof -
  from assms obtain s0 s where s: "split_byte CHR ''/'' expr = [s0, s]" "mustParseInt s = Ret 0"
    by (auto simp: range_step_def numeral_2_eq_2 length_Suc_conv split: if_splits)
  then obtain v where v: "atoi s = Some v" "0 \<le> v" "word_of_int v = (0 :: u64)"
    by (auto simp: mustParseInt_def split: option.splits if_splits)
  then have "v < 2 ^ 63" using atoi_range [of s v] by (simp add: in_int64_def)
  with v have "v = 0"
    by (simp add: word_of_int_eq_0_iff dvd_imp_le zdvd_not_zless not_le order_le_less)
       (smt (verit) zdvd_imp_le)
  with v s(1) show ?thesis by (simp add: step_text_def)
qed

lemma getRange_Hang:
  assumes "getRange expr r = Hang" "unat (b_max r) < 63"
  shows "\<exists>s. step_text expr = Some s \<and> atoi s = Some 0"
proof -
  from assms(1) obtain single e e1 st s x where
    p: "range_step expr (split_byte CHR ''/'' expr) single e r = Ret (e1, st)"
       "range_bits expr s e1 st x r = Hang"
    by (auto simp: getRange_def Let_def)
  from range_bits_Hang_iff [OF assms(2) range_step_bound [OF p(1)]] p(2) have "st = 0" by blast
  with p(1) show ?thesis by (auto intro: range_step_0)
qed

lemma or_ranges_Hang:
  assumes "or_ranges r b exprs = Hang" "unat (b_max r) < 63"
  shows "\<exists>e \<in> set exprs. \<exists>s. step_text e = Some s \<and> atoi s = Some 0"
  using assms
proof (induction exprs arbitrary: b)
  case (Cons e es)
  then show ?case using getRange_Hang [of e r] by auto
qed simp

lemma getField_Hang:
  "getField field r = Hang \<Longrightarrow> unat (b_max r) < 63 \<Longrightarrow>
    \<exists>e \<in> set (fieldsFunc (\<lambda>c. c = CHR '','') field). \<exists>s. step_text e = Some s \<and> atoi s = Some 0"
  unfolding getField_def by (rule or_ranges_Hang)

lemmas bounds_defs = seconds_def minutes_def hours_def dom_bounds_def months_def dow_bounds_def

lemma bounds_max [simp]:
  "unat (b_max seconds) < 63" "unat (b_max minutes) < 63" "unat (b_max hours) < 63"
  "unat (b_max dom_bounds) < 63" "unat (b_max months) < 63" "unat (b_max dow_bounds) < 63"
  by (simp_all add: bounds_defs)

end
