(* ===== verification/CronRun.thy ===== *)
theory CronRun
  imports CronParse "HOL-Library.Multiset"
begin

text \<open>
  The cron runner (\<open>vegertar-cron/cron.go\<close>) and the activation times of schedules (\<open>spec.go\<close>,
  \<open>constantdelay.go\<close>). A time is a count of nanoseconds since 1970, or Go's zero time; the
  local zone is a fixed offset from UTC in seconds.
\<close>

section \<open>The calendar\<close>

text \<open>
  The proleptic Gregorian calendar of the package \<open>time\<close>: days since 1970-01-01 to year, month
  and day, and back. Months out of range are carried into the year, as \<open>time.Date\<close> does.
\<close>

definition civil_from_days :: "int \<Rightarrow> int \<times> int \<times> int" where
  "civil_from_days days =
     (let z = days + 719468; era = z div 146097; doe = z mod 146097;
          yoe = (doe - doe div 1460 + doe div 36524 - doe div 146096) div 365;
          doy = doe - (365 * yoe + yoe div 4 - yoe div 100);
          mp = (5 * doy + 2) div 153;
          d = doy - (153 * mp + 2) div 5 + 1;
          m = (if mp < 10 then mp + 3 else mp - 9)
      in (yoe + era * 400 + (if m \<le> 2 then 1 else 0), m, d))"

definition days_from_civil :: "int \<Rightarrow> int \<Rightarrow> int \<Rightarrow> int" where
  "days_from_civil y0 m0 d =
     (let y1 = y0 + (m0 - 1) div 12; m = (m0 - 1) mod 12 + 1;
          y = (if m \<le> 2 then y1 - 1 else y1); era = y div 400; yoe = y mod 400;
          doy = (153 * (if m > 2 then m - 3 else m + 9) + 2) div 5;
          doe = yoe * 365 + yoe div 4 - yoe div 100 + doy
      in era * 146097 + doe - 719468 + (d - 1))"

abbreviation nanos_per_day :: int where "nanos_per_day \<equiv> 86400 * nanos_per_second"

text \<open>The zone comes first: \<open>t.Date()\<close>, \<open>t.Hour()\<close> and the others read the shifted time.\<close>

definition local_nanos :: "int \<Rightarrow> int \<Rightarrow> int" where
  "local_nanos zone t = t + zone * nanos_per_second"

definition t_Date :: "int \<Rightarrow> int \<Rightarrow> int \<times> int \<times> int" where
  "t_Date zone t = civil_from_days (local_nanos zone t div nanos_per_day)"

definition t_Year :: "int \<Rightarrow> int \<Rightarrow> int" where "t_Year zone t = fst (t_Date zone t)"
definition t_Month :: "int \<Rightarrow> int \<Rightarrow> int" where "t_Month zone t = fst (snd (t_Date zone t))"
definition t_Day :: "int \<Rightarrow> int \<Rightarrow> int" where "t_Day zone t = snd (snd (t_Date zone t))"

definition t_Weekday :: "int \<Rightarrow> int \<Rightarrow> int" where
  "t_Weekday zone t = (local_nanos zone t div nanos_per_day + 4) mod 7"

definition t_Hour :: "int \<Rightarrow> int \<Rightarrow> int" where
  "t_Hour zone t = local_nanos zone t mod nanos_per_day div (3600 * nanos_per_second)"

definition t_Minute :: "int \<Rightarrow> int \<Rightarrow> int" where
  "t_Minute zone t = local_nanos zone t mod (3600 * nanos_per_second) div (60 * nanos_per_second)"

definition t_Second :: "int \<Rightarrow> int \<Rightarrow> int" where
  "t_Second zone t = local_nanos zone t mod (60 * nanos_per_second) div nanos_per_second"

definition t_Nanosecond :: "int \<Rightarrow> int" where
  "t_Nanosecond t = t mod nanos_per_second"

text \<open>\<open>time.Date\<close> at midnight, \<open>AddDate\<close> (which keeps the time of day) and \<open>Truncate\<close>.\<close>

definition midnight_of :: "int \<Rightarrow> int \<Rightarrow> int \<Rightarrow> int \<Rightarrow> int" where
  "midnight_of zone y m d = days_from_civil y m d * nanos_per_day - zone * nanos_per_second"

definition AddDate :: "int \<Rightarrow> int \<Rightarrow> int \<Rightarrow> int \<Rightarrow> int \<Rightarrow> int" where
  "AddDate zone ys ms ds t =
     (case t_Date zone t of (y, m, d) \<Rightarrow>
        midnight_of zone (y + ys) (m + ms) (d + ds) + local_nanos zone t mod nanos_per_day)"

text \<open>\<open>Truncate\<close> counts from the year 1, which is a whole number of days before 1970.\<close>

definition Truncate :: "int \<Rightarrow> int \<Rightarrow> int" where
  "Truncate d t = t - t mod d"

section \<open>Activation times\<close>

text \<open>Go's zero time sorts last in the runner, so it is the greatest time here.\<close>

datatype gtime = At int | ZeroTime

instantiation gtime :: linorder
begin

fun less_eq_gtime :: "gtime \<Rightarrow> gtime \<Rightarrow> bool" where
  "less_eq_gtime (At a) (At b) = (a \<le> b)"
| "less_eq_gtime t ZeroTime = True"
| "less_eq_gtime ZeroTime (At b) = False"

definition less_gtime :: "gtime \<Rightarrow> gtime \<Rightarrow> bool" where
  "less_gtime s t \<longleftrightarrow> s \<le> t \<and> \<not> t \<le> s"

instance
proof
  fix x y z :: gtime
  show "(x < y) = (x \<le> y \<and> \<not> y \<le> x)" by (simp add: less_gtime_def)
  show "x \<le> x" by (cases x) simp_all
  show "x \<le> y \<Longrightarrow> y \<le> z \<Longrightarrow> x \<le> z" by (cases x; cases y; cases z) simp_all
  show "x \<le> y \<Longrightarrow> y \<le> x \<Longrightarrow> x = y" by (cases x; cases y) simp_all
  show "x \<le> y \<or> y \<le> x" by (cases x; cases y) auto
qed

end

text \<open>\<open>byTime.Less\<close>, and that it is the strict order.\<close>

definition byTime_Less :: "gtime \<Rightarrow> gtime \<Rightarrow> bool" where
  "byTime_Less s t = (if s = ZeroTime then False else if t = ZeroTime then True
     else (case (s, t) of (At a, At b) \<Rightarrow> a < b | _ \<Rightarrow> False))"

lemma byTime_Less_eq: "byTime_Less s t \<longleftrightarrow> s < t"
  by (cases s; cases t) (auto simp: byTime_Less_def less_gtime_def)

definition dayMatches :: "int \<Rightarrow> specSchedule \<Rightarrow> int \<Rightarrow> bool" where
  "dayMatches zone s t =
     (let domMatch = bit (Dom s) (nat (t_Day zone t)); dowMatch = bit (Dow s) (nat (t_Weekday zone t))
      in if (Dom s AND starBit) > 0 \<or> (Dow s AND starBit) > 0
         then domMatch \<and> dowMatch else domMatch \<or> dowMatch)"

text \<open>
  \<open>SpecSchedule.Next\<close>: the loops over month, day, hour, minute and second, with its jumps
  back to the label \<open>WRAP\<close>, as one recursion over the place in the code.
\<close>

datatype stage = Wrap | MonthLoop | DayLoop | HourLoop | MinuteLoop | SecondLoop

definition field_ok :: "int \<Rightarrow> specSchedule \<Rightarrow> stage \<Rightarrow> int \<Rightarrow> bool" where
  "field_ok zone s st t = (case st of Wrap \<Rightarrow> True
     | MonthLoop \<Rightarrow> bit (Month s) (nat (t_Month zone t)) | DayLoop \<Rightarrow> dayMatches zone s t
     | HourLoop \<Rightarrow> bit (Hour s) (nat (t_Hour zone t)) | MinuteLoop \<Rightarrow> bit (Minute s) (nat (t_Minute zone t))
     | SecondLoop \<Rightarrow> bit (Second s) (nat (t_Second zone t)))"

definition reset_to :: "int \<Rightarrow> stage \<Rightarrow> int \<Rightarrow> int" where
  "reset_to zone st t = (case st of Wrap \<Rightarrow> t
     | MonthLoop \<Rightarrow> midnight_of zone (t_Year zone t) (t_Month zone t) 1
     | DayLoop \<Rightarrow> midnight_of zone (t_Year zone t) (t_Month zone t) (t_Day zone t)
     | HourLoop \<Rightarrow> Truncate (3600 * nanos_per_second) t
     | MinuteLoop \<Rightarrow> Truncate (60 * nanos_per_second) t
     | SecondLoop \<Rightarrow> Truncate nanos_per_second t)"

definition advance :: "int \<Rightarrow> stage \<Rightarrow> int \<Rightarrow> int" where
  "advance zone st t = (case st of Wrap \<Rightarrow> t
     | MonthLoop \<Rightarrow> AddDate zone 0 1 0 t
     | DayLoop \<Rightarrow> AddDate zone 0 0 1 t
     | HourLoop \<Rightarrow> t + 3600 * nanos_per_second
     | MinuteLoop \<Rightarrow> t + 60 * nanos_per_second
     | SecondLoop \<Rightarrow> t + nanos_per_second)"

definition wrapped :: "int \<Rightarrow> stage \<Rightarrow> int \<Rightarrow> bool" where
  "wrapped zone st t = (case st of Wrap \<Rightarrow> False
     | MonthLoop \<Rightarrow> t_Month zone t = 1 | DayLoop \<Rightarrow> t_Day zone t = 1
     | HourLoop \<Rightarrow> t_Hour zone t = 0 | MinuteLoop \<Rightarrow> t_Minute zone t = 0
     | SecondLoop \<Rightarrow> t_Second zone t = 0)"

definition next_stage :: "stage \<Rightarrow> stage option" where
  "next_stage st = (case st of Wrap \<Rightarrow> Some MonthLoop | MonthLoop \<Rightarrow> Some DayLoop
     | DayLoop \<Rightarrow> Some HourLoop | HourLoop \<Rightarrow> Some MinuteLoop | MinuteLoop \<Rightarrow> Some SecondLoop
     | SecondLoop \<Rightarrow> None)"

partial_function (option) next_loop ::
    "int \<Rightarrow> specSchedule \<Rightarrow> int \<Rightarrow> stage \<Rightarrow> bool \<Rightarrow> int \<Rightarrow> gtime option" where
  "next_loop zone s yearLimit st added t =
     (if st = Wrap \<and> t_Year zone t > yearLimit then Some ZeroTime
      else if field_ok zone s st t
      then (case next_stage st of None \<Rightarrow> Some (At t)
            | Some st' \<Rightarrow> next_loop zone s yearLimit st' added t)
      else (if wrapped zone st (advance zone st (if added then t else reset_to zone st t))
            then next_loop zone s yearLimit Wrap True (advance zone st (if added then t else reset_to zone st t))
            else next_loop zone s yearLimit st True (advance zone st (if added then t else reset_to zone st t))))"

declare next_loop.simps [code]

definition spec_Next :: "int \<Rightarrow> specSchedule \<Rightarrow> int \<Rightarrow> gtime option" where
  "spec_Next zone s t0 =
     (let t = t0 + (nanos_per_second - t_Nanosecond t0)
      in next_loop zone s (t_Year zone t + 5) Wrap False t)"

text \<open>\<open>Next\<close> of the three schedules: the time, whether to keep the entry, the schedule after it.\<close>

definition schedule_Next :: "int \<Rightarrow> schedule \<Rightarrow> int \<Rightarrow> (gtime \<times> bool \<times> schedule) outcome" where
  "schedule_Next zone sch t = (case sch of
     SpecSchedule s \<Rightarrow> (case spec_Next zone s t of None \<Rightarrow> Hang | Some t' \<Rightarrow> Ret (t', True, sch))
   | ConstantDelaySchedule delay \<Rightarrow> Ret (At (t + (delay - t_Nanosecond t)), True, sch)
   | NowSchedule b \<Rightarrow> Ret (At t, \<not> b, NowSchedule True))"


section \<open>The runner\<close>

text \<open>
  Entries are pointers in Go; each entry sits in one place of the list only, so a change
  through the pointer is a change of the list. \<open>removes\<close> holds the keys marked for removal.
  \<open>now\<close> is the local variable of the scheduler's goroutine.
\<close>

record 'j entry =
  Schedule :: schedule
  Next :: gtime
  Prev :: gtime
  Job :: 'j

record 'j cron =
  entries :: "'j entry list"
  removes :: "string set"
  running :: bool
  now :: int

definition cron_New :: "'j cron" where
  "cron_New = \<lparr>entries = [], removes = {}, running = False, now = 0\<rparr>"

text \<open>\<open>Schedule\<close> on a stopped runner; on a running one the scheduler receives the entry.\<close>

definition new_entry :: "schedule \<Rightarrow> 'j \<Rightarrow> 'j entry" where
  "new_entry sch cmd = \<lparr>Schedule = sch, Next = ZeroTime, Prev = ZeroTime, Job = cmd\<rparr>"

definition set_Next :: "int \<Rightarrow> int \<Rightarrow> 'j entry \<Rightarrow> 'j entry outcome" where
  "set_Next zone t e = obind (schedule_Next zone (Schedule e) t)
     (\<lambda>(n, _, sch). Ret (e\<lparr>Next := n, Schedule := sch\<rparr>))"

text \<open>The case \<open>newEntry := <-c.add\<close>, then \<open>now = time.Now()\<close>.\<close>

definition recv_add :: "int \<Rightarrow> int \<Rightarrow> 'j entry \<Rightarrow> 'j cron \<Rightarrow> 'j cron outcome" where
  "recv_add zone t e c = obind (set_Next zone t e) (\<lambda>e'. Ret (c\<lparr>entries := entries c @ [e'], now := t\<rparr>))"

definition recv_del :: "int \<Rightarrow> string \<Rightarrow> 'j cron \<Rightarrow> 'j cron" where
  "recv_del t key c = c\<lparr>removes := insert key (removes c), now := t\<rparr>"

definition recv_snapshot :: "int \<Rightarrow> 'j cron \<Rightarrow> 'j cron" where
  "recv_snapshot t c = c\<lparr>now := t\<rparr>"

definition entrySnapshot :: "'j cron \<Rightarrow> 'j entry list" where
  "entrySnapshot c = entries c"

text \<open>
  \<open>sort.Sort(byTime(c.entries))\<close> leaves the order of equal times open; the stable sort is one
  of its results. The loop sorts before each select statement, so a running scheduler handles a
  request on the sorted list.
\<close>

definition cron_sort :: "'j cron \<Rightarrow> 'j cron" where
  "cron_sort c = c\<lparr>entries := sort_key Next (entries c)\<rparr>"

definition cron_Schedule :: "int \<Rightarrow> int \<Rightarrow> schedule \<Rightarrow> 'j \<Rightarrow> 'j cron \<Rightarrow> 'j cron outcome" where
  "cron_Schedule zone t sch cmd c =
     (if \<not> running c then Ret (c\<lparr>entries := entries c @ [new_entry sch cmd]\<rparr>)
      else recv_add zone t (new_entry sch cmd) (cron_sort c))"

definition cron_AddJob :: "int \<Rightarrow> int \<Rightarrow> string \<Rightarrow> 'j \<Rightarrow> 'j cron \<Rightarrow> ('j cron \<times> err) outcome" where
  "cron_AddJob zone t spec cmd c =
     obind (cron_Parse spec) (\<lambda>r. case r of
         Inl e \<Rightarrow> Ret (c, Some e)
       | Inr sch \<Rightarrow> obind (cron_Schedule zone t sch cmd c) (\<lambda>c'. Ret (c', None)))"

definition cron_Remove :: "int \<Rightarrow> string \<Rightarrow> 'j cron \<Rightarrow> 'j cron" where
  "cron_Remove t key c =
     (if \<not> running c then c\<lparr>removes := insert key (removes c)\<rparr> else recv_del t key (cron_sort c))"

primrec omap :: "('a \<Rightarrow> 'b outcome) \<Rightarrow> 'a list \<Rightarrow> 'b list outcome" where
  "omap f [] = Ret []"
| "omap f (x # xs) = obind (f x) (\<lambda>y. obind (omap f xs) (\<lambda>ys. Ret (y # ys)))"

text \<open>\<open>Start\<close>, with the loop at the head of \<open>run\<close> that finds the first activation times.\<close>

definition cron_Start :: "int \<Rightarrow> int \<Rightarrow> 'j cron \<Rightarrow> 'j cron outcome" where
  "cron_Start zone t c =
     obind (omap (set_Next zone t) (entries c)) (\<lambda>es. Ret (c\<lparr>entries := es, running := True, now := t\<rparr>))"

definition cron_Stop :: "'j cron \<Rightarrow> 'j cron" where
  "cron_Stop c = (if \<not> running c then c else c\<lparr>running := False\<rparr>)"

text \<open>When the select statement of the loop wakes up.\<close>

definition effective :: "int \<Rightarrow> 'j cron \<Rightarrow> gtime" where
  "effective zone c = (case entries c of
     [] \<Rightarrow> At (AddDate zone 10 0 0 (now c))
   | e # es \<Rightarrow> if Next e = ZeroTime then At (AddDate zone 10 0 0 (now c)) else Next e)"

text \<open>
  The loop of a tick over the entries, as the code runs it: \<open>all\<close> is \<open>c.entries\<close>, \<open>acc\<close> the
  local \<open>entries\<close> with the kept ones before index \<open>i\<close>, \<open>started\<close> the jobs handed to their own
  goroutine. An entry whose key is marked is dropped with its mark; one whose schedule does
  not go on is dropped. \<open>key_of\<close> is empty for a job that is not an \<open>IndexableJob\<close>.
\<close>

record 'j tick_state =
  ts_all :: "'j entry list"
  ts_removes :: "string set"
  ts_acc :: "'j entry list"
  ts_i :: nat
  ts_started :: "'j list"

definition tick_body :: "int \<Rightarrow> ('j \<Rightarrow> string) \<Rightarrow> int \<Rightarrow> nat \<Rightarrow> 'j tick_state \<Rightarrow> 'j tick_state outcome" where
  "tick_body zone key_of eff j s =
     (let e = ts_all s ! j; key = key_of (Job e);
          deleing = (key \<noteq> [] \<and> key \<in> ts_removes s);
          s1 = (if deleing then s else s\<lparr>ts_started := ts_started s @ [Job e]\<rparr>);
          e1 = (if deleing then e else e\<lparr>Prev := Next e\<rparr>)
      in obind (schedule_Next zone (Schedule e) eff) (\<lambda>(n, keepOn, sch).
           let e2 = e1\<lparr>Schedule := sch\<rparr> in
           if \<not> keepOn \<or> deleing
           then Ret (s1\<lparr>ts_all := (ts_all s)[j := e2],
                  ts_acc := (if j > ts_i s then ts_acc s @ drop (ts_i s) (take j (ts_all s)) else ts_acc s),
                  ts_removes := (if deleing then ts_removes s - {key} else ts_removes s),
                  ts_i := j + 1\<rparr>)
           else Ret (s1\<lparr>ts_all := (ts_all s)[j := e2\<lparr>Next := n\<rparr>]\<rparr>)))"

fun tick_loop :: "int \<Rightarrow> ('j \<Rightarrow> string) \<Rightarrow> int \<Rightarrow> nat list \<Rightarrow> 'j tick_state \<Rightarrow> 'j tick_state outcome" where
  "tick_loop zone key_of eff [] s = Ret s"
| "tick_loop zone key_of eff (j # js) s =
     (if Next (ts_all s ! j) \<noteq> At eff then Ret s
      else obind (tick_body zone key_of eff j s) (tick_loop zone key_of eff js))"

definition tick_entries :: "'j tick_state \<Rightarrow> 'j entry list" where
  "tick_entries s = (if ts_i s > 0 then ts_acc s @ drop (ts_i s) (ts_all s) else ts_all s)"

text \<open>The timer fires at \<open>t\<close>: \<open>now\<close> is that time, and the loop continues.\<close>

definition recv_tick ::
    "int \<Rightarrow> ('j \<Rightarrow> string) \<Rightarrow> int \<Rightarrow> 'j cron \<Rightarrow> ('j list \<times> 'j cron) outcome" where
  "recv_tick zone key_of t c = (case effective zone c of
     ZeroTime \<Rightarrow> Ret ([], c\<lparr>now := t\<rparr>)
   | At eff \<Rightarrow> obind (tick_loop zone key_of eff [0..<length (entries c)]
         \<lparr>ts_all = entries c, ts_removes = removes c, ts_acc = [], ts_i = 0, ts_started = []\<rparr>)
       (\<lambda>s. Ret (ts_started s, c\<lparr>entries := tick_entries s, removes := ts_removes s, now := t\<rparr>)))"


section \<open>What a tick does\<close>

text \<open>
  The same tick without indices and slices: entries that are due are started, unless marked,
  and are kept with their next time when neither marked nor over.
\<close>

fun tick_ref :: "int \<Rightarrow> ('j \<Rightarrow> string) \<Rightarrow> int \<Rightarrow> string set \<Rightarrow> 'j entry list \<Rightarrow>
    ('j entry list \<times> string set \<times> 'j list) outcome" where
  "tick_ref zone key_of eff rem [] = Ret ([], rem, [])"
| "tick_ref zone key_of eff rem (e # es) =
     (if Next e \<noteq> At eff then Ret (e # es, rem, [])
      else obind (schedule_Next zone (Schedule e) eff) (\<lambda>(n, keepOn, sch).
        if key_of (Job e) \<noteq> [] \<and> key_of (Job e) \<in> rem
        then tick_ref zone key_of eff (rem - {key_of (Job e)}) es
        else obind (tick_ref zone key_of eff rem es) (\<lambda>(es', rem', st).
          Ret ((if keepOn then [e\<lparr>Prev := Next e, Schedule := sch, Next := n\<rparr>] else []) @ es',
               rem', Job e # st))))"

definition kept :: "nat \<Rightarrow> 'j tick_state \<Rightarrow> 'j entry list" where
  "kept j s = ts_acc s @ drop (ts_i s) (take j (ts_all s))"

definition tick_result :: "'j tick_state \<Rightarrow> 'j entry list \<times> string set \<times> 'j list" where
  "tick_result s = (ts_acc s @ drop (ts_i s) (ts_all s), ts_removes s, ts_started s)"

lemma tick_body_marked:
  assumes "schedule_Next zone (Schedule (ts_all s ! j)) eff = Ret (n, k, sch)"
    "key_of (Job (ts_all s ! j)) \<noteq> []" "key_of (Job (ts_all s ! j)) \<in> ts_removes s"
    "j < length (ts_all s)" "ts_i s \<le> j"
  shows "\<exists>s' e. tick_body zone key_of eff j s = Ret s' \<and> ts_all s' = (ts_all s)[j := e] \<and>
    ts_i s' \<le> Suc j \<and> ts_removes s' = ts_removes s - {key_of (Job (ts_all s ! j))} \<and>
    ts_started s' = ts_started s \<and> kept (Suc j) s' = kept j s"
  unfolding tick_body_def Let_def assms(1) using assms(2-5) by (simp add: kept_def) blast

lemma tick_body_over:
  assumes "schedule_Next zone (Schedule (ts_all s ! j)) eff = Ret (n, False, sch)"
    "\<not> (key_of (Job (ts_all s ! j)) \<noteq> [] \<and> key_of (Job (ts_all s ! j)) \<in> ts_removes s)"
    "j < length (ts_all s)" "ts_i s \<le> j"
  shows "\<exists>s' e. tick_body zone key_of eff j s = Ret s' \<and> ts_all s' = (ts_all s)[j := e] \<and>
    ts_i s' \<le> Suc j \<and> ts_removes s' = ts_removes s \<and>
    ts_started s' = ts_started s @ [Job (ts_all s ! j)] \<and> kept (Suc j) s' = kept j s"
  unfolding tick_body_def Let_def assms(1) if_not_P [OF assms(2)] using assms(3,4)
  by (simp add: kept_def assms(2)) blast

lemma tick_body_keep:
  assumes "schedule_Next zone (Schedule (ts_all s ! j)) eff = Ret (n, True, sch)"
    "\<not> (key_of (Job (ts_all s ! j)) \<noteq> [] \<and> key_of (Job (ts_all s ! j)) \<in> ts_removes s)"
    "j < length (ts_all s)" "ts_i s \<le> j"
  shows "\<exists>s' e. tick_body zone key_of eff j s = Ret s' \<and> ts_all s' = (ts_all s)[j := e] \<and>
    ts_i s' \<le> Suc j \<and> ts_removes s' = ts_removes s \<and>
    ts_started s' = ts_started s @ [Job (ts_all s ! j)] \<and>
    kept (Suc j) s' = kept j s @
      [(ts_all s ! j)\<lparr>Prev := Next (ts_all s ! j), Schedule := sch, Next := n\<rparr>]"
  unfolding tick_body_def Let_def assms(1) if_not_P [OF assms(2)] using assms(3,4)
  by (simp add: kept_def assms(2) take_Suc_conv_app_nth) blast

lemma kept_rest:
  assumes "ts_i s \<le> j" "j \<le> length (ts_all s)"
  shows "ts_acc s @ drop (ts_i s) (ts_all s) = kept j s @ drop j (ts_all s)"
proof -
  have "drop (ts_i s) (take j (ts_all s) @ drop j (ts_all s))
      = drop (ts_i s) (take j (ts_all s)) @ drop j (ts_all s)"
    using assms by (simp del: append_take_drop_id add: min_absorb2)
  then show ?thesis using append_take_drop_id [of j "ts_all s"] by (simp add: kept_def)
qed

lemma tick_loop_ref:
  assumes "j \<le> length (ts_all s)" "ts_i s \<le> j"
  shows "obind (tick_loop zone key_of eff [j..<length (ts_all s)] s) (\<lambda>s'. Ret (tick_result s')) =
    obind (tick_ref zone key_of eff (ts_removes s) (drop j (ts_all s)))
      (\<lambda>(es, rem, st). Ret (kept j s @ es, rem, ts_started s @ st))"
  using assms
proof (induction "length (ts_all s) - j" arbitrary: j s)
  case 0
  then show ?case by (simp add: tick_result_def kept_def)
next
  case (Suc m)
  then have j: "j < length (ts_all s)" by simp
  let ?e = "ts_all s ! j"
  have upt: "[j..<length (ts_all s)] = j # [Suc j..<length (ts_all s)]" using j by (rule upt_conv_Cons)
  have drop: "drop j (ts_all s) = ?e # drop (Suc j) (ts_all s)" using j by (simp add: Cons_nth_drop_Suc)
  show ?case
  proof (cases "Next ?e = At eff")
    case False
    with upt drop kept_rest [OF Suc.prems(2,1)] show ?thesis by (simp add: tick_result_def)
  next
    case due: True
    have step: "obind (tick_loop zone key_of eff [Suc j..<length (ts_all s)] s') (\<lambda>s'. Ret (tick_result s')) =
        obind (tick_ref zone key_of eff (ts_removes s') (drop (Suc j) (ts_all s)))
          (\<lambda>(es, rem, st). Ret (kept (Suc j) s' @ es, rem, ts_started s' @ st))"
      if "\<exists>e. ts_all s' = (ts_all s)[j := e]" "ts_i s' \<le> Suc j" for s'
      using Suc.hyps(1) [of s' "Suc j"] Suc.hyps(2) that j by (auto simp: Suc_leI)
    show ?thesis
    proof (cases "schedule_Next zone (Schedule ?e) eff")
      case (Ret r)
      obtain n k sch where r: "r = (n, k, sch)" by (cases r)
      let ?del = "key_of (Job ?e) \<noteq> [] \<and> key_of (Job ?e) \<in> ts_removes s"
      have "\<exists>s' e. tick_body zone key_of eff j s = Ret s' \<and> ts_all s' = (ts_all s)[j := e] \<and>
          ts_i s' \<le> Suc j \<and>
          ts_removes s' = (if ?del then ts_removes s - {key_of (Job ?e)} else ts_removes s) \<and>
          ts_started s' = (if ?del then ts_started s else ts_started s @ [Job ?e]) \<and>
          kept (Suc j) s' = kept j s @ (if ?del \<or> \<not> k then []
             else [?e\<lparr>Prev := Next ?e, Schedule := sch, Next := n\<rparr>])"
        using tick_body_marked [OF Ret [unfolded r], of key_of] Ret r j Suc.prems(2)
          tick_body_over [of zone s j eff n sch key_of] tick_body_keep [of zone s j eff n sch key_of]
        by (cases ?del; cases k) auto
      then obtain s' where s': "tick_body zone key_of eff j s = Ret s'"
        and all: "\<exists>e. ts_all s' = (ts_all s)[j := e]" "ts_i s' \<le> Suc j"
        and upd: "ts_removes s' = (if ?del then ts_removes s - {key_of (Job ?e)} else ts_removes s)"
          "ts_started s' = (if ?del then ts_started s else ts_started s @ [Job ?e])"
          "kept (Suc j) s' = kept j s @ (if ?del \<or> \<not> k then []
             else [?e\<lparr>Prev := Next ?e, Schedule := sch, Next := n\<rparr>])"
        by blast
      have "obind (tick_loop zone key_of eff [j..<length (ts_all s)] s) (\<lambda>s'. Ret (tick_result s'))
          = obind (tick_loop zone key_of eff [Suc j..<length (ts_all s)] s') (\<lambda>s'. Ret (tick_result s'))"
        using due s' by (simp add: upt)
      also note step [OF all]
      also have "obind (tick_ref zone key_of eff (ts_removes s') (drop (Suc j) (ts_all s)))
            (\<lambda>(es, rem, st). Ret (kept (Suc j) s' @ es, rem, ts_started s' @ st))
          = obind (tick_ref zone key_of eff (ts_removes s) (drop j (ts_all s)))
            (\<lambda>(es, rem, st). Ret (kept j s @ es, rem, ts_started s @ st))"
        unfolding drop upd using due Ret r
        by (cases ?del) (auto simp: case_prod_unfold)
      finally show ?thesis .
    qed (use due upt drop in \<open>simp_all add: tick_body_def Let_def\<close>)
  qed
qed

text \<open>So the slice copying of a tick keeps exactly the entries it should.\<close>

lemma recv_tick_ref:
  assumes "effective zone c = At eff"
  shows "recv_tick zone key_of t c = obind (tick_ref zone key_of eff (removes c) (entries c))
    (\<lambda>(es, rem, st). Ret (st, c\<lparr>entries := es, removes := rem, now := t\<rparr>))"
proof -
  let ?s = "\<lparr>ts_all = entries c, ts_removes = removes c, ts_acc = [], ts_i = 0, ts_started = []\<rparr>"
  have acc: "tick_loop zone key_of eff js s = Ret s' \<Longrightarrow> (ts_i s = 0 \<longrightarrow> ts_acc s = []) \<Longrightarrow>
      ts_i s' = 0 \<longrightarrow> ts_acc s' = []" for js s s'
  proof (induction js arbitrary: s)
    case (Cons j js)
    from Cons show ?case
      by (cases "Next (ts_all s ! j) = At eff") (fastforce simp: tick_body_def Let_def split: if_splits)+
  qed simp
  have "tick_entries s' = ts_acc s' @ drop (ts_i s') (ts_all s')"
    if "tick_loop zone key_of eff [0..<length (entries c)] ?s = Ret s'" for s'
    using acc [OF that] by (simp add: tick_entries_def)
  with tick_loop_ref [of 0 ?s zone key_of eff] assms show ?thesis
    by (cases "tick_loop zone key_of eff [0..<length (entries c)] ?s";
        cases "tick_ref zone key_of eff (removes c) (entries c)")
       (auto simp: recv_tick_def tick_result_def kept_def case_prod_unfold)
qed


section \<open>The scheduler as a step relation\<close>

text \<open>
  One turn of the scheduler's loop: sort (any result of the sort), then one case of the select
  statement. The label tells what the turn did.
\<close>

datatype 'j cron_event = Fired "'j list" | Added 'j | Removed string | Snapshotted

definition sorted_by_time :: "'j cron \<Rightarrow> 'j entry list \<Rightarrow> bool" where
  "sorted_by_time c es \<longleftrightarrow> mset es = mset (entries c) \<and> sorted (map Next es)"

inductive cron_turn :: "int \<Rightarrow> ('j \<Rightarrow> string) \<Rightarrow> 'j cron \<Rightarrow> 'j cron_event \<Rightarrow> 'j cron \<Rightarrow> bool"
  for zone :: int and key_of :: "'j \<Rightarrow> string" where
  turn_tick: "sorted_by_time c es \<Longrightarrow>
     recv_tick zone key_of t (c\<lparr>entries := es\<rparr>) = Ret (st, c') \<Longrightarrow>
     cron_turn zone key_of c (Fired st) c'"
| turn_add: "sorted_by_time c es \<Longrightarrow>
     recv_add zone t (new_entry sch j) (c\<lparr>entries := es\<rparr>) = Ret c' \<Longrightarrow>
     cron_turn zone key_of c (Added j) c'"
| turn_del: "sorted_by_time c es \<Longrightarrow>
     cron_turn zone key_of c (Removed key) (recv_del t key (c\<lparr>entries := es\<rparr>))"
| turn_snapshot: "sorted_by_time c es \<Longrightarrow>
     cron_turn zone key_of c Snapshotted (recv_snapshot t (c\<lparr>entries := es\<rparr>))"

inductive_cases cron_turn_FiredE: "cron_turn zone key_of c (Fired st) c'"
inductive_cases cron_turn_AddedE: "cron_turn zone key_of c (Added j) c'"
inductive_cases cron_turn_RemovedE: "cron_turn zone key_of c (Removed k) c'"
inductive_cases cron_turn_SnapshottedE: "cron_turn zone key_of c Snapshotted c'"

inductive cron_turns :: "int \<Rightarrow> ('j \<Rightarrow> string) \<Rightarrow> 'j cron \<Rightarrow> 'j cron_event list \<Rightarrow> 'j cron \<Rightarrow> bool"
  for zone :: int and key_of :: "'j \<Rightarrow> string" where
  turns_none: "cron_turns zone key_of c [] c"
| turns_more: "cron_turn zone key_of c ev c' \<Longrightarrow> cron_turns zone key_of c' evs c'' \<Longrightarrow>
     cron_turns zone key_of c (ev # evs) c''"

text \<open>The executable sort is one the code may make.\<close>

lemma cron_sort_sorted: "sorted_by_time c (entries (cron_sort c))"
  by (simp add: sorted_by_time_def cron_sort_def)

text \<open>The requests to a running scheduler are its turns.\<close>

lemma cron_Schedule_turn:
  "running c \<Longrightarrow> cron_Schedule zone t sch cmd c = Ret c' \<Longrightarrow> cron_turn zone key_of c (Added cmd) c'"
  using cron_turn.turn_add [OF cron_sort_sorted, of zone t sch cmd c c' key_of]
  by (simp add: cron_Schedule_def cron_sort_def)

lemma cron_Remove_turn: "running c \<Longrightarrow> cron_turn zone key_of c (Removed key) (cron_Remove t key c)"
  using cron_turn.turn_del [OF cron_sort_sorted, of zone key_of c key t]
  by (simp add: cron_Remove_def cron_sort_def)

text \<open>
  How many entries carry a key. A key that is marked and carried once, or carried by no entry,
  is gone: it stays so, and no job of that key is started.
\<close>

definition key_count :: "('j \<Rightarrow> string) \<Rightarrow> string \<Rightarrow> 'j entry list \<Rightarrow> nat" where
  "key_count key_of k es = length (filter (\<lambda>e. key_of (Job e) = k) es)"

definition key_gone :: "('j \<Rightarrow> string) \<Rightarrow> string \<Rightarrow> string set \<Rightarrow> 'j entry list \<Rightarrow> bool" where
  "key_gone key_of k rem es \<longleftrightarrow>
     key_count key_of k es = 0 \<or> (k \<in> rem \<and> key_count key_of k es = 1)"

lemma key_count_simps [simp]:
  "key_count key_of k [] = 0"
  "key_count key_of k (e # es) = (if key_of (Job e) = k then 1 else 0) + key_count key_of k es"
  by (simp_all add: key_count_def)

lemma key_count_append [simp]:
  "key_count key_of k (xs @ ys) = key_count key_of k xs + key_count key_of k ys"
  by (simp add: key_count_def)

lemma key_count_mset: "mset es = mset es' \<Longrightarrow> key_count key_of k es = key_count key_of k es'"
  by (metis key_count_def mset_filter size_mset)

lemma tick_ref_gone:
  assumes "k \<noteq> []" "key_gone key_of k rem es"
    "tick_ref zone key_of eff rem es = Ret (es', rem', st)"
  shows "key_gone key_of k rem' es' \<and> (\<forall>j \<in> set st. key_of j \<noteq> k)"
  using assms(2,3)
proof (induction es arbitrary: rem es' rem' st)
  case (Cons e es)
  show ?case
  proof (cases "Next e = At eff")
    case False
    with Cons.prems show ?thesis by auto
  next
    case due: True
    from Cons.prems(2) due obtain n keep sch where
      nxt: "schedule_Next zone (Schedule e) eff = Ret (n, keep, sch)" by auto
    show ?thesis
    proof (cases "key_of (Job e) \<noteq> [] \<and> key_of (Job e) \<in> rem")
      case True
      with Cons.prems due nxt have r: "tick_ref zone key_of eff (rem - {key_of (Job e)}) es = Ret (es', rem', st)"
        by simp
      have "key_gone key_of k (rem - {key_of (Job e)}) es"
        using Cons.prems(1) by (auto simp: key_gone_def split: if_splits)
      from Cons.IH [OF this r] show ?thesis .
    next
      case False
      with Cons.prems(2) due nxt obtain es1 st1 where
        r: "tick_ref zone key_of eff rem es = Ret (es1, rem', st1)" "st = Job e # st1"
           "es' = (if keep then [e\<lparr>Prev := Next e, Schedule := sch, Next := n\<rparr>] else []) @ es1"
        by (auto simp: case_prod_unfold)
      have "key_of (Job e) \<noteq> k" "key_gone key_of k rem es"
        using Cons.prems(1) False assms(1) by (auto simp: key_gone_def split: if_splits)
      with Cons.IH [OF _ r(1)] r(2,3) show ?thesis by (auto simp: key_gone_def)
    qed
  qed
qed simp

lemma set_Next_Job: "set_Next zone t e = Ret e' \<Longrightarrow> Job e' = Job e"
  by (auto simp: set_Next_def)

text \<open>What a turn keeps: a key that is gone stays gone, and its jobs do not start.\<close>

definition quiet :: "('j \<Rightarrow> string) \<Rightarrow> string \<Rightarrow> 'j cron_event \<Rightarrow> bool" where
  "quiet key_of k ev = (case ev of Fired st \<Rightarrow> \<forall>j \<in> set st. key_of j \<noteq> k | _ \<Rightarrow> True)"

definition adds_key :: "('j \<Rightarrow> string) \<Rightarrow> string \<Rightarrow> 'j cron_event \<Rightarrow> bool" where
  "adds_key key_of k ev = (case ev of Added j \<Rightarrow> key_of j = k | _ \<Rightarrow> False)"

lemma cron_turn_gone:
  assumes turn: "cron_turn zone key_of c ev c'" and "k \<noteq> []" "\<not> adds_key key_of k ev"
    and gone: "key_gone key_of k (removes c) (entries c)"
  shows "key_gone key_of k (removes c') (entries c') \<and> quiet key_of k ev"
proof -
  have sorted: "key_gone key_of k (removes c) es" if "sorted_by_time c es" for es
    using gone that key_count_mset [of es "entries c" key_of k]
    by (simp add: key_gone_def sorted_by_time_def)
  from turn show ?thesis
  proof cases
    case (turn_tick es t st)
    show ?thesis
    proof (cases "effective zone (c\<lparr>entries := es\<rparr>)")
      case ZeroTime
      with turn_tick sorted show ?thesis by (auto simp: recv_tick_def quiet_def)
    next
      case (At eff)
      with turn_tick(3) obtain es' rem' where
        r: "tick_ref zone key_of eff (removes c) es = Ret (es', rem', st)"
        "c' = c\<lparr>entries := es', removes := rem', now := t\<rparr>"
        by (auto simp: recv_tick_ref case_prod_unfold)
      from tick_ref_gone [OF assms(2) sorted [OF turn_tick(2)] r(1)] r(2) turn_tick(1)
      show ?thesis by (simp add: quiet_def)
    qed
  next
    case (turn_add es t sch j)
    then obtain e' where e': "set_Next zone t (new_entry sch j) = Ret e'" "c' = c\<lparr>entries := es @ [e'], now := t\<rparr>"
      by (auto simp: recv_add_def)
    have "key_of (Job e') \<noteq> k"
      using set_Next_Job [OF e'(1)] assms(3) turn_add(1) by (simp add: new_entry_def adds_key_def)
    with sorted [OF turn_add(2)] e'(2) turn_add(1) show ?thesis by (simp add: key_gone_def quiet_def)
  next
    case (turn_del es key t)
    with sorted [OF turn_del(3)] show ?thesis by (auto simp: recv_del_def quiet_def key_gone_def)
  next
    case (turn_snapshot es t)
    with sorted [OF turn_snapshot(3)] show ?thesis by (simp add: recv_snapshot_def quiet_def)
  qed
qed

theorem removed_job_never_runs:
  assumes "cron_turns zone key_of c evs c'" "k \<noteq> []" "list_all (\<lambda>ev. \<not> adds_key key_of k ev) evs"
    "key_gone key_of k (removes c) (entries c)"
  shows "list_all (quiet key_of k) evs \<and> key_gone key_of k (removes c') (entries c')"
  using assms
proof (induction rule: cron_turns.induct)
  case (turns_more c ev c' evs c'')
  then show ?case using cron_turn_gone [of zone key_of c ev c' k] by simp
qed simp

end
