(* ===== verification/Uuids.thy ===== *)
theory Uuids
  imports GoStrings "HOL-Library.Word"
begin

unbundle bit_operations_syntax

text \<open>
  Identifiers: version 4 UUIDs (\<open>pz-gocommon/gocommon/Uuid.go\<close>). The random reader is a
  stream of bytes; a call consumes 16 of them.
\<close>

type_synonym byte = "8 word"
type_synonym uuid = "byte list"

section \<open>Generation\<close>

text \<open>\<open>NewUuid\<close> on the 16 random bytes it read.\<close>

definition NewUuid :: "byte list \<Rightarrow> uuid" where
  "NewUuid random =
     (let uuid = random[6 := ((random ! 6) AND 0x0f) OR 0x40]
      in uuid[8 := ((uuid ! 8) AND 0x3f) OR 0x80])"

text \<open>\<open>encoding/hex\<close>: two lower case digits per byte.\<close>

definition hex_digit :: "nat \<Rightarrow> char" where
  "hex_digit n = (if n < 10 then char_of (48 + n) else char_of (87 + n))"

definition hex_byte :: "byte \<Rightarrow> string" where
  "hex_byte b = [hex_digit (unat b div 16), hex_digit (unat b mod 16)]"

definition hex_Encode :: "byte list \<Rightarrow> string" where
  "hex_Encode bs = concat (map hex_byte bs)"

text \<open>\<open>encodeHex\<close> fills the five groups of the buffer.\<close>

definition encodeHex :: "uuid \<Rightarrow> string" where
  "encodeHex uuid =
     hex_Encode (take 4 uuid) @ ''-'' @
     hex_Encode (take 2 (drop 4 uuid)) @ ''-'' @
     hex_Encode (take 2 (drop 6 uuid)) @ ''-'' @
     hex_Encode (take 2 (drop 8 uuid)) @ ''-'' @
     hex_Encode (drop 10 uuid)"

definition uuid_String :: "uuid \<Rightarrow> string outcome" where
  "uuid_String uuid =
     (if length uuid \<noteq> 16 then Panic ''invalid uuid length'' else Ret (encodeHex uuid))"

definition ValidUuid :: "string \<Rightarrow> bool" where
  "ValidUuid uuid \<longleftrightarrow>
     \<not> (length uuid \<noteq> 36 \<or> uuid ! 8 \<noteq> CHR ''-'' \<or> uuid ! 13 \<noteq> CHR ''-'' \<or>
        uuid ! 18 \<noteq> CHR ''-'' \<or> uuid ! 23 \<noteq> CHR ''-'')"

text \<open>The text of a fresh identifier, from the random stream at a position.\<close>

definition random_bytes :: "(nat \<Rightarrow> byte) \<Rightarrow> nat \<Rightarrow> byte list" where
  "random_bytes rander pos = map (\<lambda>i. rander (pos + i)) [0..<16]"

definition fresh_ident :: "(nat \<Rightarrow> byte) \<Rightarrow> nat \<Rightarrow> string outcome" where
  "fresh_ident rander pos = uuid_String (NewUuid (random_bytes rander pos))"

section \<open>Shape\<close>

lemma length_hex_Encode [simp]: "length (hex_Encode bs) = 2 * length bs"
  by (induction bs) (auto simp: hex_Encode_def hex_byte_def)

lemma length_NewUuid [simp]: "length (NewUuid bs) = length bs"
  by (simp add: NewUuid_def)

lemma length_random_bytes [simp]: "length (random_bytes r p) = 16"
  by (simp add: random_bytes_def)

lemma length_encodeHex: "length uuid = 16 \<Longrightarrow> length (encodeHex uuid) = 36"
  by (simp add: encodeHex_def)

lemma encodeHex_nth:
  assumes "length uuid = 16"
  shows "encodeHex uuid ! 8 = CHR ''-''" "encodeHex uuid ! 13 = CHR ''-''"
    "encodeHex uuid ! 18 = CHR ''-''" "encodeHex uuid ! 23 = CHR ''-''"
  using assms by (auto simp: encodeHex_def nth_append)

lemma encodeHex_valid: "length uuid = 16 \<Longrightarrow> ValidUuid (encodeHex uuid)"
  by (simp add: ValidUuid_def length_encodeHex encodeHex_nth)

lemma fresh_ident_Ret: "fresh_ident r p = Ret (encodeHex (NewUuid (random_bytes r p)))"
  by (simp add: fresh_ident_def uuid_String_def)

lemma fresh_ident_valid: "fresh_ident r p = Ret s \<Longrightarrow> ValidUuid s"
  by (auto simp: fresh_ident_Ret encodeHex_valid)

lemma ValidUuid_not_Nil: "ValidUuid s \<Longrightarrow> s \<noteq> []"
  by (auto simp: ValidUuid_def)

section \<open>The version and variant bits\<close>

lemma less_8_cases: "(n::nat) < 8 \<Longrightarrow> n \<in> {0, 1, 2, 3, 4, 5, 6, 7}"
  by auto

lemma version_bits: "((x AND 0x0f) OR 0x40) AND 0xf0 = (0x40 :: byte)"
proof (rule bit_word_eqI)
  fix n assume "n < LENGTH(8)"
  then have "n \<in> {0, 1, 2, 3, 4, 5, 6, 7}" by (intro less_8_cases) simp
  then show "bit (((x AND 0x0f) OR 0x40) AND 0xf0) n \<longleftrightarrow> bit (0x40 :: byte) n"
    by (auto simp: bit_and_iff bit_or_iff)
qed

lemma variant_bits: "((x AND 0x3f) OR 0x80) AND 0xc0 = (0x80 :: byte)"
proof (rule bit_word_eqI)
  fix n assume "n < LENGTH(8)"
  then have "n \<in> {0, 1, 2, 3, 4, 5, 6, 7}" by (intro less_8_cases) simp
  then show "bit (((x AND 0x3f) OR 0x80) AND 0xc0) n \<longleftrightarrow> bit (0x80 :: byte) n"
    by (auto simp: bit_and_iff bit_or_iff)
qed

lemma NewUuid_version: "length bs = 16 \<Longrightarrow> (NewUuid bs ! 6) AND 0xf0 = 0x40"
  by (simp add: NewUuid_def version_bits)

lemma NewUuid_variant: "length bs = 16 \<Longrightarrow> (NewUuid bs ! 8) AND 0xc0 = 0x80"
  by (simp add: NewUuid_def variant_bits)

section \<open>The text determines the bytes\<close>

lemma hex_digit_inj: "a < 16 \<Longrightarrow> b < 16 \<Longrightarrow> hex_digit a = hex_digit b \<Longrightarrow> a = b"
  by (auto simp: hex_digit_def of_char_eq_iff [symmetric] split: if_splits)

lemma hex_byte_inj: "hex_byte a = hex_byte b \<longleftrightarrow> a = b"
proof
  assume eq: "hex_byte a = hex_byte b"
  have lt: "unat a < 256" "unat b < 256" using unsigned_less [of a, where ?'a = nat] unsigned_less [of b, where ?'a = nat] by simp_all
  then have "unat a div 16 < 16" "unat b div 16 < 16" by simp_all
  with eq have "unat a div 16 = unat b div 16" "unat a mod 16 = unat b mod 16"
    by (auto simp: hex_byte_def intro: hex_digit_inj)
  then have "unat a = unat b" by (metis div_mult_mod_eq)
  then show "a = b" by (simp add: word_unat_eq_iff)
qed simp

lemma hex_Encode_inj: "length as = length bs \<Longrightarrow> hex_Encode as = hex_Encode bs \<longleftrightarrow> as = bs"
proof (induction as bs rule: list_induct2)
  case (Cons a as b bs)
  have "hex_Encode (a # as) = hex_byte a @ hex_Encode as" "hex_Encode (b # bs) = hex_byte b @ hex_Encode bs"
    by (simp_all add: hex_Encode_def)
  moreover have "length (hex_byte a) = length (hex_byte b)" by (simp add: hex_byte_def)
  ultimately show ?case using Cons.IH hex_byte_inj [of a b] by auto
qed simp

lemma encodeHex_inj:
  assumes "length u = 16" "length v = 16" and eq: "encodeHex u = encodeHex v"
  shows "u = v"
proof -
  have groups: "take 4 u = take 4 v" "take 2 (drop 4 u) = take 2 (drop 4 v)"
    "take 2 (drop 6 u) = take 2 (drop 6 v)" "take 2 (drop 8 u) = take 2 (drop 8 v)"
    "drop 10 u = drop 10 v"
    using eq assms(1,2) by (simp_all add: encodeHex_def hex_Encode_inj)
  have split: "w = take 4 w @ take 2 (drop 4 w) @ take 2 (drop 6 w) @ take 2 (drop 8 w) @ drop 10 w"
    for w :: uuid
    using append_take_drop_id [of 4 w] append_take_drop_id [of 2 "drop 4 w"]
      append_take_drop_id [of 2 "drop 6 w"] append_take_drop_id [of 2 "drop 8 w"] by simp
  show ?thesis using split [of u] split [of v] groups by simp
qed

end
