(* ===== verification/Worlds.thy ===== *)
theory Worlds
  imports Responses MockIndexes CronRun Uuids
begin

text \<open>
  The state of a running service (\<open>workflow/Service.go\<close>, type \<open>Service\<close>) and what surrounds
  it: the document index, the random source, the clock, the environment variable \<open>DOMAIN\<close>,
  HTTP, the message queue and the system configuration are parameters, gathered in one record;
  the audit log and the messages sent are part of the state.
\<close>

section \<open>Jobs of the cron runner\<close>

record cronEvent =
  ce_Event :: event
  ce_eventTypeName :: string

definition cronEvent_Key :: "cronEvent \<Rightarrow> string" where
  "cronEvent_Key c = ev_EventID (ce_Event c)"

section \<open>Environment\<close>

text \<open>
  \<open>env_idx\<close> holds the methods of the index implementation. \<open>env_rand\<close> and \<open>env_clock\<close> are the
  successive random bytes and readings of the clock (nanoseconds since 1970). A fallible
  outside call is a sum or an optional error.
\<close>

record 'x env =
  env_idx :: "'x iIndex"
  env_rand :: "nat \<Rightarrow> byte"
  env_clock :: "nat \<Rightarrow> int"
  env_zone :: int
  env_DOMAIN :: string
  env_PiazzaSystem :: string
  env_Name :: string
  env_Space :: string
  env_GetAddress :: "string + string"
  env_GetURL :: "string + string"
  env_http_get :: "string \<Rightarrow> string + int"
  env_http_post :: "string \<Rightarrow> string \<Rightarrow> string + (int \<times> string)"
  env_amqp_dial :: "string \<Rightarrow> err"
  env_amqp_channel :: "string \<Rightarrow> err"
  env_amqp_queue :: "string \<Rightarrow> string + string"
  env_amqp_publish :: "string \<Rightarrow> string \<Rightarrow> string \<Rightarrow> err"

record auditEntry =
  au_actor :: string
  au_action :: string
  au_actee :: string

record mqMessage =
  mq_exchange :: string
  mq_key :: string
  mq_body :: string

section \<open>Service state\<close>

text \<open>
  The six databases share their index type; \<open>w_crashed\<close> records a panic that no deferred
  function recovers, which ends the process.
\<close>

record 'x world =
  w_eventTypes :: 'x
  w_events :: 'x
  w_triggers :: 'x
  w_alerts :: 'x
  w_crons :: 'x
  w_tests :: 'x
  w_stats :: stats
  w_cron :: "cronEvent cron"
  w_rand :: nat
  w_time :: nat
  w_audit :: "auditEntry list"
  w_mq :: "mqMessage list"
  w_crashed :: err

text \<open>Operations on one index.\<close>

definition on_eventTypes :: "('x, 'a) go \<Rightarrow> ('x world, 'a) go" where
  "on_eventTypes = zoom w_eventTypes (\<lambda>s. w_eventTypes_update (\<lambda>_. s))"

definition on_events :: "('x, 'a) go \<Rightarrow> ('x world, 'a) go" where
  "on_events = zoom w_events (\<lambda>s. w_events_update (\<lambda>_. s))"

definition on_triggers :: "('x, 'a) go \<Rightarrow> ('x world, 'a) go" where
  "on_triggers = zoom w_triggers (\<lambda>s. w_triggers_update (\<lambda>_. s))"

definition on_alerts :: "('x, 'a) go \<Rightarrow> ('x world, 'a) go" where
  "on_alerts = zoom w_alerts (\<lambda>s. w_alerts_update (\<lambda>_. s))"

definition on_crons :: "('x, 'a) go \<Rightarrow> ('x world, 'a) go" where
  "on_crons = zoom w_crons (\<lambda>s. w_crons_update (\<lambda>_. s))"

definition on_tests :: "('x, 'a) go \<Rightarrow> ('x world, 'a) go" where
  "on_tests = zoom w_tests (\<lambda>s. w_tests_update (\<lambda>_. s))"

lemmas on_defs = on_eventTypes_def on_events_def on_triggers_def on_alerts_def on_crons_def on_tests_def

lemma on_apps [go_simps]:
  "m (w_eventTypes w) = (r, s) \<Longrightarrow> on_eventTypes m w = (r, w\<lparr>w_eventTypes := s\<rparr>)"
  "m (w_events w) = (r, s) \<Longrightarrow> on_events m w = (r, w\<lparr>w_events := s\<rparr>)"
  "m (w_triggers w) = (r, s) \<Longrightarrow> on_triggers m w = (r, w\<lparr>w_triggers := s\<rparr>)"
  "m (w_alerts w) = (r, s) \<Longrightarrow> on_alerts m w = (r, w\<lparr>w_alerts := s\<rparr>)"
  "m (w_crons w) = (r, s) \<Longrightarrow> on_crons m w = (r, w\<lparr>w_crons := s\<rparr>)"
  "m (w_tests w) = (r, s) \<Longrightarrow> on_tests m w = (r, w\<lparr>w_tests := s\<rparr>)"
  by (simp_all add: on_defs zoom_def)

section \<open>Time stamps and identifiers\<close>

definition pad :: "nat \<Rightarrow> string \<Rightarrow> string" where
  "pad n s = replicate (n - length s) CHR ''0'' @ s"

text \<open>The RFC 3339 text of a time in UTC, with the milliseconds that are not zero.\<close>

definition fraction_text :: "int \<Rightarrow> string" where
  "fraction_text ms =
     (if ms = 0 then []
      else CHR ''.'' # rev (dropWhile (\<lambda>c. c = CHR ''0'') (rev (pad 3 (itoa ms)))))"

definition time_text :: "int \<Rightarrow> timeStamp" where
  "time_text t = (case t_Date 0 t of (y, m, d) \<Rightarrow>
     pad 4 (itoa y) @ ''-'' @ pad 2 (itoa m) @ ''-'' @ pad 2 (itoa d) @ ''T'' @
     pad 2 (itoa (t_Hour 0 t)) @ '':'' @ pad 2 (itoa (t_Minute 0 t)) @ '':'' @
     pad 2 (itoa (t_Second 0 t)) @ fraction_text (t_Nanosecond t div 1000000) @ ''Z'')"

definition time_Now :: "'x env \<Rightarrow> ('x world, int) go" where
  "time_Now E = (\<lambda>w. (Ret (env_clock E (w_time w)), w\<lparr>w_time := Suc (w_time w)\<rparr>))"

definition round_milli :: "int \<Rightarrow> int" where
  "round_milli t = (t + 500000) div 1000000 * 1000000"

definition NewTimeStamp :: "'x env \<Rightarrow> ('x world, timeStamp) go" where
  "NewTimeStamp E = bnd (time_Now E) (\<lambda>t. ret (time_text (round_milli t)))"

definition newIdent :: "'x env \<Rightarrow> ('x world, ident) go" where
  "newIdent E = (\<lambda>w. (fresh_ident (env_rand E) (w_rand w), w\<lparr>w_rand := w_rand w + 16\<rparr>))"

text \<open>The text of the identifier the service makes next, and its next time stamp.\<close>

definition next_ident :: "'x env \<Rightarrow> 'x world \<Rightarrow> ident" where
  "next_ident E w = encodeHex (NewUuid (random_bytes (env_rand E) (w_rand w)))"

definition next_time :: "'x env \<Rightarrow> 'x world \<Rightarrow> timeStamp" where
  "next_time E w = time_text (round_milli (env_clock E (w_time w)))"

lemma newIdent_app [go_simps]: "newIdent E w = (Ret (next_ident E w), w\<lparr>w_rand := w_rand w + 16\<rparr>)"
  by (simp add: newIdent_def next_ident_def fresh_ident_Ret)

lemma NewTimeStamp_app [go_simps]: "NewTimeStamp E w = (Ret (next_time E w), w\<lparr>w_time := Suc (w_time w)\<rparr>)"
  by (simp add: NewTimeStamp_def time_Now_def next_time_def bnd_def ret_def)

lemma next_ident_valid: "ValidUuid (next_ident E w)"
  by (simp add: next_ident_def encodeHex_valid)

lemma next_ident_not_Nil [simp]: "next_ident E w \<noteq> []"
  using ValidUuid_not_Nil [OF next_ident_valid] .

section \<open>Logging\<close>

definition audit :: "string \<Rightarrow> string \<Rightarrow> string \<Rightarrow> ('x world, unit) go" where
  "audit actor action actee = modify (w_audit_update (\<lambda>l. l @
     [\<lparr>au_actor = actor, au_action = action, au_actee = actee\<rparr>]))"

lemma audit_app [go_simps]: "audit actor action actee w =
    (Ret (), w\<lparr>w_audit := w_audit w @ [\<lparr>au_actor = actor, au_action = action, au_actee = actee\<rparr>]\<rparr>)"
  by (simp add: audit_def modify_def)

text \<open>
  A goroutine has no deferred \<open>handlePanic\<close> of its own: a panic in it ends the process, so the
  call that waits for it never returns.
\<close>

definition goroutine :: "('x world, 'a) go \<Rightarrow> ('x world, 'a) go" where
  "goroutine m = (\<lambda>w. case m w of (Panic e, w') \<Rightarrow> (Hang, w'\<lparr>w_crashed := Some e\<rparr>) | r \<Rightarrow> r)"

section \<open>Responses of the service\<close>

text \<open>An error without a message is nil: \<open>err.Error()\<close> on it panics.\<close>

definition err_Error :: "err \<Rightarrow> string outcome" where
  "err_Error e = deref e"

definition statusError :: "'x env \<Rightarrow> int \<Rightarrow> err \<Rightarrow> ('x world, jsonResponse option) go" where
  "statusError E code e = bnd (lift (err_Error e)) (\<lambda>msg.
     ret (Some (message_response code [] msg (env_Name E))))"

definition statusBadRequest :: "'x env \<Rightarrow> err \<Rightarrow> ('x world, jsonResponse option) go" where
  "statusBadRequest E e = statusError E 400 e"

definition statusForbidden :: "'x env \<Rightarrow> err \<Rightarrow> ('x world, jsonResponse option) go" where
  "statusForbidden E e = statusError E 403 e"

definition statusInternalError :: "'x env \<Rightarrow> err \<Rightarrow> ('x world, jsonResponse option) go" where
  "statusInternalError E e = statusError E 500 e"

definition statusNotFound :: "'x env \<Rightarrow> err \<Rightarrow> ('x world, jsonResponse option) go" where
  "statusNotFound E e = statusError E 404 e"

definition status_data :: "'x env \<Rightarrow> int \<Rightarrow> payload \<Rightarrow> ('x world, jsonResponse option) go" where
  "status_data E code obj =
     (case SetType (data_response code obj) of
        (Some e, resp) \<Rightarrow> statusInternalError E (Some e)
      | (None, resp) \<Rightarrow> ret (Some resp))"

definition statusOK :: "'x env \<Rightarrow> payload \<Rightarrow> ('x world, jsonResponse option) go" where
  "statusOK E obj = status_data E 200 obj"

definition statusCreated :: "'x env \<Rightarrow> payload \<Rightarrow> ('x world, jsonResponse option) go" where
  "statusCreated E obj = status_data E 201 obj"

definition statusPutOK :: "'x env \<Rightarrow> string \<Rightarrow> ('x world, jsonResponse option) go" where
  "statusPutOK E message = ret (Some (message_response 200 ''success'' message (env_Name E)))"

text \<open>The response that carries a payload.\<close>

definition typed_response :: "int \<Rightarrow> payload \<Rightarrow> jsonResponse" where
  "typed_response code obj = snd (SetType (data_response code obj))"

lemma statusError_Some [go_simps]:
  "statusError E code (Some e) w = (Ret (Some (message_response code [] e (env_Name E))), w)"
  by (simp add: statusError_def err_Error_def bnd_def lift_def ret_def)

lemma statusError_None: "statusError E code None w = (nil_deref, w)"
  by (simp add: statusError_def err_Error_def bnd_def lift_def nil_deref_def)

lemmas status_error_defs = statusBadRequest_def statusForbidden_def statusInternalError_def statusNotFound_def

lemma status_data_app: "status_data E code obj w = (Ret (Some (typed_response code obj)), w)"
  using SetType_ok [of "data_response code obj"]
  by (cases "SetType (data_response code obj)")
     (auto simp: status_data_def typed_response_def ret_def)

lemma statusOK_app [go_simps]: "statusOK E obj w = (Ret (Some (typed_response 200 obj)), w)"
  by (simp add: statusOK_def status_data_app)

lemma statusCreated_app [go_simps]: "statusCreated E obj w = (Ret (Some (typed_response 201 obj)), w)"
  by (simp add: statusCreated_def status_data_app)

lemma typed_response_sel [simp]:
  "StatusCode (typed_response code obj) = code" "Data (typed_response code obj) = obj"
  by (simp_all add: typed_response_def SetType_data) (simp_all add: data_response_def)

section \<open>Authorisation and the message queue\<close>

text \<open>\<open>piazza.RequestAuthZAccess\<close>: whether the user may create a job, or an error.\<close>

text \<open>The body's text spans several lines; the user's name is put into it unquoted.\<close>

definition json_line :: "nat \<Rightarrow> string \<Rightarrow> string" where
  "json_line tabs s = CHR 0x0A # replicate tabs CHR 0x09 @ s"

definition authz_body :: "string \<Rightarrow> string" where
  "authz_body actor = ''{'' @
     json_line 7 (dquoted ''username'' @ '': '' @ dquoted actor @ '','') @
     json_line 7 (dquoted ''action'' @ '': {'') @
     json_line 8 (dquoted ''requestMethod'' @ '': '' @ dquoted ''POST'' @ '','') @
     json_line 8 (dquoted ''uri'' @ '': '' @ dquoted ''job'' @ '' '') @
     json_line 7 ''}'' @ json_line 6 ''}''"

definition RequestAuthZAccess :: "'x env \<Rightarrow> string \<Rightarrow> string \<Rightarrow> bool \<times> err" where
  "RequestAuthZAccess E idamURL actor =
     (case env_http_post E (idamURL @ ''/authz'') (authz_body actor) of
        Inl e \<Rightarrow> (False, Some e)
      | Inr (code, body) \<Rightarrow>
          if code \<noteq> 200 then (False, Some ''AuthZ response code not 200'')
          else case sbind (json_Unmarshal body) obj_fields of
                 Inl e \<Rightarrow> (False, Some e)
               | Inr respon \<Rightarrow> (case map_of respon ''isAuthSuccess'' of
                     None \<Rightarrow> (False, Some (''AuthZ response doesn'' @ [CHR 0x27] @ ''t contain isAuthSuccess field''))
                   | Some (VBool b) \<Rightarrow> (b, None)
                   | Some _ \<Rightarrow> (False, Some ''AuthZ isAuthSuccess is not type bool'')))"

definition rabbit_failure :: "string \<Rightarrow> nat \<Rightarrow> string \<Rightarrow> ('x world, err) go" where
  "rabbit_failure actor n e = bnd (audit actor ''creatingJobFailure'' ''rabbitmq'')
     (\<lambda>_. ret (Some (''rabbit-related failure ('' @ itoa (int n) @ ''): '' @ e)))"

definition sendToRabbitMQ :: "'x env \<Rightarrow> string \<Rightarrow> ident \<Rightarrow> string \<Rightarrow> ('x world, err) go" where
  "sendToRabbitMQ E jobInstance jobID actor =
     bnd (audit actor ''creatingJob'' ''rabbitmq'') (\<lambda>_.
     case env_GetAddress E of Inl e \<Rightarrow> rabbit_failure actor 1 e | Inr addr \<Rightarrow>
     case env_amqp_dial E addr of Some e \<Rightarrow> rabbit_failure actor 2 e | None \<Rightarrow>
     case env_amqp_channel E addr of Some e \<Rightarrow> rabbit_failure actor 3 e | None \<Rightarrow>
     case env_amqp_queue E (''Request-Job-'' @ env_Space E) of Inl e \<Rightarrow> rabbit_failure actor 4 e | Inr q \<Rightarrow>
     case env_amqp_publish E ''Piazza'' q jobInstance of Some e \<Rightarrow> rabbit_failure actor 5 e | None \<Rightarrow>
     bnd (modify (w_mq_update (\<lambda>l. l @
       [\<lparr>mq_exchange = ''Piazza'', mq_key = q, mq_body = jobInstance\<rparr>]))) (\<lambda>_. ret None))"

end
