(* ===== verification/Vars.thy ===== *)
theory Vars
  imports JsonText
begin

text \<open>
  \<open>GetVarsFromStruct\<close> and its helper (\<open>pz-gocommon/gocommon/util.go\<close>): flatten a nested map
  to its leaves, named by dotted paths. Event types and events are compared through it.
\<close>

text \<open>The path of a key: every component of the path followed by a dot, then the key.\<close>

definition var_path :: "string list \<Rightarrow> string \<Rightarrow> string" where
  "var_path path k = concat (map (\<lambda>p. p @ ''.'') path) @ k"

fun getVarsFromStructHelper ::
    "entries \<Rightarrow> entries \<Rightarrow> string list \<Rightarrow> string list \<Rightarrow> entries" where
  "getVarsFromStructHelper [] res path skipMaps = res"
| "getVarsFromStructHelper ((k, v) # kvs) res path skipMaps =
     (case v of
        VMap m \<Rightarrow>
          if var_path path k \<in> set skipMaps
          then getVarsFromStructHelper kvs
                 (AList.update (var_path path k) (VStr (json_text v)) res) path skipMaps
          else getVarsFromStructHelper kvs
                 (getVarsFromStructHelper m res (path @ [k]) skipMaps) path skipMaps
      | VNilMap \<Rightarrow>
          if var_path path k \<in> set skipMaps
          then getVarsFromStructHelper kvs
                 (AList.update (var_path path k) (VStr (json_text v)) res) path skipMaps
          else getVarsFromStructHelper kvs res path skipMaps
      | _ \<Rightarrow> getVarsFromStructHelper kvs
                 (AList.update (var_path path k) v res) path skipMaps)"

text \<open>
  The arguments of the exported functions are statically \<open>map[string]interface{}\<close> at every
  call of the program, so the assertion inside cannot fail: the error value stays nil.
\<close>

definition GetVarsFromStructSkip :: "val \<Rightarrow> string list \<Rightarrow> entries option \<times> err" where
  "GetVarsFromStructSkip struc skipMaps =
     (case as_map struc of
        None \<Rightarrow> (None, Some ''Structure is not of type map[string]interface{}'')
      | Some m \<Rightarrow> (Some (getVarsFromStructHelper (entries_of m) [] [] skipMaps), None))"

definition GetVarsFromStruct :: "val \<Rightarrow> entries option \<times> err" where
  "GetVarsFromStruct struc = GetVarsFromStructSkip struc []"

section \<open>The leaves\<close>

text \<open>
  Specification: the list of (path, value) of the leaves; the helper writes them, in order,
  into the result map.
\<close>

fun leaves :: "string list \<Rightarrow> string list \<Rightarrow> entries \<Rightarrow> entries" where
  "leaves skip path [] = []"
| "leaves skip path ((k, v) # kvs) =
     (case v of
        VMap m \<Rightarrow> if var_path path k \<in> set skip then [(var_path path k, VStr (json_text v))]
                  else leaves skip (path @ [k]) m
      | VNilMap \<Rightarrow> if var_path path k \<in> set skip then [(var_path path k, VStr (json_text v))] else []
      | _ \<Rightarrow> [(var_path path k, v)]) @ leaves skip path kvs"

definition write_all :: "entries \<Rightarrow> entries \<Rightarrow> entries" where
  "write_all kvs res = fold (\<lambda>(k, v). AList.update k v) kvs res"

lemma write_all_simps [simp]:
  "write_all [] res = res"
  "write_all ((k, v) # kvs) res = write_all kvs (AList.update k v res)"
  "write_all (xs @ ys) res = write_all ys (write_all xs res)"
  by (simp_all add: write_all_def)

lemma vars_helper_leaves:
  "getVarsFromStructHelper kvs res path skip = write_all (leaves skip path kvs) res"
proof (induction kvs res path skip rule: getVarsFromStructHelper.induct)
  case (2 k v kvs res path skip)
  then show ?case by (cases v) auto
qed simp

lemma write_all_distinct:
  "distinct (map fst kvs) \<Longrightarrow> fst ` set kvs \<inter> fst ` set res = {} \<Longrightarrow> write_all kvs res = res @ kvs"
proof (induction kvs arbitrary: res)
  case Nil
  then show ?case by simp
next
  case (Cons kv kvs)
  obtain k v where kv: "kv = (k, v)" by (cases kv)
  with Cons.prems have "AList.update k v res = res @ [(k, v)]"
    by (intro update_new) auto
  moreover have "write_all kvs (res @ [(k, v)]) = (res @ [(k, v)]) @ kvs"
    using Cons.prems kv by (intro Cons.IH) auto
  ultimately show ?case using kv by simp
qed

lemma dom_write_all: "fst ` set (write_all kvs res) = fst ` set kvs \<union> fst ` set res"
proof (induction kvs arbitrary: res)
  case (Cons kv kvs)
  then show ?case by (cases kv) (auto simp: dom_update)
qed simp

lemma distinct_write_all: "distinct (map fst res) \<Longrightarrow> distinct (map fst (write_all kvs res))"
proof (induction kvs arbitrary: res)
  case (Cons kv kvs)
  then show ?case by (cases kv) (auto simp: distinct_update)
qed simp

definition vars_of :: "entries \<Rightarrow> entries" where
  "vars_of kvs = getVarsFromStructHelper kvs [] [] []"

lemma vars_of_leaves: "vars_of kvs = write_all (leaves [] [] kvs) []"
  by (simp add: vars_of_def vars_helper_leaves)

lemma vars_of_names: "fst ` set (vars_of kvs) = fst ` set (leaves [] [] kvs)"
  by (simp add: vars_of_leaves dom_write_all)

text \<open>When no two leaves share a path, the variables are exactly the leaves.\<close>

lemma vars_of_exact: "distinct (map fst (leaves [] [] kvs)) \<Longrightarrow> vars_of kvs = leaves [] [] kvs"
  by (simp add: vars_of_leaves write_all_distinct)

lemma GetVarsFromStruct_map [simp]: "GetVarsFromStruct (of_gomap m) = (Some (vars_of (entries_of m)), None)"
  by (simp add: GetVarsFromStruct_def GetVarsFromStructSkip_def vars_of_def)

lemma GetVarsFromStruct_VMap [simp]: "GetVarsFromStruct (VMap kvs) = (Some (vars_of kvs), None)"
  using GetVarsFromStruct_map [of "Some kvs"] by (simp add: of_gomap_def del: GetVarsFromStruct_map)

end
