(* ===== verification/Mappings.thy ===== *)
theory Mappings
  imports Vars
begin

text \<open>
  Event type mappings: the element types Elasticsearch accepts
  (\<open>pz-gocommon/elasticsearch/common.go\<close>) and the translation of an event type's mapping to
  an Elasticsearch schema (\<open>ConstructEventMappingSchema\<close>, \<open>visitNodeE\<close>, \<open>visitTreeE\<close>,
  \<open>visitLeafE\<close> of \<open>workflow/EventDB.go\<close>).
\<close>

section \<open>Element types\<close>

definition scalar_types :: "string list" where
  "scalar_types = [''string'', ''long'', ''integer'', ''short'', ''byte'', ''double'', ''float'',
     ''date'', ''boolean'', ''binary'', ''geo_point'', ''geo_shape'', ''ip'', ''completion'']"

definition array_types :: "string list" where
  "array_types = [''[string]'', ''[long]'', ''[integer]'', ''[short]'', ''[byte]'', ''[double]'',
     ''[float]'', ''[date]'', ''[boolean]'', ''[binary]'', ''[geo_point]'', ''[geo_shape]'',
     ''[ip]'', ''[completion]'']"

definition isValidScalarMappingType :: "string \<Rightarrow> bool" where
  "isValidScalarMappingType name \<longleftrightarrow> name \<in> set scalar_types"

definition isValidArrayMappingType :: "string \<Rightarrow> bool" where
  "isValidArrayMappingType name \<longleftrightarrow> name \<in> set array_types"

definition isValidMappingType :: "string \<Rightarrow> bool" where
  "isValidMappingType name \<longleftrightarrow> isValidScalarMappingType name \<or> isValidArrayMappingType name"

definition IsValidMappingType :: "val \<Rightarrow> bool" where
  "IsValidMappingType v = (case as_string v of None \<Rightarrow> False | Some s \<Rightarrow> isValidMappingType s)"

definition IsValidArrayTypeMapping :: "val \<Rightarrow> bool" where
  "IsValidArrayTypeMapping v = (case as_string v of None \<Rightarrow> False | Some s \<Rightarrow> isValidArrayMappingType s)"

lemma array_types_brackets: "array_types = map (\<lambda>t. CHR ''['' # t @ '']'') scalar_types"
  by (simp add: array_types_def scalar_types_def)

section \<open>The schema of a mapping\<close>

text \<open>\<open>v[1 : len(v)-1]\<close>.\<close>

definition strip_brackets :: "string \<Rightarrow> string" where
  "strip_brackets s = take (length s - 2) (drop 1 s)"

definition bad_leaf_error :: "val \<Rightarrow> string" where
  "bad_leaf_error v = ''EventDB.ConstructEventMappingSchema failed: '' @ [CHR 0x22] @ go_quote (sprint v) @
     [CHR 0x22] @ '' was not recognized as a valid mapping type''"

definition bad_node_error :: "val \<Rightarrow> string" where
  "bad_node_error v = ''EventDB.ConstructEventMappingSchema failed: unexpected type '' @ type_name v"

definition visitLeafE :: "string \<Rightarrow> val \<Rightarrow> string + entries" where
  "visitLeafE k v =
     (if \<not> IsValidMappingType v then Inl (bad_leaf_error v)
      else let v' = (if IsValidArrayTypeMapping v
                     then (case v of VStr s \<Rightarrow> VStr (strip_brackets s) | _ \<Rightarrow> v) else v)
           in Inr [(''type'', v')])"

fun visitNodeE :: "entries \<Rightarrow> entries \<Rightarrow> string + entries" and
    visitTreeE :: "string \<Rightarrow> entries \<Rightarrow> string + entries" where
  "visitNodeE [] outputObj = Inr outputObj"
| "visitNodeE ((k, v) # kvs) outputObj =
     (case v of
        VStr s \<Rightarrow> (case visitLeafE k v of
            Inl e \<Rightarrow> Inl e
          | Inr tree \<Rightarrow> visitNodeE kvs (AList.update k (VMap tree) outputObj))
      | VMap m \<Rightarrow> (case visitTreeE k m of
            Inl e \<Rightarrow> Inl e
          | Inr tree \<Rightarrow> visitNodeE kvs (AList.update k (VMap tree) outputObj))
      | VNilMap \<Rightarrow> visitNodeE kvs
          (AList.update k (VMap [(''dynamic'', VStr ''strict''), (''properties'', VMap [])]) outputObj)
      | _ \<Rightarrow> Inl (bad_node_error v))"
| "visitTreeE k v = (case visitNodeE v [] of
      Inl e \<Rightarrow> Inl e
    | Inr subtree \<Rightarrow> Inr [(''dynamic'', VStr ''strict''), (''properties'', VMap subtree)])"

definition buildMapping :: "gomap \<Rightarrow> string + entries" where
  "buildMapping input = visitNodeE (entries_of input) []"

text \<open>
  The template of \<open>ConstructEventMappingSchema\<close>, as the JSON value its text denotes (for an
  event type name that JSON strings need not escape).
\<close>

definition ConstructEventMappingSchema :: "string \<Rightarrow> gomap \<Rightarrow> string + val" where
  "ConstructEventMappingSchema name mapping =
     (case buildMapping mapping of
        Inl e \<Rightarrow> Inl e
      | Inr esdsl \<Rightarrow> Inr (VMap [(name, VMap [(''properties'', VMap [(''data'',
          VMap [(''dynamic'', VStr ''strict''), (''properties'', VMap esdsl)])])])]))"

section \<open>Which mappings have a schema\<close>

text \<open>Every leaf names an element type, at every depth.\<close>

fun mapping_ok :: "val \<Rightarrow> bool" and mapping_ok_entries :: "entries \<Rightarrow> bool" where
  "mapping_ok (VStr s) = isValidMappingType s"
| "mapping_ok (VMap m) = mapping_ok_entries m"
| "mapping_ok VNilMap = True"
| "mapping_ok _ = False"
| "mapping_ok_entries [] = True"
| "mapping_ok_entries ((k, v) # kvs) = (mapping_ok v \<and> mapping_ok_entries kvs)"

text \<open>The schema, entry by entry.\<close>

fun schema_val :: "val \<Rightarrow> val" and schema_entries :: "entries \<Rightarrow> entries" where
  "schema_val (VStr s) =
     VMap [(''type'', VStr (if isValidArrayMappingType s then strip_brackets s else s))]"
| "schema_val (VMap m) =
     VMap [(''dynamic'', VStr ''strict''), (''properties'', VMap (schema_entries m))]"
| "schema_val VNilMap = VMap [(''dynamic'', VStr ''strict''), (''properties'', VMap [])]"
| "schema_val v = v"
| "schema_entries [] = []"
| "schema_entries ((k, v) # kvs) = (k, schema_val v) # schema_entries kvs"

lemma IsValidMappingType_VStr [simp]: "IsValidMappingType (VStr s) = isValidMappingType s"
  by (simp add: IsValidMappingType_def)

lemma IsValidArrayTypeMapping_VStr [simp]: "IsValidArrayTypeMapping (VStr s) = isValidArrayMappingType s"
  by (simp add: IsValidArrayTypeMapping_def)

lemma fst_schema_entries [simp]: "map fst (schema_entries kvs) = map fst kvs"
  by (induction kvs) auto

lemma visitLeafE_VStr:
  "visitLeafE k (VStr s) = (if isValidMappingType s
     then Inr [(''type'', VStr (if isValidArrayMappingType s then strip_brackets s else s))]
     else Inl (bad_leaf_error (VStr s)))"
  by (simp add: visitLeafE_def)

lemma visitNodeE_ok:
  "mapping_ok_entries kvs \<Longrightarrow> wf_entries kvs \<Longrightarrow> fst ` set kvs \<inter> fst ` set out = {} \<Longrightarrow>
     visitNodeE kvs out = Inr (out @ schema_entries kvs)"
  "mapping_ok_entries m \<Longrightarrow> wf_entries m \<Longrightarrow>
     visitTreeE k m = Inr [(''dynamic'', VStr ''strict''), (''properties'', VMap (schema_entries m))]"
proof (induction kvs out and k m rule: visitNodeE_visitTreeE.induct)
  case (2 k v kvs out)
  then show ?case
    by (cases v) (auto simp: visitLeafE_VStr update_new)
qed auto

lemma visitNodeE_fails:
  "\<not> mapping_ok_entries kvs \<Longrightarrow> \<exists>e. visitNodeE kvs out = Inl e"
  "\<not> mapping_ok_entries m \<Longrightarrow> \<exists>e. visitTreeE k m = Inl e"
proof (induction kvs out and k m rule: visitNodeE_visitTreeE.induct)
  case (2 k v kvs out)
  then show ?case
    by (cases v) (auto simp: visitLeafE_VStr split: sum.split)
next
  case (3 k v)
  then show ?case by auto
qed auto

lemma buildMapping_iff:
  "wf_entries kvs \<Longrightarrow> (\<exists>dsl. buildMapping (Some kvs) = Inr dsl) \<longleftrightarrow> mapping_ok_entries kvs"
  using visitNodeE_ok(1) [of kvs "[]"] visitNodeE_fails(1) [of kvs "[]"]
  by (cases "mapping_ok_entries kvs") (auto simp: buildMapping_def)

section \<open>The check of EventTypeDB.PostData agrees with the translation\<close>

text \<open>\<open>EventTypeDB.PostData\<close> checks the values of \<open>GetVarsFromStruct\<close> instead.\<close>

definition vars_types_ok :: "entries \<Rightarrow> bool" where
  "vars_types_ok kvs \<longleftrightarrow> list_all (\<lambda>(k, v). IsValidMappingType v) (vars_of kvs)"

lemma mapping_ok_leaves:
  "mapping_ok_entries kvs \<longleftrightarrow> list_all (\<lambda>(k, v). IsValidMappingType v) (leaves [] path kvs)"
proof (induction "[] :: string list" path kvs rule: leaves.induct)
  case (2 path k v kvs)
  then show ?case by (cases v) (auto simp: IsValidMappingType_def)
qed simp

lemma vars_types_ok_iff:
  "distinct (map fst (leaves [] [] kvs)) \<Longrightarrow> vars_types_ok kvs \<longleftrightarrow> mapping_ok_entries kvs"
  by (simp add: vars_types_ok_def vars_of_exact mapping_ok_leaves [where path = "[]"])

lemma list_all_update:
  "list_all P kvs \<Longrightarrow> P (k, v) \<Longrightarrow> list_all P (AList.update k v kvs)"
  by (induction kvs) auto

lemma list_all_write_all: "list_all P kvs \<Longrightarrow> list_all P res \<Longrightarrow> list_all P (write_all kvs res)"
proof (induction kvs arbitrary: res)
  case (Cons kv kvs)
  then show ?case by (cases kv) (auto simp: list_all_update)
qed simp

lemma mapping_ok_vars_types_ok: "mapping_ok_entries kvs \<Longrightarrow> vars_types_ok kvs"
  by (simp add: vars_types_ok_def vars_of_leaves mapping_ok_leaves [where path = "[]"] list_all_write_all)

section \<open>Element types of the schema\<close>

lemma strip_brackets_bracket [simp]: "strip_brackets (CHR ''['' # t @ '']'') = t"
  by (simp add: strip_brackets_def)

lemma strip_array_type: "isValidArrayMappingType s \<Longrightarrow> isValidScalarMappingType (strip_brackets s)"
  by (auto simp: isValidArrayMappingType_def isValidScalarMappingType_def array_types_brackets)

lemma array_not_scalar: "isValidArrayMappingType s \<Longrightarrow> \<not> isValidScalarMappingType s"
  by (auto simp: isValidArrayMappingType_def isValidScalarMappingType_def array_types_def scalar_types_def)

text \<open>Every node of a schema is a strict object or a scalar element type.\<close>

fun schema_ok :: "val \<Rightarrow> bool" and schema_ok_entries :: "entries \<Rightarrow> bool" where
  "schema_ok (VMap [(t, VStr s)]) = (t = ''type'' \<and> isValidScalarMappingType s)"
| "schema_ok (VMap [(d, VStr s), (p, VMap sub)]) =
     (d = ''dynamic'' \<and> s = ''strict'' \<and> p = ''properties'' \<and> schema_ok_entries sub)"
| "schema_ok _ = False"
| "schema_ok_entries [] = True"
| "schema_ok_entries ((k, v) # kvs) = (schema_ok v \<and> schema_ok_entries kvs)"

lemma schema_val_ok:
  "mapping_ok v \<Longrightarrow> schema_ok (schema_val v)"
  "mapping_ok_entries kvs \<Longrightarrow> schema_ok_entries (schema_entries kvs)"
  by (induction v and kvs rule: mapping_ok_mapping_ok_entries.induct)
     (auto simp: strip_array_type isValidMappingType_def)

end
