(* ===== verification/Databases.thy ===== *)
theory Databases
  imports Worlds Mappings
begin

text \<open>
  The databases of the service over the document index: \<open>ResourceDB\<close>, \<open>EventTypeDB\<close>,
  \<open>TriggerDB\<close>, \<open>AlertDB\<close>, \<open>CronDB\<close> and \<open>TestElasticsearchDB\<close> of \<open>workflow/\<close> (\<open>EventDB\<close> is in
  \<open>Events\<close>). Each method is a definition named after its type and method.
\<close>

section \<open>What the methods share\<close>

definition EventTypeDBMapping :: string where "EventTypeDBMapping = ''EventType''"
definition EventDBMapping :: string where "EventDBMapping = ''_default_''"
definition TriggerDBMapping :: string where "TriggerDBMapping = ''Trigger''"
definition AlertDBMapping :: string where "AlertDBMapping = ''Alert''"
definition CronDBMapping :: string where "CronDBMapping = ''Cron''"
definition TestElasticsearchMapping :: string where "TestElasticsearchMapping = ''TestElasticsearch''"

text \<open>\<open>NewResourceDB\<close> creates the index.\<close>

definition NewResourceDB :: "'x env \<Rightarrow> ('x, err) go" where
  "NewResourceDB E = ix_Create (env_idx E) []"

text \<open>The test on the response to a post: an error, or a document that was not created.\<close>

definition post_result :: "string \<Rightarrow> indexResponse option \<times> err \<Rightarrow> err outcome" where
  "post_result name r = (case r of
     (_, Some e) \<Rightarrow> Ret (Some (name @ '' failed: '' @ e))
   | (p, None) \<Rightarrow> obind (deref p) (\<lambda>ir.
       Ret (if \<not> Created ir then Some (name @ '' failed: not created'') else None)))"

text \<open>Decoding the document of a hit: a nil \<open>Source\<close> panics.\<close>

definition decode_source :: "(val \<Rightarrow> string + 'a) \<Rightarrow> val option \<Rightarrow> (string + 'a) outcome" where
  "decode_source dec src = obind (deref src) (\<lambda>v. Ret (dec v))"

primrec decode_hits :: "(val \<Rightarrow> string + 'a) \<Rightarrow> searchResultHit list \<Rightarrow> (string + 'a list) outcome" where
  "decode_hits dec [] = Ret (Inr [])"
| "decode_hits dec (h # hs) = obind (decode_source dec (hit_Source h)) (\<lambda>r. case r of
     Inl e \<Rightarrow> Ret (Inl e)
   | Inr x \<Rightarrow> obind (decode_hits dec hs) (\<lambda>rs. case rs of
       Inl e \<Rightarrow> Ret (Inl e) | Inr xs \<Rightarrow> Ret (Inr (x # xs))))"

text \<open>The second half of every list method: the checks on a search result, and its documents.\<close>

type_synonym 'a listing = "'a list option \<times> int \<times> err"

definition list_result ::
    "string \<Rightarrow> (val \<Rightarrow> string + 'a) \<Rightarrow> searchResult option \<times> err \<Rightarrow> 'a listing outcome" where
  "list_result name dec r = (case r of
     (_, Some e) \<Rightarrow> Ret (None, 0, Some (name @ '' failed: '' @ e))
   | (None, None) \<Rightarrow> Ret (None, 0, Some (name @ '' failed: no searchResult''))
   | (Some sr, None) \<Rightarrow> obind (decode_hits dec (GetHits sr)) (\<lambda>d. case d of
         Inl e \<Rightarrow> Ret (None, 0, Some e)
       | Inr xs \<Rightarrow> Ret (Some xs, TotalHits sr, None)))"

text \<open>The first half of the list methods of a database with one type.\<close>

definition list_typed :: "'x env \<Rightarrow> string \<Rightarrow> ('x, 'a listing) go \<Rightarrow> ('x, 'a listing) go" where
  "list_typed E mtype rest =
     bnd (ix_TypeExists (env_idx E) mtype) (\<lambda>(ex, err). case err of
         Some e \<Rightarrow> ret (Some [], 0, Some e)
       | None \<Rightarrow> if \<not> ex then ret (Some [], 0, None) else rest)"

text \<open>The test on the response to a lookup; \<open>on_err\<close> and \<open>on_nil\<close> are what the method reports as found.\<close>

definition get_result :: "string \<Rightarrow> (getResult option \<Rightarrow> bool outcome) \<Rightarrow> bool \<Rightarrow> (val \<Rightarrow> string + 'a) \<Rightarrow>
    (string \<Rightarrow> string) \<Rightarrow> getResult option \<times> err \<Rightarrow> ('a option \<times> bool \<times> err) outcome" where
  "get_result name on_err on_nil dec wrap r = (case r of
     (p, Some e) \<Rightarrow> obind (on_err p) (\<lambda>f. Ret (None, f, Some (name @ '' failed: '' @ e)))
   | (None, None) \<Rightarrow> Ret (None, on_nil, Some (name @ '' failed: no getResult''))
   | (Some g, None) \<Rightarrow> obind (decode_source dec (gr_Source g)) (\<lambda>d. case d of
         Inl e \<Rightarrow> Ret (None, gr_Found g, Some (wrap e))
       | Inr x \<Rightarrow> Ret (Some x, gr_Found g, None)))"

definition found_in :: "getResult option \<Rightarrow> bool outcome" where
  "found_in p = obind (deref p) (\<lambda>g. Ret (gr_Found g))"

definition not_found :: "getResult option \<Rightarrow> bool outcome" where
  "not_found p = Ret False"

text \<open>The test on the response to a deletion: an error is reported with the response's \<open>Found\<close>.\<close>

definition delete_result :: "string \<Rightarrow> deleteResponse option \<times> err \<Rightarrow> (bool \<times> err) outcome" where
  "delete_result name r = (case r of
     (p, Some e) \<Rightarrow> obind (deref p) (\<lambda>d. Ret (dr_Found d, Some (name @ '' failed: '' @ e)))
   | (None, None) \<Rightarrow> Ret (False, Some (name @ '' failed: no deleteResult''))
   | (Some d, None) \<Rightarrow> Ret (dr_Found d, None))"

section \<open>EventTypeDB\<close>

definition invalid_type_error :: "val \<Rightarrow> string" where
  "invalid_type_error v = ''EventTypeDB.PostData failed: '' @ sprint v @
     '' was not recognized as a valid mapping type''"

definition EventTypeDB_PostData :: "'x env \<Rightarrow> eventType \<Rightarrow> ('x world, err) go" where
  "EventTypeDB_PostData E et = (case GetVarsFromStruct (of_gomap (et_Mapping et)) of
     (_, Some e) \<Rightarrow> ret (Some (''EventTypeDB.PostData failed: '' @ e))
   | (vars, None) \<Rightarrow> (case find (\<lambda>(k, v). \<not> IsValidMappingType v) (entries_of vars) of
         Some (k, v) \<Rightarrow> ret (Some (invalid_type_error v))
       | None \<Rightarrow> bnd (on_eventTypes (ix_PostData (env_idx E) EventTypeDBMapping (et_EventTypeID et) (enc_eventType et)))
           (\<lambda>r. lift (post_result ''EventTypeDB.PostData'' r))))"

definition EventTypeDB_GetAll :: "'x env \<Rightarrow> jsonPagination option \<Rightarrow> ('x world, eventType listing) go" where
  "EventTypeDB_GetAll E format = on_eventTypes (list_typed E EventTypeDBMapping
     (bnd (ix_FilterByMatchAll (env_idx E) EventTypeDBMapping format)
       (\<lambda>r. lift (list_result ''EventTypeDB.GetAll'' dec_eventType r))))"

definition EventTypeDB_GetEventTypesByDslQuery :: "'x env \<Rightarrow> string \<Rightarrow> ('x world, eventType listing) go" where
  "EventTypeDB_GetEventTypesByDslQuery E dslString = on_eventTypes (list_typed E EventTypeDBMapping
     (bnd (ix_SearchByJSON (env_idx E) EventTypeDBMapping dslString)
       (\<lambda>r. lift (list_result ''EventTypeDB.GetEventTypesByDslQuery'' dec_eventType r))))"

definition EventTypeDB_GetOne :: "'x env \<Rightarrow> ident \<Rightarrow> ('x world, eventType option \<times> bool \<times> err) go" where
  "EventTypeDB_GetOne E i = on_eventTypes (bnd (ix_GetByID (env_idx E) EventTypeDBMapping i)
     (\<lambda>r. lift (get_result ''EventTypeDB.GetOne'' found_in True dec_eventType id r)))"

definition EventTypeDB_GetIDByName ::
    "'x env \<Rightarrow> jsonPagination option \<Rightarrow> string \<Rightarrow> ('x world, ident option \<times> bool \<times> err) go" where
  "EventTypeDB_GetIDByName E format name =
     on_eventTypes (bnd (ix_FilterByTermQuery (env_idx E) EventTypeDBMapping ''name'' (TermString name) format)
       (\<lambda>(r, err). case err of
          Some e \<Rightarrow> bnd (lift (deref r)) (\<lambda>g.
            ret (None, sr_Found g, Some (''EventTypeDB.GetIDByName failed: '' @ e)))
        | None \<Rightarrow> (case r of
            None \<Rightarrow> ret (None, True, Some ''EventTypeDB.GetIDByName failed: no getResult'')
          | Some g \<Rightarrow>
              if NumHits g > 1
              then ret (None, True, Some ''EventTypeDB.GetIDByName failed: matched more than one EventType!'')
              else if NumHits g = 0 then ret (None, False, None)
              else bnd (lift (GetHit g 0)) (\<lambda>h. bnd (lift (decode_source dec_eventType (hit_Source h))) (\<lambda>d.
                case d of Inl e \<Rightarrow> ret (None, sr_Found g, Some e)
                | Inr et \<Rightarrow> ret (Some (et_EventTypeID et), sr_Found g, None))))))"

definition EventTypeDB_DeleteByID :: "'x env \<Rightarrow> ident \<Rightarrow> ('x world, bool \<times> err) go" where
  "EventTypeDB_DeleteByID E i = on_eventTypes (bnd (ix_DeleteByID (env_idx E) EventTypeDBMapping i)
     (\<lambda>r. lift (delete_result ''EventTypeDB.DeleteById'' r)))"

section \<open>TriggerDB\<close>

text \<open>The check that the service of a trigger exists, when a domain is configured.\<close>

definition check_service :: "'x env \<Rightarrow> trigger \<Rightarrow> string + unit" where
  "check_service E t =
     (case as_string (map_get (entries_of (jt_Data (jr_JobType (tr_Job t)))) ''serviceId'') of
        None \<Rightarrow> Inl ''TriggerDB.PostData failed: serviceId field not of type string''
      | Some strServiceID \<Rightarrow>
          if env_DOMAIN E \<noteq> []
          then (case env_http_get E (''https://pz-servicecontroller.'' @ env_DOMAIN E @ ''/service/'' @ strServiceID) of
                  Inl e \<Rightarrow> Inl (''TriggerDB.PostData failed to make request to ServiceController: '' @ e)
                | Inr code \<Rightarrow> if code \<noteq> 200
                    then Inl (''TriggerDB.PostData failed: serviceID '' @ strServiceID @ '' does not exist'')
                    else Inr ())
          else Inr ())"

definition percolation_error :: "string \<Rightarrow> string" where
  "percolation_error e =
     (if str_contains e ''elastic: Error 500 (Internal Server Error): failed to parse query''
      then ''TriggerDB.PostData addpercquery failed: elastic failed to parse query. Common causes: [Variables do not start with '' @ [CHR 0x27] @ ''data.'' @ [CHR 0x27] @ '' or are not found at your specified path, invalid perc query structure].''
      else ''TriggerDB.PostData addpercquery failed [unknown cause]: '' @ e @ '' '')"

text \<open>
  \<open>PostData\<close> registers the condition as a percolation query with the events, encodes it, and
  stores the trigger; when storing fails the query is taken back. The result of encoding is
  asserted to be a map.
\<close>

definition TriggerDB_PostData :: "'x env \<Rightarrow> trigger \<Rightarrow> ('x world, err) go" where
  "TriggerDB_PostData E t = (case check_service E t of Inl e \<Rightarrow> ret (Some e) | Inr _ \<Rightarrow>
     bnd (on_events (ix_AddPercolationQuery (env_idx E) (tr_TriggerID t) (json_text (of_gomap (tr_Condition t)))))
       (\<lambda>(indexResult, err). case err of
          Some e \<Rightarrow> ret (Some (percolation_error e))
        | None \<Rightarrow> (case indexResult of
            None \<Rightarrow> ret (Some ''TriggerDB.PostData addpercquery failed: no indexResult'')
          | Some ir \<Rightarrow>
            if \<not> Created ir then ret (Some ''TriggerDB.PostData addpercquery failed: not created'')
            else bnd (lift (assert_map (encodeCondition (of_gomap (tr_Condition t))))) (\<lambda>cond.
              bnd (on_triggers (ix_PostData (env_idx E) TriggerDBMapping (tr_TriggerID t)
                    (enc_trigger (t\<lparr>tr_PercolationID := ir_ID ir, tr_Condition := cond\<rparr>)))) (\<lambda>r.
                bnd (lift (post_result ''TriggerDB.PostData'' r)) (\<lambda>err2. case err2 of
                    Some e \<Rightarrow> bnd (on_events (ix_DeletePercolationQuery (env_idx E) (tr_TriggerID t)))
                      (\<lambda>_. ret (Some e))
                  | None \<Rightarrow> ret None))))))"

text \<open>
  \<open>PutTrigger\<close> writes the trigger's JSON text and reads it back as an untyped value, replaces
  the dots of its keys, and stores that.
\<close>

definition PutTrigger_document :: "trigger \<Rightarrow> val outcome" where
  "PutTrigger_document t =
     (case as_map (wire (enc_trigger t)) of
        None \<Rightarrow> Panic ''unreachable: a struct is an object''
      | Some m \<Rightarrow> Ret (handleDotTilde (of_gomap m) dots_to_tildes))"

definition TriggerDB_PutTrigger :: "'x env \<Rightarrow> trigger \<Rightarrow> triggerUpdate \<Rightarrow> ('x world, trigger \<times> err) go" where
  "TriggerDB_PutTrigger E t0 update =
     (let t = t0\<lparr>tr_Enabled := tu_Enabled update\<rparr> in
      bnd (lift (PutTrigger_document t)) (\<lambda>fixedTrigger.
        bnd (on_triggers (ix_PutData (env_idx E) TriggerDBMapping (tr_TriggerID t) fixedTrigger)) (\<lambda>(_, err).
          case err of Some e \<Rightarrow> ret (t, Some (''TriggerDB.PutData failed: '' @ e)) | None \<Rightarrow> ret (t, None))))"

text \<open>The decoded condition is asserted to be a map; a stored trigger always has one.\<close>

definition decode_trigger_condition :: "trigger \<Rightarrow> trigger outcome" where
  "decode_trigger_condition t =
     obind (assert_map (decodeCondition (of_gomap (tr_Condition t)))) (\<lambda>c. Ret (t\<lparr>tr_Condition := c\<rparr>))"

definition decode_listed :: "trigger listing \<Rightarrow> trigger listing outcome" where
  "decode_listed r = (case r of
     (Some ts, n, err) \<Rightarrow> obind (omap decode_trigger_condition ts) (\<lambda>ts'. Ret (Some ts', n, err))
   | (None, n, err) \<Rightarrow> Ret (None, n, err))"

definition TriggerDB_GetAll :: "'x env \<Rightarrow> jsonPagination option \<Rightarrow> ('x world, trigger listing) go" where
  "TriggerDB_GetAll E format = on_triggers (list_typed E TriggerDBMapping
     (bnd (ix_FilterByMatchAll (env_idx E) TriggerDBMapping format)
       (\<lambda>r. lift (obind (list_result ''TriggerDB.GetAll'' dec_trigger r) decode_listed))))"

definition TriggerDB_GetTriggersByDslQuery :: "'x env \<Rightarrow> string \<Rightarrow> ('x world, trigger listing) go" where
  "TriggerDB_GetTriggersByDslQuery E dslString = on_triggers (list_typed E TriggerDBMapping
     (bnd (ix_SearchByJSON (env_idx E) TriggerDBMapping dslString)
       (\<lambda>r. lift (obind (list_result ''TriggerDB.GetTriggersByDslQuery'' dec_trigger r) decode_listed))))"

definition TriggerDB_GetOne :: "'x env \<Rightarrow> ident \<Rightarrow> ('x world, trigger option \<times> bool \<times> err) go" where
  "TriggerDB_GetOne E i = on_triggers (bnd (ix_GetByID (env_idx E) TriggerDBMapping i)
     (\<lambda>r. bnd (lift (get_result ''TriggerDB.GetOne'' not_found False dec_trigger
                 (\<lambda>e. ''TriggerDB.GetOne failed: '' @ e) r)) (\<lambda>(p, found, err).
        case p of None \<Rightarrow> ret (None, found, err)
        | Some t \<Rightarrow> bnd (lift (decode_trigger_condition t)) (\<lambda>t'. ret (Some t', found, err)))))"

definition TriggerDB_GetTriggersByEventTypeID ::
    "'x env \<Rightarrow> jsonPagination option \<Rightarrow> ident \<Rightarrow> ('x world, trigger listing) go" where
  "TriggerDB_GetTriggersByEventTypeID E format i = on_triggers (list_typed E TriggerDBMapping
     (bnd (ix_FilterByTermQuery (env_idx E) TriggerDBMapping ''eventTypeId'' (TermIdent i) format)
       (\<lambda>r. lift (list_result ''TriggerDB.GetTriggersByEventTypeId'' dec_trigger r))))"

definition TriggerDB_DeleteTrigger :: "'x env \<Rightarrow> ident \<Rightarrow> ('x world, bool \<times> err) go" where
  "TriggerDB_DeleteTrigger E i = bnd (TriggerDB_GetOne E i) (\<lambda>(trigger, found, err). case err of
     Some e \<Rightarrow> ret (found, Some e)
   | None \<Rightarrow> (case trigger of None \<Rightarrow> ret (False, None) | Some t \<Rightarrow>
       bnd (on_triggers (ix_DeleteByID (env_idx E) TriggerDBMapping i)) (\<lambda>r.
       bnd (lift (delete_result ''TriggerDB.DeleteById'' r)) (\<lambda>(found, err).
         if err \<noteq> None then ret (found, err)
         else if \<not> found then ret (False, None)
         else bnd (on_events (ix_DeletePercolationQuery (env_idx E) (tr_PercolationID t))) (\<lambda>r2.
           lift (delete_result ''TriggerDB.DeleteById percquery'' r2))))))"

section \<open>AlertDB\<close>

definition AlertDB_PostData :: "'x env \<Rightarrow> alert \<Rightarrow> ('x world, err) go" where
  "AlertDB_PostData E a = bnd (on_alerts (ix_PostData (env_idx E) AlertDBMapping (al_AlertID a) (enc_alert a)))
     (\<lambda>r. lift (post_result ''AlertDB.PostData'' r))"

definition AlertDB_GetAll :: "'x env \<Rightarrow> jsonPagination option \<Rightarrow> ('x world, alert listing) go" where
  "AlertDB_GetAll E format = on_alerts (list_typed E AlertDBMapping
     (bnd (ix_FilterByMatchAll (env_idx E) AlertDBMapping format)
       (\<lambda>r. lift (list_result ''AlertDB.GetAll'' dec_alert r))))"

definition AlertDB_GetAlertsByDslQuery :: "'x env \<Rightarrow> string \<Rightarrow> ('x world, alert listing) go" where
  "AlertDB_GetAlertsByDslQuery E dslString = on_alerts (list_typed E AlertDBMapping
     (bnd (ix_SearchByJSON (env_idx E) AlertDBMapping dslString)
       (\<lambda>r. lift (list_result ''AlertDB.GetAlertsByDslQuery'' dec_alert r))))"

text \<open>No alert at all is an empty list before any hit is decoded.\<close>

definition AlertDB_GetAllByTrigger ::
    "'x env \<Rightarrow> jsonPagination option \<Rightarrow> ident \<Rightarrow> ('x world, alert listing) go" where
  "AlertDB_GetAllByTrigger E format triggerID = on_alerts (list_typed E AlertDBMapping
     (bnd (ix_FilterByTermQuery (env_idx E) AlertDBMapping ''triggerId'' (TermIdent triggerID) format)
       (\<lambda>r. case r of
          (Some sr, None) \<Rightarrow> if TotalHits sr = 0 then ret (Some [], 0, None)
              else lift (list_result ''AlertDB.GetAllByTrigger'' dec_alert r)
        | _ \<Rightarrow> lift (list_result ''AlertDB.GetAllByTrigger'' dec_alert r))))"

definition AlertDB_GetOne :: "'x env \<Rightarrow> ident \<Rightarrow> ('x world, alert option \<times> bool \<times> err) go" where
  "AlertDB_GetOne E i = on_alerts (bnd (ix_GetByID (env_idx E) AlertDBMapping i)
     (\<lambda>r. case r of
        (None, None) \<Rightarrow> ret (None, True, Some (''AlertDB.GetOne failed: '' @ i @ '' no getResult''))
      | _ \<Rightarrow> lift (get_result ''AlertDB.GetOne'' not_found True dec_alert id r)))"

definition AlertDB_DeleteByID :: "'x env \<Rightarrow> ident \<Rightarrow> ('x world, bool \<times> err) go" where
  "AlertDB_DeleteByID E i = on_alerts (bnd (ix_DeleteByID (env_idx E) AlertDBMapping i)
     (\<lambda>r. bnd (lift (delete_result ''AlertDB.DeleteById'' r)) (\<lambda>(found, err).
        if err = None \<and> \<not> found then ret (False, Some ''AlertDB.DeleteById failed: not found'')
        else ret (found, err))))"

section \<open>CronDB\<close>

definition CronDB_PostData :: "'x env \<Rightarrow> event \<Rightarrow> ('x world, err) go" where
  "CronDB_PostData E ev = bnd (on_crons (ix_PostData (env_idx E) CronDBMapping (ev_EventID ev) (enc_event ev)))
     (\<lambda>r. lift (post_result ''CronDB.PostData'' r))"

text \<open>The events are a pointer to a slice here.\<close>

definition CronDB_GetAll :: "'x env \<Rightarrow> ('x world, event list option \<times> err) go" where
  "CronDB_GetAll E = on_crons (bnd (ix_TypeExists (env_idx E) CronDBMapping) (\<lambda>(ex, err). case err of
     Some e \<Rightarrow> ret (Some [], Some e)
   | None \<Rightarrow> if \<not> ex then ret (None, Some (''Type '' @ CronDBMapping @ '' does not exist''))
       else bnd (ix_GetAllElements (env_idx E) CronDBMapping) (\<lambda>r.
         bnd (lift (list_result ''CronDB.GetAll'' dec_event r)) (\<lambda>(evs, n, err).
           ret (evs, map_option (\<lambda>e. if snd r = None \<and> fst r \<noteq> None
             then ''CronDB.GetAll failed: '' @ e else e) err)))))"

definition CronDB_Exists :: "'x env \<Rightarrow> ('x world, bool \<times> err) go" where
  "CronDB_Exists E = on_crons (bnd (ix_IndexExists (env_idx E)) (\<lambda>(ex, err). case err of
     Some e \<Rightarrow> ret (False, Some e)
   | None \<Rightarrow> if ex then bnd (ix_TypeExists (env_idx E) CronDBMapping) (\<lambda>(ex, err). case err of
         Some e \<Rightarrow> ret (False, Some e) | None \<Rightarrow> ret (ex, None))
       else ret (ex, None)))"

definition CronDB_itemExists :: "'x env \<Rightarrow> ident \<Rightarrow> ('x world, bool \<times> err) go" where
  "CronDB_itemExists E i = on_crons (ix_ItemExists (env_idx E) CronDBMapping i)"

definition CronDB_DeleteByID :: "'x env \<Rightarrow> ident \<Rightarrow> ('x world, bool \<times> err) go" where
  "CronDB_DeleteByID E i = on_crons (bnd (ix_DeleteByID (env_idx E) CronDBMapping i)
     (\<lambda>r. lift (delete_result ''CronDB.DeleteById'' r)))"

section \<open>TestElasticsearchDB\<close>

text \<open>
  The message of a failed post ends with the type and the body (\<open>%#v\<close>), so it never ends with
  the index's own message.
\<close>

definition shown_body :: "testElasticsearchBody \<Rightarrow> string" where
  "shown_body b = ''&workflow.TestElasticsearchBody{ID:'' @ go_quote (te_ID b) @ '', Value:'' @
     itoa (te_Value b) @ ''}''"

definition TestElasticsearchDB_PostData ::
    "'x env \<Rightarrow> testElasticsearchBody \<Rightarrow> ident \<Rightarrow> ('x world, ident \<times> err) go" where
  "TestElasticsearchDB_PostData E b i =
     bnd (on_tests (ix_PostData (env_idx E) TestElasticsearchMapping i (enc_testBody b))) (\<lambda>(p, err).
       case err of
         Some e \<Rightarrow> ret ([], Some (''TestElasticsearchDB.PostData failed: '' @ e @ CHR 0x0A #
           go_quote TestElasticsearchMapping @ CHR 0x0A # shown_body b))
       | None \<Rightarrow> bnd (lift (deref p)) (\<lambda>ir.
           if \<not> Created ir then ret ([], Some ''TestElasticsearchDB.PostData failed: not created'')
           else ret (i, None)))"

definition TestElasticsearchDB_GetOne ::
    "'x env \<Rightarrow> ident \<Rightarrow> ('x world, testElasticsearchBody option \<times> bool \<times> err) go" where
  "TestElasticsearchDB_GetOne E i = on_tests (bnd (ix_GetByID (env_idx E) TestElasticsearchMapping i)
     (\<lambda>r. lift (get_result ''TestElasticsearchDB.GetOne'' found_in True dec_testBody id r)))"

definition TestElasticsearchDB_GetVersion :: "'x env \<Rightarrow> ('x world, string \<times> err) go" where
  "TestElasticsearchDB_GetVersion E = gets (\<lambda>w. (ix_GetVersion (env_idx E) (w_tests w), None))"

end
