(* ===== verification/Events.thy ===== *)
theory Events
  imports Databases Vars
begin

text \<open>
  \<open>EventDB\<close> (\<open>workflow/EventDB.go\<close>), with the service's \<open>GetEventType\<close>, which the check of an
  event against its type calls, and the functions that wrap an event's data under its type's
  name and unwrap it.
\<close>

section \<open>Wrapping under the event type's name\<close>

definition addUniqueParams :: "string \<Rightarrow> gomap \<Rightarrow> gomap" where
  "addUniqueParams uniqueKey inputObj = Some [(uniqueKey, of_gomap inputObj)]"

definition removeUniqueParams :: "string \<Rightarrow> gomap \<Rightarrow> gomap outcome" where
  "removeUniqueParams uniqueKey inputObj =
     (case map_of (entries_of inputObj) uniqueKey of
        None \<Rightarrow> Ret inputObj
      | Some v \<Rightarrow> assert_map v)"

lemma removeUniqueParams_add [simp]: "removeUniqueParams t (addUniqueParams t m) = Ret m"
  by (simp add: removeUniqueParams_def addUniqueParams_def)

text \<open>After storage a nil map has become JSON's null, and unwrapping it panics.\<close>

lemma wire_map_addUniqueParams: "wire_map (addUniqueParams t (Some kvs)) = addUniqueParams t (Some (wire_entries kvs))"
  by (simp add: wire_map_def addUniqueParams_def wire_entries_def of_gomap_def)

lemma removeUniqueParams_nil_data:
  "removeUniqueParams t (wire_map (addUniqueParams t None)) =
     Panic ''interface conversion: not map[string]interface {}''"
  by (simp add: removeUniqueParams_def addUniqueParams_def wire_map_def wire_entries_def of_gomap_def
      assert_map_def)

section \<open>GetEventType\<close>

definition Service_GetEventType :: "'x env \<Rightarrow> ident \<Rightarrow> string \<Rightarrow> ('x world, jsonResponse option) go" where
  "Service_GetEventType E i actor = recovered None (
     bnd (audit actor ''gettingEventType'' i) (\<lambda>_.
     bnd (EventTypeDB_GetOne E i) (\<lambda>(eventType, found, err).
       if \<not> found then bnd (audit actor ''gettingEventTypeFailure'' i) (\<lambda>_. statusNotFound E err)
       else if err \<noteq> None
         then bnd (audit actor ''gettingEventTypeFailure'' i) (\<lambda>_. statusBadRequest E err)
       else bnd (audit actor ''gotEventType'' i) (\<lambda>_.
         bnd (lift (deref eventType)) (\<lambda>et.
         bnd (lift (removeUniqueParams (et_Name et) (et_Mapping et))) (\<lambda>m.
           statusOK E (PEventType (et\<lparr>et_Mapping := m\<rparr>))))))))"

section \<open>The check of an event against its type\<close>

definition MappingElementTypeGeoPoint :: string where "MappingElementTypeGeoPoint = ''geo_point''"
definition MappingElementTypeGeoShape :: string where "MappingElementTypeGeoShape = ''geo_shape''"

definition ValueIsValidArray :: "val \<Rightarrow> bool" where
  "ValueIsValidArray v = (case v of VArr xs \<Rightarrow> True | _ \<Rightarrow> False)"

text \<open>Variables of geographic types may hold objects, which count as one variable.\<close>

definition geo_vars :: "entries \<Rightarrow> string list" where
  "geo_vars vars = map fst (filter (\<lambda>(k, v). sprint v = MappingElementTypeGeoPoint \<or>
     sprint v = MappingElementTypeGeoShape) vars)"

definition missing_keys :: "entries \<Rightarrow> entries \<Rightarrow> string list" where
  "missing_keys kvs kvs' = filter (\<lambda>k. map_of kvs' k = None) (map fst kvs)"

definition bracketed :: "string list \<Rightarrow> string" where
  "bracketed xs = ''['' @ join '' '' xs @ '']''"

definition array_mismatch :: "entries \<Rightarrow> string \<times> val \<Rightarrow> err" where
  "array_mismatch dataVars kv = (case map_of dataVars (fst kv) of
     None \<Rightarrow> None
   | Some v2 \<Rightarrow>
       if \<not> IsValidArrayTypeMapping (snd kv)
       then if ValueIsValidArray v2
         then Some (''EventDB.PostData failed: an array was passed into the non-array field '' @ fst kv)
         else None
       else if \<not> ValueIsValidArray v2
         then Some (''EventDB.PostData failed: a non-array was pasted into the array field '' @ fst kv)
         else None)"

text \<open>The pure part of the check: the variables of the mapping against those of the data.\<close>

definition check_vars :: "entries \<Rightarrow> entries \<Rightarrow> err" where
  "check_vars mappingVars dataVars =
     (if length mappingVars > length dataVars
      then Some (''EventDB.PostData failed: the variables '' @ bracketed (missing_keys mappingVars dataVars) @
             '' were specified in the EventType but were not found in the Event'')
      else if length mappingVars < length dataVars
      then Some (''EventDB.PostData failed: the variables '' @ bracketed (missing_keys dataVars mappingVars) @
             '' were not specified in the EventType but were found in the Event'')
      else (case find (\<lambda>kv. array_mismatch dataVars kv \<noteq> None) mappingVars of
              None \<Rightarrow> None | Some kv \<Rightarrow> array_mismatch dataVars kv))"

definition EventDB_verifyEventReadyToPost :: "'x env \<Rightarrow> event \<Rightarrow> ('x world, err) go" where
  "EventDB_verifyEventReadyToPost E ev =
     bnd (Service_GetEventType E (ev_EventTypeID ev) (ev_CreatedBy ev)) (\<lambda>eventTypeJson.
     bnd (lift (deref eventTypeJson)) (\<lambda>resp. case Data resp of
       PEventType eventType \<Rightarrow>
         (case GetVarsFromStruct (of_gomap (et_Mapping eventType)) of
            (_, Some e) \<Rightarrow> ret (Some (''EventDB.PostData failed: '' @ e))
          | (mappingVars, None) \<Rightarrow>
             bnd (lift (removeUniqueParams (et_Name eventType) (ev_Data ev))) (\<lambda>eventdata.
               case GetVarsFromStructSkip (of_gomap eventdata) (geo_vars (entries_of mappingVars)) of
                 (_, Some e) \<Rightarrow> ret (Some (''EventDB.PostData failed: '' @ e))
               | (dataVars, None) \<Rightarrow>
                   ret (check_vars (entries_of mappingVars) (entries_of dataVars))))
     | _ \<Rightarrow> ret (Some ''EventDB.PostData failed: unable to obtain specified eventtype'')))"

section \<open>EventDB\<close>

definition EventDB_PostData :: "'x env \<Rightarrow> event \<Rightarrow> string \<Rightarrow> ('x world, err) go" where
  "EventDB_PostData E ev typ0 = bnd (EventDB_verifyEventReadyToPost E ev) (\<lambda>err. case err of
     Some e \<Rightarrow> ret (Some e)
   | None \<Rightarrow> bnd (on_events (ix_PostData (env_idx E) typ0 (ev_EventID ev) (enc_event ev)))
       (\<lambda>r. lift (post_result ''EventDB.PostData'' r)))"

text \<open>The list methods take a type, or none for all of them.\<close>

definition list_events :: "'x env \<Rightarrow> string \<Rightarrow> string \<Rightarrow> ('x, event listing) go \<Rightarrow> ('x, event listing) go" where
  "list_events E which mtype rest =
     bnd (if mtype \<noteq> [] then ix_TypeExists (env_idx E) mtype else ret (True, None)) (\<lambda>(ex, err).
       case err of Some e \<Rightarrow> ret (Some [], 0, Some e)
       | None \<Rightarrow> if \<not> ex then ret (None, 0, Some (''Type '' @ mtype @ '' does not exist ('' @ which @ '')''))
           else rest)"

definition EventDB_GetAll :: "'x env \<Rightarrow> string \<Rightarrow> jsonPagination option \<Rightarrow> ('x world, event listing) go" where
  "EventDB_GetAll E mtype format = on_events (list_events E ''1'' mtype
     (bnd (ix_FilterByMatchAll (env_idx E) mtype format)
       (\<lambda>r. lift (list_result ''EventDB.GetAll'' dec_event r))))"

definition EventDB_GetEventsByDslQuery :: "'x env \<Rightarrow> string \<Rightarrow> string \<Rightarrow> ('x world, event listing) go" where
  "EventDB_GetEventsByDslQuery E mtype jsnString = on_events (list_events E ''2'' mtype
     (bnd (ix_SearchByJSON (env_idx E) mtype jsnString)
       (\<lambda>r. lift (list_result ''EventDB.GetEventsByDslQuery'' dec_event r))))"

definition EventDB_GetEventsByEventTypeID ::
    "'x env \<Rightarrow> jsonPagination option \<Rightarrow> string \<Rightarrow> ident \<Rightarrow> ('x world, event listing) go" where
  "EventDB_GetEventsByEventTypeID E format mtype eventTypeID = on_events (list_events E ''3'' mtype
     (bnd (ix_FilterByTermQuery (env_idx E) mtype ''eventTypeId'' (TermIdent eventTypeID) format)
       (\<lambda>r. lift (list_result ''EventDB.GetEventsByEventTypeId'' dec_event r))))"

text \<open>The first type that holds the event, in the order the index lists them.\<close>

primrec find_type :: "'x env \<Rightarrow> ident \<Rightarrow> string list \<Rightarrow> ('x, string \<times> err) go" where
  "find_type E i [] = ret ([], None)"
| "find_type E i (t # ts) = bnd (ix_ItemExists (env_idx E) t i) (\<lambda>(ok, err). case err of
     Some e \<Rightarrow> ret ([], Some e)
   | None \<Rightarrow> if ok then ret (t, None) else find_type E i ts)"

definition EventDB_lookupEventTypeNameByEventID :: "'x env \<Rightarrow> ident \<Rightarrow> ('x world, string \<times> err) go" where
  "EventDB_lookupEventTypeNameByEventID E i = on_events (
     bnd (ix_GetTypes (env_idx E)) (\<lambda>(types, err). case err of
       Some e \<Rightarrow> ret ([], Some e)
     | None \<Rightarrow> bnd (find_type E i types) (\<lambda>(mtype, err). case err of
         Some e \<Rightarrow> ret ([], Some e)
       | None \<Rightarrow> if mtype = []
           then ret ([], Some (''EventDB.lookupEventTypeNameByEventID failed: [Item '' @ i @
                  '' in index events does not exist]''))
           else ret (mtype, None))))"

definition EventDB_NameExists :: "'x env \<Rightarrow> string \<Rightarrow> ('x world, bool \<times> err) go" where
  "EventDB_NameExists E name = on_events (ix_TypeExists (env_idx E) name)"

definition EventDB_GetOne :: "'x env \<Rightarrow> string \<Rightarrow> ident \<Rightarrow> ('x world, event option \<times> bool \<times> err) go" where
  "EventDB_GetOne E mtype i = on_events (bnd (ix_GetByID (env_idx E) mtype i)
     (\<lambda>r. lift (get_result ''EventDB.GetOne'' not_found True dec_event id r)))"

definition EventDB_DeleteByID :: "'x env \<Rightarrow> string \<Rightarrow> ident \<Rightarrow> ('x world, bool \<times> err) go" where
  "EventDB_DeleteByID E mtype i = on_events (bnd (ix_DeleteByID (env_idx E) mtype i)
     (\<lambda>r. lift (delete_result ''EventDB.DeleteById'' r)))"

definition EventDB_AddMapping :: "'x env \<Rightarrow> string \<Rightarrow> gomap \<Rightarrow> ('x world, err) go" where
  "EventDB_AddMapping E name m = (case ConstructEventMappingSchema name m of
     Inl e \<Rightarrow> ret (Some (''EventDB.AddMapping failed: '' @ e))
   | Inr jsn \<Rightarrow> bnd (on_events (ix_SetMapping (env_idx E) name jsn)) (\<lambda>err. case err of
       Some e \<Rightarrow> ret (Some (''EventDB.AddMapping SetMapping failed: '' @ e)) | None \<Rightarrow> ret None))"

definition EventDB_PercolateEventData ::
    "'x env \<Rightarrow> string \<Rightarrow> gomap \<Rightarrow> ('x world, ident list option \<times> err) go" where
  "EventDB_PercolateEventData E eventType d =
     bnd (on_events (ix_AddPercolationDocument (env_idx E) eventType (VMap [(''data'', of_gomap d)]))) (\<lambda>(r, err).
       case err of Some e \<Rightarrow> ret (None, Some (''EventDB.PercolateEventData failed: '' @ e))
       | None \<Rightarrow> (case r of
           None \<Rightarrow> ret (None, Some ''EventDB.PercolateEventData failed: no percolateResult'')
         | Some p \<Rightarrow> ret (Some (map prm_Id (pr_Matches p)), None)))"

end
