(* ===== verification/EventTypeHandlers.thy ===== *)
theory EventTypeHandlers
  imports Events
begin

text \<open>
  The event type handlers of the service (\<open>workflow/Service.go\<close>): \<open>GetStats\<close>,
  \<open>GetAllEventTypes\<close>, \<open>QueryEventTypes\<close>, \<open>PostEventType\<close>, \<open>DeleteEventType\<close>
  (\<open>GetEventType\<close> is in \<open>Events\<close>).
\<close>

section \<open>What the handlers share\<close>

definition ingestTypeName :: string where "ingestTypeName = ''piazza:ingest''"
definition executeTypeName :: string where "executeTypeName = ''piazza:executionComplete''"

definition IsSystemEvent :: "string \<Rightarrow> bool" where
  "IsSystemEvent name \<longleftrightarrow> name = ingestTypeName \<or> name = executeTypeName"

abbreviation the_user :: string where "the_user \<equiv> ''pz-workflow''"

text \<open>\<open>format.Count = int(totalHits); resp.Pagination = format\<close>\<close>

definition with_pagination ::
    "jsonPagination \<Rightarrow> int \<Rightarrow> jsonResponse option \<Rightarrow> jsonResponse option outcome" where
  "with_pagination format total_hits resp = obind (deref resp) (\<lambda>r.
     Ret (Some (r\<lparr>Pagination := Some (format\<lparr>Count := total_hits\<rparr>)\<rparr>)))"

text \<open>An error is a response, a success goes on.\<close>

definition or_status :: "(err \<Rightarrow> ('w, 'b) go) \<Rightarrow> string + 'a \<Rightarrow> ('a \<Rightarrow> ('w, 'b) go) \<Rightarrow> ('w, 'b) go" where
  "or_status status r k = (case r of Inl e \<Rightarrow> status (Some e) | Inr x \<Rightarrow> k x)"

lemma or_status_simps [simp]:
  "or_status status (Inl e) k = status (Some e)" "or_status status (Inr x) k = k x"
  by (simp_all add: or_status_def)

text \<open>A failed request is audited, then answered.\<close>

definition fail_with :: "string \<Rightarrow> string \<Rightarrow> string \<Rightarrow> ('x world, 'a) go \<Rightarrow> ('x world, 'a) go" where
  "fail_with actor action actee status = bnd (audit actor action actee) (\<lambda>_. status)"

definition upd_stats :: "(stats \<Rightarrow> stats) \<Rightarrow> ('x world, unit) go" where
  "upd_stats f = modify (w_stats_update f)"

lemma upd_stats_app [go_simps]: "upd_stats f w = (Ret (), w\<lparr>w_stats := f (w_stats w)\<rparr>)"
  by (simp add: upd_stats_def modify_def)

definition Service_GetStats :: "'x env \<Rightarrow> ('x world, jsonResponse option) go" where
  "Service_GetStats E = recovered None (bnd (gets w_stats) (\<lambda>t. statusOK E (PStats t)))"

text \<open>Unwrapping the mapping of every event type of a list.\<close>

definition unwrap_mapping :: "eventType \<Rightarrow> eventType outcome" where
  "unwrap_mapping et = obind (removeUniqueParams (et_Name et) (et_Mapping et)) (\<lambda>m. Ret (et\<lparr>et_Mapping := m\<rparr>))"

section \<open>Listing event types\<close>

definition eventTypes_by_name :: "'x env \<Rightarrow> jsonPagination \<Rightarrow> string \<Rightarrow>
    ('x world, jsonResponse option + eventType listing) go" where
  "eventTypes_by_name E format nameParam =
     bnd (EventTypeDB_GetIDByName E (Some format) nameParam) (\<lambda>(eventtypeid, foundName, err).
       case eventtypeid of
         Some i \<Rightarrow>
           if foundName
           then if err \<noteq> None
             then bnd (fail_with the_user ''gettingAllEventTypesFailure'' EventTypeDBMapping
                    (statusBadRequest E err)) (\<lambda>r. ret (Inl r))
             else bnd (EventTypeDB_GetOne E i) (\<lambda>(eventtype, foundType, err).
               if err \<noteq> None
               then bnd (fail_with the_user ''gettingAllEventTypesFailure'' EventTypeDBMapping
                      (statusInternalError E err)) (\<lambda>r. ret (Inl r))
               else (case eventtype of
                   Some et \<Rightarrow> ret (Inr (if foundType then (Some [et], 1, None) else (Some [], 0, None)))
                 | None \<Rightarrow> ret (Inr (Some [], 0, None))))
           else ret (Inr (Some [], 0, None))
       | None \<Rightarrow> ret (Inr (Some [], 0, None)))"

definition Service_GetAllEventTypes :: "'x env \<Rightarrow> httpQueryParams \<Rightarrow> ('x world, jsonResponse option) go" where
  "Service_GetAllEventTypes E params = recovered None (
     or_status (statusBadRequest E) (NewJsonPagination params) (\<lambda>format.
     or_status (statusBadRequest E) (GetAsString params ''name'' []) (\<lambda>nameParam.
     bnd (audit the_user ''gettingAllEventTypes'' EventTypeDBMapping) (\<lambda>_.
     bnd (if nameParam \<noteq> [] then eventTypes_by_name E format nameParam
          else bnd (EventTypeDB_GetAll E (Some format)) (\<lambda>(ets, n, err).
            if err \<noteq> None
            then bnd (fail_with the_user ''gettingAllEventTypesFailure'' EventTypeDBMapping
                   (statusInternalError E err)) (\<lambda>r. ret (Inl r))
            else ret (Inr (ets, n, err)))) (\<lambda>step. case step of
       Inl r \<Rightarrow> ret r
     | Inr (None, n, err) \<Rightarrow> fail_with the_user ''gettingAllEventTypesFailure'' EventTypeDBMapping
         (statusInternalError E (Some ''getalleventtypes returned nil''))
     | Inr (Some ets, n, err) \<Rightarrow>
         bnd (lift (omap unwrap_mapping ets)) (\<lambda>ets'.
         bnd (statusOK E (PEventTypes ets')) (\<lambda>resp.
         bnd (audit the_user ''gotAllEventTypes'' EventTypeDBMapping) (\<lambda>_.
           lift (with_pagination format n resp)))))))))"

definition Service_QueryEventTypes ::
    "'x env \<Rightarrow> string \<Rightarrow> httpQueryParams \<Rightarrow> ('x world, jsonResponse option) go" where
  "Service_QueryEventTypes E dslString0 params = recovered None (
     or_status (statusBadRequest E) (NewJsonPagination params) (\<lambda>format0.
     bnd (lift (SyncPagination format0 dslString0)) (\<lambda>(sync, format).
     or_status (statusBadRequest E) sync (\<lambda>dslString.
     bnd (audit the_user ''queryingEventTypes'' EventTypeDBMapping) (\<lambda>_.
     bnd (EventTypeDB_GetEventTypesByDslQuery E dslString) (\<lambda>(ets, n, err).
       if err \<noteq> None
       then fail_with the_user ''queryingEventTypesFailure'' EventTypeDBMapping (statusBadRequest E err)
       else (case ets of
           None \<Rightarrow> fail_with the_user ''queryingEventTypesFailure'' EventTypeDBMapping
             (statusInternalError E (Some ''queryeventtypes returned nil''))
         | Some l \<Rightarrow>
             bnd (lift (omap unwrap_mapping l)) (\<lambda>l'.
             bnd (statusOK E (PEventTypes l')) (\<lambda>resp.
             bnd (audit the_user ''queriedEventTypes'' EventTypeDBMapping) (\<lambda>_.
               lift (with_pagination format n resp)))))))))))"

section \<open>Posting and deleting event types\<close>

definition duplicate_name_error :: "ident option \<Rightarrow> string" where
  "duplicate_name_error i = ''EventType Name already exists under EventTypeId '' @
     (case i of None \<Rightarrow> ''<nil>'' | Some s \<Rightarrow> s)"

definition tilde_error :: "string \<Rightarrow> string \<Rightarrow> string" where
  "tilde_error name k = ''EventTypeDB.PostData failed: Variable names cannot contain '' @ [CHR 0x27] @
     name @ ''~'' @ [CHR 0x27] @ '': ['' @ k @ '']''"

text \<open>Storing a checked event type: the document first, then the mapping of its events.\<close>

definition store_eventType :: "'x env \<Rightarrow> eventType \<Rightarrow> eventType \<Rightarrow> ('x world, jsonResponse option) go" where
  "store_eventType E et response =
     bnd (audit (et_CreatedBy et) ''creatingEventType'' (et_EventTypeID et)) (\<lambda>_.
     bnd (EventTypeDB_PostData E et) (\<lambda>err. case err of
       Some e \<Rightarrow> fail_with (et_CreatedBy et) ''creatingEventTypeFailure'' (et_EventTypeID et)
         (if hasSuffix e ''was not recognized as a valid mapping type''
          then statusBadRequest E (Some e) else statusInternalError E (Some e))
     | None \<Rightarrow> bnd (EventDB_AddMapping E (et_Name et) (et_Mapping et)) (\<lambda>err. case err of
         Some e \<Rightarrow> bnd (audit (et_CreatedBy et) ''creatingEventTypeFailure'' (et_EventTypeID et)) (\<lambda>_.
           bnd (EventTypeDB_DeleteByID E (et_EventTypeID et)) (\<lambda>_. statusInternalError E (Some e)))
       | None \<Rightarrow> bnd (audit (et_CreatedBy et) ''createdEventType'' (et_EventTypeID et)) (\<lambda>_.
           bnd (upd_stats IncrEventTypes) (\<lambda>_. statusCreated E (PEventType response))))))"

definition Service_PostEventType :: "'x env \<Rightarrow> eventType \<Rightarrow> ('x world, jsonResponse option) go" where
  "Service_PostEventType E et0 = recovered None (
     bnd (EventDB_NameExists E (et_Name et0)) (\<lambda>(found, err).
     if err \<noteq> None then statusInternalError E err
     else if found then statusBadRequest E (Some ''EventType Name already exists'')
     else bnd (EventTypeDB_GetIDByName E None (et_Name et0)) (\<lambda>(id1, found, err).
     if err \<noteq> None then statusInternalError E err
     else if found then statusBadRequest E (Some (duplicate_name_error id1))
     else bnd (newIdent E) (\<lambda>i. bnd (NewTimeStamp E) (\<lambda>t.
       let et = et0\<lparr>et_EventTypeID := i, et_CreatedOn := t\<rparr> in
       case GetVarsFromStruct (of_gomap (et_Mapping et)) of
         (_, Some e) \<Rightarrow> statusBadRequest E (Some (''EventTypeDB.PostData failed: '' @ e))
       | (vars, None) \<Rightarrow> (case find (\<lambda>(k, v). str_contains k ''~'') (entries_of vars) of
           Some (k, v) \<Rightarrow> statusBadRequest E (Some (tilde_error (et_Name et) k))
         | None \<Rightarrow> store_eventType E
             (et\<lparr>et_Mapping := addUniqueParams (et_Name et) (et_Mapping et)\<rparr>) et))))))"

text \<open>Whether an event type is in use, by triggers or events.\<close>

definition in_use :: "'a listing \<Rightarrow> bool" where
  "in_use r = (case r of (xs, n, err) \<Rightarrow> n > 0 \<or> (case xs of None \<Rightarrow> False | Some l \<Rightarrow> l \<noteq> []))"

definition Service_DeleteEventType :: "'x env \<Rightarrow> ident \<Rightarrow> ('x world, jsonResponse option) go" where
  "Service_DeleteEventType E i = recovered None (
     bnd (EventTypeDB_GetOne E i) (\<lambda>(eventType, found, err).
     if \<not> found then fail_with the_user ''deletingEventTypeFailure'' i (statusNotFound E err)
     else if err \<noteq> None then fail_with the_user ''deletingEventTypeFailure'' i (statusBadRequest E err)
     else if (case eventType of None \<Rightarrow> False | Some et \<Rightarrow> IsSystemEvent (et_Name et))
       then statusBadRequest E (Some ''Deleting system eventTypes is prohibited'')
     else bnd (TriggerDB_GetTriggersByEventTypeID E None i) (\<lambda>triggers.
     if snd (snd triggers) \<noteq> None then statusBadRequest E (snd (snd triggers))
     else if in_use triggers
       then statusForbidden E (Some ''Deleting eventTypes that are in use is prohibited'')
     else bnd (lift (deref eventType)) (\<lambda>et.
     bnd (EventDB_GetEventsByEventTypeID E None (et_Name et) i) (\<lambda>events.
     if snd (snd events) \<noteq> None then statusBadRequest E (snd (snd events))
     else if in_use events
       then statusForbidden E (Some ''Deleting eventTypes that are in use is prohibited'')
     else bnd (audit the_user ''deletingEventType'' i) (\<lambda>_.
     bnd (EventTypeDB_DeleteByID E i) (\<lambda>(ok, err).
     if \<not> ok then fail_with the_user ''deletingEventTypeFailure'' i (statusNotFound E err)
     else if err \<noteq> None then fail_with the_user ''deletingEventTypeFailure'' i (statusBadRequest E err)
     else bnd (audit the_user ''deletedEventType'' i) (\<lambda>_. statusOK E PNil))))))))"

end
