(* ===== verification/AlertHandlers.thy ===== *)
theory AlertHandlers
  imports EventTypeHandlers
begin

text \<open>
  The trigger and alert handlers of the service (\<open>workflow/Service.go\<close>), with the inflation of
  alerts and the two handlers of the Elasticsearch test.
\<close>

section \<open>Triggers\<close>

definition Service_GetTrigger :: "'x env \<Rightarrow> ident \<Rightarrow> ('x world, jsonResponse option) go" where
  "Service_GetTrigger E i = recovered None (
     bnd (audit the_user ''gettingTrigger'' i) (\<lambda>_.
     bnd (TriggerDB_GetOne E i) (\<lambda>(trigger, found, err).
     if \<not> found then fail_with the_user ''gettingTriggerFailure'' i (statusNotFound E err)
     else if err \<noteq> None then fail_with the_user ''gettingTriggerFailure'' i (statusBadRequest E err)
     else bnd (lift (deref trigger)) (\<lambda>t.
     bnd (EventTypeDB_GetOne E (tr_EventTypeID t)) (\<lambda>(eventType, found, err).
     if err \<noteq> None \<or> \<not> found
       then fail_with the_user ''gettingTriggerFailure'' i (statusBadRequest E err)
     else bnd (audit the_user ''gotTrigger'' i) (\<lambda>_.
       bnd (lift (deref eventType)) (\<lambda>et.
       bnd (lift (removeUniqueParams (et_Name et) (tr_Condition t))) (\<lambda>c.
         statusOK E (PTrigger (t\<lparr>tr_Condition := c\<rparr>))))))))))"

text \<open>
  Listing all triggers skips one whose event type is gone; a query fails on it.
\<close>

definition unwrap_condition :: "'x env \<Rightarrow> trigger \<Rightarrow> ('x world, err + trigger) go" where
  "unwrap_condition E t = bnd (EventTypeDB_GetOne E (tr_EventTypeID t)) (\<lambda>(eventType, found, err).
     if err \<noteq> None \<or> \<not> found then ret (Inl err)
     else bnd (lift (deref eventType)) (\<lambda>et.
       bnd (lift (removeUniqueParams (et_Name et) (tr_Condition t))) (\<lambda>c.
         ret (Inr (t\<lparr>tr_Condition := c\<rparr>)))))"

definition unwrap_or_keep :: "'x env \<Rightarrow> trigger \<Rightarrow> ('x world, trigger) go" where
  "unwrap_or_keep E t = bnd (unwrap_condition E t) (\<lambda>r. ret (case r of Inl e \<Rightarrow> t | Inr t' \<Rightarrow> t'))"

definition Service_GetAllTriggers :: "'x env \<Rightarrow> httpQueryParams \<Rightarrow> ('x world, jsonResponse option) go" where
  "Service_GetAllTriggers E params = recovered None (
     or_status (statusBadRequest E) (NewJsonPagination params) (\<lambda>format.
     bnd (audit the_user ''gettingAllTriggers'' TriggerDBMapping) (\<lambda>_.
     bnd (TriggerDB_GetAll E (Some format)) (\<lambda>(ts, n, err).
     if err \<noteq> None
       then fail_with the_user ''gettingAllTriggersFailure'' TriggerDBMapping (statusInternalError E err)
     else (case ts of
         None \<Rightarrow> fail_with the_user ''gettingAllTriggersFailure'' TriggerDBMapping
           (statusInternalError E (Some ''GetAllTriggers returned nil''))
       | Some l \<Rightarrow>
           bnd (mapM (unwrap_or_keep E) l) (\<lambda>l'.
           bnd (statusOK E (PTriggers l')) (\<lambda>resp.
           bnd (audit the_user ''gotAllTriggers'' TriggerDBMapping) (\<lambda>_.
             lift (with_pagination format n resp)))))))))"

text \<open>The loop of \<open>QueryTriggers\<close> stops at the first trigger it cannot unwrap: its error.\<close>

primrec unwrap_conditions :: "'x env \<Rightarrow> trigger list \<Rightarrow> ('x world, err + trigger list) go" where
  "unwrap_conditions E [] = ret (Inr [])"
| "unwrap_conditions E (t # ts) = bnd (unwrap_condition E t) (\<lambda>r. case r of
     Inl e \<Rightarrow> ret (Inl e)
   | Inr t' \<Rightarrow> bnd (unwrap_conditions E ts) (\<lambda>rs. ret (case rs of
       Inl e \<Rightarrow> Inl e | Inr ts' \<Rightarrow> Inr (t' # ts'))))"

definition Service_QueryTriggers ::
    "'x env \<Rightarrow> string \<Rightarrow> httpQueryParams \<Rightarrow> ('x world, jsonResponse option) go" where
  "Service_QueryTriggers E dslString0 params = recovered None (
     or_status (statusBadRequest E) (NewJsonPagination params) (\<lambda>format0.
     bnd (audit the_user ''queryingTriggers'' TriggerDBMapping) (\<lambda>_.
     bnd (lift (SyncPagination format0 dslString0)) (\<lambda>(sync, format).
     or_status (\<lambda>e. fail_with the_user ''queryingTriggersFailure'' TriggerDBMapping (statusBadRequest E e))
       sync (\<lambda>dslString.
     bnd (TriggerDB_GetTriggersByDslQuery E dslString) (\<lambda>(ts, n, err).
     if err \<noteq> None
       then fail_with the_user ''queryingTriggersFailure'' TriggerDBMapping (statusBadRequest E err)
     else (case ts of
         None \<Rightarrow> fail_with the_user ''queryingTriggersFailure'' TriggerDBMapping
           (statusInternalError E (Some ''QueryTriggers returned nil''))
       | Some l \<Rightarrow> bnd (unwrap_conditions E l) (\<lambda>r. case r of
           Inl e \<Rightarrow> fail_with the_user ''queryingTriggersFailure'' TriggerDBMapping (statusBadRequest E e)
         | Inr l' \<Rightarrow>
           bnd (statusOK E (PTriggers l')) (\<lambda>resp.
           bnd (audit the_user ''queriedTriggers'' TriggerDBMapping) (\<lambda>_.
             lift (with_pagination format n resp)))))))))))"

text \<open>
  \<open>PostTrigger\<close> answers with the trigger as posted, and stores it with the event type's name
  in the paths of its condition.
\<close>

definition Service_PostTrigger :: "'x env \<Rightarrow> trigger \<Rightarrow> ('x world, jsonResponse option) go" where
  "Service_PostTrigger E t0 = recovered None (
     bnd (newIdent E) (\<lambda>i. bnd (NewTimeStamp E) (\<lambda>now_text.
     let t = t0\<lparr>tr_TriggerID := i, tr_CreatedOn := now_text\<rparr> in
     if tr_EventTypeID t = []
       then statusBadRequest E (Some ''TriggerDB.PostData failed: no eventTypeId was specified'')
     else bnd (EventTypeDB_GetOne E (tr_EventTypeID t)) (\<lambda>(eventType, found, err).
     if \<not> found \<or> err \<noteq> None
       then statusBadRequest E (Some (''TriggerDB.PostData failed: eventType '' @ tr_EventTypeID t @ '' could not be found''))
     else bnd (lift (deref eventType)) (\<lambda>et.
     case as_map (handleUniqueParams (of_gomap (tr_Condition t)) (et_Name et) add_type_name) of
       None \<Rightarrow> statusBadRequest E (Some ''TriggerEB.PostData failed: failed to parse query'')
     | Some fixedQuery \<Rightarrow>
         let stored = t\<lparr>tr_Condition := fixedQuery\<rparr> in
         bnd (audit (tr_CreatedBy t) ''creatingTrigger'' (tr_TriggerID t)) (\<lambda>_.
         bnd (TriggerDB_PostData E stored) (\<lambda>err.
         if err \<noteq> None
           then fail_with (tr_CreatedBy t) ''creatingTriggerFailure'' (tr_TriggerID t) (statusBadRequest E err)
         else bnd (audit (tr_CreatedBy t) ''createdTrigger'' (tr_TriggerID t)) (\<lambda>_.
           bnd (upd_stats IncrTriggers) (\<lambda>_. statusCreated E (PTrigger t))))))))))"

definition Service_PutTrigger :: "'x env \<Rightarrow> ident \<Rightarrow> triggerUpdate \<Rightarrow> ('x world, jsonResponse option) go" where
  "Service_PutTrigger E i update = recovered None (
     bnd (TriggerDB_GetOne E i) (\<lambda>(trigger, found, err).
     if \<not> found then statusNotFound E err
     else if err \<noteq> None then statusBadRequest E err
     else bnd (audit the_user ''updatingTrigger'' i) (\<lambda>_.
     bnd (lift (deref trigger)) (\<lambda>t.
     bnd (TriggerDB_PutTrigger E t update) (\<lambda>(t', err).
     if err \<noteq> None then fail_with the_user ''updatingTriggerFailure'' i (statusBadRequest E err)
     else bnd (audit the_user ''updatedTrigger'' i) (\<lambda>_. statusPutOK E ''Updated trigger''))))))"

definition Service_DeleteTrigger :: "'x env \<Rightarrow> ident \<Rightarrow> ('x world, jsonResponse option) go" where
  "Service_DeleteTrigger E i = recovered None (
     bnd (audit the_user ''deletingTrigger'' i) (\<lambda>_.
     bnd (TriggerDB_DeleteTrigger E i) (\<lambda>(ok, err).
     if \<not> ok then fail_with the_user ''deletingTriggerFailure'' i (statusNotFound E err)
     else if err \<noteq> None then fail_with the_user ''deletingTriggerFailure'' i (statusBadRequest E err)
     else bnd (audit the_user ''deletedTrigger'' i) (\<lambda>_. statusOK E PNil))))"

section \<open>Alerts\<close>

definition Service_GetAlert :: "'x env \<Rightarrow> ident \<Rightarrow> ('x world, jsonResponse option) go" where
  "Service_GetAlert E i = recovered None (
     bnd (audit the_user ''gettingAlert'' i) (\<lambda>_.
     bnd (AlertDB_GetOne E i) (\<lambda>(alert, found, err).
     if \<not> found then fail_with the_user ''gettingAlertFailure'' i (statusNotFound E err)
     else if err \<noteq> None then fail_with the_user ''gettingAlertFailure'' i (statusBadRequest E err)
     else bnd (audit the_user ''gotAlert'' i) (\<lambda>_.
       bnd (lift (deref alert)) (\<lambda>a. statusOK E (PAlert a))))))"

definition zero_trigger :: trigger where
  "zero_trigger = \<lparr>tr_TriggerID = [], tr_Name = [], tr_EventTypeID = [], tr_Condition = None,
     tr_Job = \<lparr>jr_CreatedBy = [], jr_JobType = \<lparr>jt_Data = None, jt_Type = []\<rparr>\<rparr>,
     tr_PercolationID = [], tr_CreatedBy = [], tr_CreatedOn = zero_time, tr_Enabled = False\<rparr>"

definition zero_event :: event where
  "zero_event = \<lparr>ev_EventID = [], ev_EventTypeID = [], ev_Data = None, ev_CreatedBy = [],
     ev_CreatedOn = zero_time, ev_CronSchedule = []\<rparr>"

text \<open>Inflation replaces a trigger or event that is not found by one with its identifier only.\<close>

definition Service_inflateAlert :: "'x env \<Rightarrow> alert \<Rightarrow> ('x world, alertExt) go" where
  "Service_inflateAlert E a =
     bnd (TriggerDB_GetOne E (al_TriggerID a)) (\<lambda>(trigger, found, err).
     let tp = (if err \<noteq> None \<or> \<not> found then Some (zero_trigger\<lparr>tr_TriggerID := al_TriggerID a\<rparr>)
               else trigger) in
     bnd (EventDB_lookupEventTypeNameByEventID E (al_EventID a)) (\<lambda>(mtype, _).
     bnd (EventDB_GetOne E mtype (al_EventID a)) (\<lambda>(event, found, err).
     let ep = (if err \<noteq> None \<or> \<not> found then Some (zero_event\<lparr>ev_EventID := al_EventID a\<rparr>)
               else event) in
     bnd (lift (deref tp)) (\<lambda>t. bnd (lift (deref ep)) (\<lambda>ev.
       ret \<lparr>ax_AlertID = al_AlertID a, ax_Trigger = t, ax_Event = ev, ax_JobID = al_JobID a,
            ax_CreatedBy = al_CreatedBy a, ax_CreatedOn = al_CreatedOn a\<rparr>)))))"

definition Service_inflateAlerts :: "'x env \<Rightarrow> alert list \<Rightarrow> ('x world, alertExt list) go" where
  "Service_inflateAlerts E alerts = mapM (Service_inflateAlert E) alerts"

definition answer_alerts :: "'x env \<Rightarrow> httpQueryParams \<Rightarrow> jsonPagination \<Rightarrow> string \<Rightarrow> alert list \<Rightarrow> int \<Rightarrow>
    ('x world, jsonResponse option) go" where
  "answer_alerts E params format action alerts n =
     bnd (if getInflateParam params
          then bnd (Service_inflateAlerts E alerts) (\<lambda>exts. statusOK E (PAlertExts exts))
          else statusOK E (PAlerts alerts)) (\<lambda>resp.
     bnd (audit the_user action AlertDBMapping) (\<lambda>_. lift (with_pagination format n resp)))"

definition Service_GetAllAlerts :: "'x env \<Rightarrow> httpQueryParams \<Rightarrow> ('x world, jsonResponse option) go" where
  "Service_GetAllAlerts E params = recovered None (
     or_status (statusBadRequest E) (GetAsID params ''triggerId'' []) (\<lambda>triggerID.
     or_status (statusBadRequest E) (NewJsonPagination params) (\<lambda>format.
     bnd (audit the_user ''gettingAllAlerts'' AlertDBMapping) (\<lambda>_.
     if triggerID \<noteq> [] \<and> \<not> ValidUuid triggerID
       then fail_with the_user ''gettingAllAlertsFailure'' AlertDBMapping
         (statusBadRequest E (Some ''Malformed triggerId query parameter''))
     else bnd (if triggerID \<noteq> [] then AlertDB_GetAllByTrigger E (Some format) triggerID
               else AlertDB_GetAll E (Some format)) (\<lambda>(alerts, n, err).
     if err \<noteq> None
       then fail_with the_user ''gettingAllAlertsFailure'' AlertDBMapping (statusInternalError E err)
     else (case alerts of
         None \<Rightarrow> fail_with the_user ''gettingAllAlertsFailure'' AlertDBMapping
           (statusInternalError E (Some ''GetAllAlerts returned nil''))
       | Some l \<Rightarrow> answer_alerts E params format ''gotAllAlerts'' l n))))))"

definition Service_QueryAlerts ::
    "'x env \<Rightarrow> string \<Rightarrow> httpQueryParams \<Rightarrow> ('x world, jsonResponse option) go" where
  "Service_QueryAlerts E dslString0 params = recovered None (
     or_status (statusBadRequest E) (NewJsonPagination params) (\<lambda>format0.
     bnd (audit the_user ''queryingAlerts'' AlertDBMapping) (\<lambda>_.
     bnd (lift (SyncPagination format0 dslString0)) (\<lambda>(sync, format).
     or_status (\<lambda>e. fail_with the_user ''queryingAlertsFailure'' AlertDBMapping (statusBadRequest E e))
       sync (\<lambda>dslString.
     bnd (AlertDB_GetAlertsByDslQuery E dslString) (\<lambda>(alerts, n, err).
     if err \<noteq> None
       then fail_with the_user ''queryingAlertsFailure'' AlertDBMapping (statusBadRequest E err)
     else (case alerts of
         None \<Rightarrow> fail_with the_user ''queryingAlertsFailure'' AlertDBMapping
           (statusInternalError E (Some ''QueryAlerts returned nil''))
       | Some l \<Rightarrow> answer_alerts E params format ''queriedAlerts'' l n)))))))"

definition Service_PostAlert :: "'x env \<Rightarrow> alert \<Rightarrow> ('x world, jsonResponse option) go" where
  "Service_PostAlert E a0 = recovered None (
     bnd (newIdent E) (\<lambda>i. bnd (NewTimeStamp E) (\<lambda>now_text.
     let a = a0\<lparr>al_AlertID := i, al_CreatedOn := now_text\<rparr> in
     bnd (audit (al_CreatedBy a) ''creatingAlert'' (al_AlertID a)) (\<lambda>_.
     bnd (AlertDB_PostData E a) (\<lambda>err.
     if err \<noteq> None
       then fail_with (al_CreatedBy a) ''creatingAlertFailure'' (al_AlertID a) (statusInternalError E err)
     else bnd (audit (al_CreatedBy a) ''createdAlert'' (al_AlertID a)) (\<lambda>_.
       bnd (upd_stats IncrAlerts) (\<lambda>_. statusCreated E (PAlert a))))))))"

definition Service_DeleteAlert :: "'x env \<Rightarrow> ident \<Rightarrow> ('x world, jsonResponse option) go" where
  "Service_DeleteAlert E i = recovered None (
     bnd (audit the_user ''deletingAlert'' i) (\<lambda>_.
     bnd (AlertDB_DeleteByID E i) (\<lambda>(ok, err).
     if \<not> ok then fail_with the_user ''deletingAlertFailure'' i (statusNotFound E err)
     else if err \<noteq> None then fail_with the_user ''deletingAlertFailure'' i (statusBadRequest E err)
     else bnd (audit the_user ''deletedAlert'' i) (\<lambda>_. statusOK E PNil))))"

section \<open>The Elasticsearch test\<close>

definition Service_TestElasticsearchVersion :: "'x env \<Rightarrow> ('x world, jsonResponse option) go" where
  "Service_TestElasticsearchVersion E = recovered None (
     bnd (TestElasticsearchDB_GetVersion E) (\<lambda>(version, err).
     if err \<noteq> None then statusBadRequest E err
     else if version = []
       then statusInternalError E (Some ''Service.TestElasticsearchVersion returned nil'')
     else ret (Some (data_response 200 (PString version)))))"

definition Service_TestElasticsearchGetOne :: "'x env \<Rightarrow> ident \<Rightarrow> ('x world, jsonResponse option) go" where
  "Service_TestElasticsearchGetOne E i = recovered None (
     bnd (TestElasticsearchDB_GetOne E i) (\<lambda>(body, found, err).
     if \<not> found then statusNotFound E err
     else if err \<noteq> None then statusBadRequest E err
     else bnd (lift (deref body)) (\<lambda>b. statusOK E (PTestBody b))))"

definition Service_TestElasticsearchPost ::
    "'x env \<Rightarrow> testElasticsearchBody \<Rightarrow> ('x world, jsonResponse option) go" where
  "Service_TestElasticsearchPost E b0 = recovered None (
     bnd (newIdent E) (\<lambda>i. let b = b0\<lparr>te_ID := i\<rparr> in
     bnd (TestElasticsearchDB_PostData E b (te_ID b)) (\<lambda>(_, err). case err of
       Some e \<Rightarrow> if hasSuffix e ''was not recognized as a valid mapping type''
         then statusBadRequest E (Some e) else statusInternalError E (Some e)
     | None \<Rightarrow> statusCreated E (PTestBody b))))"

end
