(* ===== verification/EventHandlers.thy ===== *)
theory EventHandlers
  imports AlertHandlers
begin

text \<open>
  The event handlers of the service (\<open>workflow/Service.go\<close>): reading, querying and deleting
  events; \<open>PostEvent\<close>, which percolates the event and fires the matching triggers;
  repeating events and the cron jobs behind them.
\<close>

section \<open>Reading events\<close>

definition Service_GetEvent :: "'x env \<Rightarrow> ident \<Rightarrow> ('x world, jsonResponse option) go" where
  "Service_GetEvent E i = recovered None (
     bnd (EventDB_lookupEventTypeNameByEventID E i) (\<lambda>(mtype, err).
     if mtype = [] then statusNotFound E err
     else if err \<noteq> None then statusBadRequest E err
     else bnd (audit the_user ''gettingEvent'' i) (\<lambda>_.
     bnd (EventDB_GetOne E mtype i) (\<lambda>(event, found, err).
     if \<not> found then fail_with the_user ''gettingEventFailure'' i (statusNotFound E err)
     else if err \<noteq> None then fail_with the_user ''gettingEventFailure'' i (statusBadRequest E err)
     else bnd (audit the_user ''gotEvent'' i) (\<lambda>_.
       bnd (lift (deref event)) (\<lambda>ev.
       bnd (lift (removeUniqueParams mtype (ev_Data ev))) (\<lambda>d.
         statusOK E (PEvent (ev\<lparr>ev_Data := d\<rparr>)))))))))"

text \<open>The type to search in: of the event type given by identifier, or by name, or all of them.\<close>

definition query_type :: "'x env \<Rightarrow> string \<Rightarrow> string \<Rightarrow> ('x world, jsonResponse option + string) go" where
  "query_type E eventTypeID eventTypeName =
     (if eventTypeID \<noteq> []
      then bnd (EventTypeDB_GetOne E eventTypeID) (\<lambda>(eventType, found, err).
        if \<not> found then bnd (statusNotFound E err) (\<lambda>r. ret (Inl r))
        else if err \<noteq> None then bnd (statusBadRequest E err) (\<lambda>r. ret (Inl r))
        else bnd (lift (deref eventType)) (\<lambda>et. ret (Inr (et_Name et))))
      else ret (Inr eventTypeName))"

primrec unwrap_events :: "'x env \<Rightarrow> event list \<Rightarrow> ('x world, err + event list) go" where
  "unwrap_events E [] = ret (Inr [])"
| "unwrap_events E (ev # evs) = bnd (EventTypeDB_GetOne E (ev_EventTypeID ev)) (\<lambda>(eventType, found, err).
     if \<not> found \<or> err \<noteq> None then ret (Inl err)
     else bnd (lift (deref eventType)) (\<lambda>et.
       bnd (lift (removeUniqueParams (et_Name et) (ev_Data ev))) (\<lambda>d.
         bnd (unwrap_events E evs) (\<lambda>rs. ret (case rs of
           Inl e \<Rightarrow> Inl e | Inr evs' \<Rightarrow> Inr (ev\<lparr>ev_Data := d\<rparr> # evs'))))))"

definition events_index :: "'x env \<Rightarrow> 'x world \<Rightarrow> string" where
  "events_index E w = ix_IndexName (env_idx E) (w_events w)"

definition Service_GetAllEvents :: "'x env \<Rightarrow> httpQueryParams \<Rightarrow> ('x world, jsonResponse option) go" where
  "Service_GetAllEvents E params = recovered None (
     or_status (statusBadRequest E) (NewJsonPagination params) (\<lambda>format.
     or_status (statusBadRequest E) (GetAsString params ''eventTypeId'' []) (\<lambda>eventTypeID.
     or_status (statusBadRequest E) (GetAsString params ''eventTypeName'' []) (\<lambda>eventTypeName.
     bnd (query_type E eventTypeID eventTypeName) (\<lambda>q. case q of Inl r \<Rightarrow> ret r | Inr query \<Rightarrow>
     bnd (gets (events_index E)) (\<lambda>ixname.
     bnd (audit the_user ''gettingAllEvents'' ixname) (\<lambda>_.
     bnd (EventDB_GetAll E query (Some format)) (\<lambda>(events, n, err).
     if err \<noteq> None then fail_with the_user ''gettingAllEventsFailure'' ixname (statusInternalError E err)
     else bnd (unwrap_events E (case events of None \<Rightarrow> [] | Some l \<Rightarrow> l)) (\<lambda>r. case r of
         Inl e \<Rightarrow> fail_with the_user ''gettingAllEventsFailure'' ixname (statusInternalError E e)
       | Inr events' \<Rightarrow>
         bnd (statusOK E (PEvents events')) (\<lambda>resp.
         bnd (audit the_user ''gotAllEvents'' ixname) (\<lambda>_. lift (with_pagination format n resp))))))))))))"

text \<open>A query leaves the data of the events wrapped.\<close>

definition Service_QueryEvents ::
    "'x env \<Rightarrow> string \<Rightarrow> httpQueryParams \<Rightarrow> ('x world, jsonResponse option) go" where
  "Service_QueryEvents E jsonString0 params = recovered None (
     or_status (statusBadRequest E) (NewJsonPagination params) (\<lambda>format0.
     or_status (statusBadRequest E) (GetAsString params ''eventTypeId'' []) (\<lambda>eventTypeID.
     or_status (statusBadRequest E) (GetAsString params ''eventTypeName'' []) (\<lambda>eventTypeName.
     bnd (query_type E eventTypeID eventTypeName) (\<lambda>q. case q of Inl r \<Rightarrow> ret r | Inr query \<Rightarrow>
     bnd (lift (SyncPagination format0 jsonString0)) (\<lambda>(sync, format).
     or_status (statusBadRequest E) sync (\<lambda>jsonString.
     bnd (gets (events_index E)) (\<lambda>ixname.
     bnd (audit the_user ''queryingEvents'' ixname) (\<lambda>_.
     bnd (EventDB_GetEventsByDslQuery E query jsonString) (\<lambda>(events, n, err).
     if err \<noteq> None then fail_with the_user ''queryingEventsFailure'' ixname (statusBadRequest E err)
     else bnd (statusOK E (PEvents (case events of None \<Rightarrow> [] | Some l \<Rightarrow> l))) (\<lambda>resp.
       bnd (audit the_user ''queriedEvents'' ixname) (\<lambda>_. lift (with_pagination format n resp)))))))))))))"

section \<open>Cron jobs\<close>

definition Service_AddJob :: "'x env \<Rightarrow> string \<Rightarrow> cronEvent \<Rightarrow> ('x world, err) go" where
  "Service_AddJob E spec cmd = bnd (time_Now E) (\<lambda>t w.
     case cron_AddJob (env_zone E) t spec cmd (w_cron w) of
       Ret (c, err) \<Rightarrow> (Ret err, w\<lparr>w_cron := c\<rparr>) | Panic m \<Rightarrow> (Panic m, w) | Hang \<Rightarrow> (Hang, w))"

definition Service_RemoveJob :: "'x env \<Rightarrow> string \<Rightarrow> ('x world, unit) go" where
  "Service_RemoveJob E key = bnd (time_Now E) (\<lambda>t. modify (w_cron_update (cron_Remove t key)))"

text \<open>
  \<open>PostRepeatingEvent\<close> registers the job, then stores the event with the crons and with the
  events; only a failure of the last step takes the first two back.
\<close>

definition Service_PostRepeatingEvent :: "'x env \<Rightarrow> event \<Rightarrow> ('x world, jsonResponse option) go" where
  "Service_PostRepeatingEvent E ev0 = recovered None (
     bnd (EventTypeDB_GetOne E (ev_EventTypeID ev0)) (\<lambda>(eventType, found, err).
     if err \<noteq> None \<or> \<not> found then statusBadRequest E err
     else bnd (lift (cron_Parse (ev_CronSchedule ev0))) (\<lambda>parsed. case parsed of
         Inl e \<Rightarrow> statusBadRequest E (Some e)
       | Inr sch \<Rightarrow>
     bnd (newIdent E) (\<lambda>i. bnd (NewTimeStamp E) (\<lambda>now_text.
     bnd (lift (deref eventType)) (\<lambda>et.
     let response = ev0\<lparr>ev_EventID := i, ev_CreatedOn := now_text\<rparr>;
         ev = response\<lparr>ev_Data := addUniqueParams (et_Name et) (ev_Data ev0)\<rparr>;
         failed = fail_with (ev_CreatedBy ev) ''creatingCronEventFailure'' (ev_EventID ev) in
     bnd (audit (ev_CreatedBy ev) ''creatingCronEvent'' (ev_EventID ev)) (\<lambda>_.
     bnd (Service_AddJob E (ev_CronSchedule ev) \<lparr>ce_Event = ev, ce_eventTypeName = et_Name et\<rparr>) (\<lambda>err.
     if err \<noteq> None then failed (statusInternalError E err)
     else bnd (CronDB_PostData E ev) (\<lambda>err.
     if err \<noteq> None then failed (statusInternalError E err)
     else bnd (EventDB_PostData E ev (et_Name et)) (\<lambda>err.
     if err \<noteq> None
       then failed (bnd (CronDB_DeleteByID E (ev_EventID ev)) (\<lambda>_.
              bnd (Service_RemoveJob E (ev_EventID ev)) (\<lambda>_. statusInternalError E err)))
     else bnd (audit (ev_CreatedBy ev) ''createdCronEvent'' (ev_EventID ev)) (\<lambda>_.
       bnd (upd_stats IncrEvents) (\<lambda>_. statusCreated E (PEvent response)))))))))))))"

section \<open>Firing triggers\<close>

text \<open>Every \<open>$key\<close> in the job's text is replaced by the value of that key of the event's data.\<close>

definition substitute :: "entries \<Rightarrow> string \<Rightarrow> string" where
  "substitute kvs jobString =
     fold (\<lambda>(key, v) s. strings_Replace s (CHR ''$'' # key) (sprint v) (-1)) kvs jobString"

text \<open>
  The access check, when the address of the authorisation service is known: \<open>None\<close> grants,
  \<open>Some r\<close> is the result to record.
\<close>

definition check_access :: "'x env \<Rightarrow> eventType \<Rightarrow> ('x world, jsonResponse option option) go" where
  "check_access E et = (case env_GetURL E of
     Inl e \<Rightarrow> ret None
   | Inr idamURL \<Rightarrow>
       bnd (audit the_user ''createJobRequestAccess'' ''pz-idam'') (\<lambda>_.
       case RequestAuthZAccess E idamURL (et_CreatedBy et) of
         (auth, Some e) \<Rightarrow> bnd (statusInternalError E (Some e)) (\<lambda>r.
           bnd (audit the_user ''createJobRequestAccessFailure'' ''pz-idam'') (\<lambda>_. ret (Some r)))
       | (auth, None) \<Rightarrow> if \<not> auth
           then bnd (statusForbidden E (Some ''Access to create job denied'')) (\<lambda>r.
             bnd (audit the_user ''createJobRequestAccessDenied'' ''pz-idam'') (\<lambda>_. ret (Some r)))
           else ret None))"

text \<open>
  The body of the goroutine for one trigger: the response it records, if any. A trigger that
  is gone, disabled, or of another event type does nothing.
\<close>

definition fire_trigger :: "'x env \<Rightarrow> eventType \<Rightarrow> event \<Rightarrow> ident \<Rightarrow> ('x world, jsonResponse option option) go" where
  "fire_trigger E et ev triggerID =
     bnd (TriggerDB_GetOne E triggerID) (\<lambda>(trigger, found, err).
     if err \<noteq> None then bnd (statusBadRequest E err) (\<lambda>r. ret (Some r))
     else if \<not> found then ret None
     else bnd (lift (deref trigger)) (\<lambda>t.
     if \<not> tr_Enabled t then ret None
     else if et_EventTypeID et \<noteq> tr_EventTypeID t then ret None
     else bnd (newIdent E) (\<lambda>jobID.
     let jobString = json_text (enc_jobRequest (tr_Job t)) in
     bnd (check_access E et) (\<lambda>denied. case denied of Some r \<Rightarrow> ret (Some r) | None \<Rightarrow>
     bnd (audit the_user ''createJobRequestAccessGranted'' ''pz-idam'') (\<lambda>_.
     bnd (lift (assert_map (map_get (entries_of (ev_Data ev)) (et_Name et)))) (\<lambda>d.
     bnd (sendToRabbitMQ E (substitute (entries_of d) jobString) jobID (tr_CreatedBy t)) (\<lambda>err.
     if err \<noteq> None then bnd (statusInternalError E err) (\<lambda>r. ret (Some r))
     else bnd (upd_stats IncrTriggerJobs) (\<lambda>_.
     bnd (Service_PostAlert E \<lparr>al_AlertID = [], al_TriggerID = triggerID, al_EventID = ev_EventID ev,
            al_JobID = jobID, al_CreatedBy = tr_CreatedBy t, al_CreatedOn = zero_time\<rparr>) (\<lambda>resp.
     bnd (lift (deref resp)) (\<lambda>r. ret (if IsError r then Some resp else None)))))))))))"

text \<open>
  The goroutines are run one after the other, in the order they are started; each records its
  result under its trigger's identifier.
\<close>

primrec fire_triggers :: "'x env \<Rightarrow> eventType \<Rightarrow> event \<Rightarrow> ident list \<Rightarrow>
    (ident \<times> jsonResponse option) list \<Rightarrow> ('x world, (ident \<times> jsonResponse option) list) go" where
  "fire_triggers E et ev [] results = ret results"
| "fire_triggers E et ev (i # is) results = bnd (goroutine (fire_trigger E et ev i)) (\<lambda>r.
     fire_triggers E et ev is (case r of None \<Rightarrow> results | Some resp \<Rightarrow> AList.update i resp results))"

definition first_failure :: "(ident \<times> jsonResponse option) list \<Rightarrow> jsonResponse option" where
  "first_failure results = (case find (\<lambda>(i, r). r \<noteq> None) results of
     None \<Rightarrow> None | Some (i, r) \<Rightarrow> r)"

section \<open>PostEvent\<close>

definition Service_PostEvent :: "'x env \<Rightarrow> event \<Rightarrow> ('x world, jsonResponse option) go" where
  "Service_PostEvent E ev0 = recovered None (
     bnd (EventTypeDB_GetOne E (ev_EventTypeID ev0)) (\<lambda>(eventType, found, err).
     if err \<noteq> None \<or> \<not> found then statusBadRequest E err
     else bnd (newIdent E) (\<lambda>i. bnd (NewTimeStamp E) (\<lambda>now_text.
     bnd (lift (deref eventType)) (\<lambda>et.
     let response = ev0\<lparr>ev_EventID := i, ev_CreatedOn := now_text\<rparr>;
         ev = response\<lparr>ev_Data := addUniqueParams (et_Name et) (ev_Data ev0)\<rparr> in
     bnd (audit (ev_CreatedBy ev) ''creatingEvent'' (ev_EventID ev)) (\<lambda>_.
     bnd (EventDB_PostData E ev (et_Name et)) (\<lambda>err.
     if err \<noteq> None
       then fail_with (ev_CreatedBy ev) ''creatingEventFailure'' (ev_EventID ev) (statusBadRequest E err)
     else bnd (audit (ev_CreatedBy ev) ''createdEvent'' (ev_EventID ev)) (\<lambda>_.
     bnd (EventDB_PercolateEventData E (et_Name et) (ev_Data ev)) (\<lambda>(triggerIDs, err1).
     if err1 \<noteq> None then statusBadRequest E err1
     else bnd (lift (deref triggerIDs)) (\<lambda>ids.
     bnd (fire_triggers E et ev ids []) (\<lambda>results.
     case first_failure results of
       Some v \<Rightarrow> ret (Some v)
     | None \<Rightarrow> bnd (upd_stats IncrEvents) (\<lambda>_. statusCreated E (PEvent response)))))))))))))"

section \<open>Deleting events\<close>

definition Service_DeleteEvent :: "'x env \<Rightarrow> ident \<Rightarrow> ('x world, jsonResponse option) go" where
  "Service_DeleteEvent E i = recovered None (
     bnd (EventDB_lookupEventTypeNameByEventID E i) (\<lambda>(mtype, err).
     if mtype = [] then statusNotFound E err
     else if err \<noteq> None then statusBadRequest E err
     else if IsSystemEvent mtype then statusBadRequest E (Some ''Deleting system events is prohibited'')
     else bnd (audit the_user ''deletingEvent'' i) (\<lambda>_.
     bnd (EventDB_DeleteByID E mtype i) (\<lambda>(ok, err).
     if \<not> ok then fail_with the_user ''deletingEventFailure'' i (statusNotFound E err)
     else if err \<noteq> None then fail_with the_user ''deletingEventFailure'' i (statusBadRequest E err)
     else bnd (audit the_user ''deletedCronEvent'' i) (\<lambda>_.
     bnd (CronDB_itemExists E i) (\<lambda>(ok, err).
     if err \<noteq> None then statusBadRequest E err
     else if \<not> ok then statusOK E PNil
     else bnd (audit the_user ''deletingCronEvent'' i) (\<lambda>_.
       bnd (CronDB_DeleteByID E i) (\<lambda>(ok, err).
       if \<not> ok then fail_with the_user ''deletingCronEventFailure'' i (statusNotFound E err)
       else if err \<noteq> None then fail_with the_user ''deletingCronEventFailure'' i (statusBadRequest E err)
       else bnd (audit the_user ''deletedCronEvent'' i) (\<lambda>_.
         bnd (Service_RemoveJob E i) (\<lambda>_. statusOK E PNil))))))))))"

section \<open>Running the cron jobs\<close>

text \<open>
  \<open>cronEvent.Run\<close> posts an event of the same type, created by the repeating event. The response
  is dropped.
\<close>

definition cronEvent_Run :: "'x env \<Rightarrow> cronEvent \<Rightarrow> ('x world, unit) go" where
  "cronEvent_Run E c =
     (let uniqueMap = map_get (entries_of (ev_Data (ce_Event c))) (ce_eventTypeName c);
          uniqueMap = (if uniqueMap = VNil then VMap [] else uniqueMap) in
      bnd (lift (assert_map uniqueMap)) (\<lambda>d.
      bnd (NewTimeStamp E) (\<lambda>t.
      bnd (Service_PostEvent E \<lparr>ev_EventID = [], ev_EventTypeID = ev_EventTypeID (ce_Event c),
             ev_Data = d, ev_CreatedBy = ev_EventID (ce_Event c), ev_CreatedOn = t,
             ev_CronSchedule = []\<rparr>) (\<lambda>_. ret ()))))"

text \<open>A tick of the runner: the due jobs run, each under \<open>runWithRecovery\<close>.\<close>

definition Service_tick :: "'x env \<Rightarrow> ('x world, unit) go" where
  "Service_tick E = bnd (time_Now E) (\<lambda>t w.
     case recv_tick (env_zone E) cronEvent_Key t (cron_sort (w_cron w)) of
       Ret (started, c) \<Rightarrow>
         bnd (mapM (\<lambda>j. recovered () (cronEvent_Run E j)) started) (\<lambda>_. ret ()) (w\<lparr>w_cron := c\<rparr>)
     | Panic m \<Rightarrow> (Panic m, w) | Hang \<Rightarrow> (Hang, w))"

text \<open>
  \<open>InitCron\<close> registers the stored repeating events. The job takes the address of the range
  variable: when the variable moves to the next event, every job registered so far (the
  entries from position \<open>n0\<close> on) sees that event. The dump of the event at the end of the two
  error messages is left out.
\<close>

definition assign_loop_var :: "nat \<Rightarrow> event \<Rightarrow> 'x world \<Rightarrow> 'x world" where
  "assign_loop_var n0 e w = w\<lparr>w_cron := (w_cron w)\<lparr>entries :=
     take n0 (entries (w_cron w)) @
     map (\<lambda>en. en\<lparr>Job := (Job en)\<lparr>ce_Event := e\<rparr>\<rparr>) (drop n0 (entries (w_cron w)))\<rparr>\<rparr>"

primrec initCron_loop :: "'x env \<Rightarrow> nat \<Rightarrow> event list \<Rightarrow> ('x world, err) go" where
  "initCron_loop E n0 [] = ret None"
| "initCron_loop E n0 (e # es) =
     bnd (modify (assign_loop_var n0 e)) (\<lambda>_.
     bnd (EventTypeDB_GetOne E (ev_EventTypeID e)) (\<lambda>(eventType, found, err).
     if \<not> found \<or> err \<noteq> None
       then ret (Some ''WorkflowService.InitCron: Unable to retrieve event type for cron event'')
     else bnd (lift (deref eventType)) (\<lambda>et.
       bnd (Service_AddJob E (ev_CronSchedule e) \<lparr>ce_Event = e, ce_eventTypeName = et_Name et\<rparr>) (\<lambda>err.
       if err \<noteq> None then ret (Some ''WorkflowService.InitCron: Unable to register cron event'')
       else initCron_loop E n0 es))))"

definition Service_StartCron :: "'x env \<Rightarrow> ('x world, unit) go" where
  "Service_StartCron E = bnd (time_Now E) (\<lambda>t w. case cron_Start (env_zone E) t (w_cron w) of
     Ret c \<Rightarrow> (Ret (), w\<lparr>w_cron := c\<rparr>) | Panic m \<Rightarrow> (Panic m, w) | Hang \<Rightarrow> (Hang, w))"

definition Service_InitCron :: "'x env \<Rightarrow> ('x world, err) go" where
  "Service_InitCron E = recovered None (
     bnd (CronDB_Exists E) (\<lambda>(ok, err).
     if err \<noteq> None then ret err
     else bnd (if ok then bnd (CronDB_GetAll E) (\<lambda>(events, err).
                 if err \<noteq> None then ret (Some ''WorkflowService.InitCron: Unable to get all from CronDB'')
                 else bnd (lift (deref events)) (\<lambda>es.
                   bnd (gets (\<lambda>w. length (entries (w_cron w)))) (\<lambda>n0. initCron_loop E n0 es)))
               else ret None) (\<lambda>err.
       if err \<noteq> None then ret err else bnd (Service_StartCron E) (\<lambda>_. ret None))))"

end
