(* ===== verification/DatabaseLaws.thy ===== *)
theory DatabaseLaws
  imports EventHandlers
begin

text \<open>
  What the database methods do over a healthy index, proved once from the contract of the
  index (\<open>Indexes\<close>) and available for the mock index by its interpretation.
\<close>

section \<open>Responses of the index\<close>

lemma get_result_hit:
  "dec d = Inr x \<Longrightarrow> get_result name on_err on_nil dec wrap
     (Some \<lparr>gr_ID = i, gr_Source = Some d, gr_Found = True\<rparr>, None) = Ret (Some x, True, None)"
  by (simp add: get_result_def decode_source_def)

lemma get_result_miss_found_in:
  "\<not> gr_Found g \<Longrightarrow> get_result name found_in on_nil dec wrap (Some g, Some e) =
     Ret (None, False, Some (name @ '' failed: '' @ e))"
  by (simp add: get_result_def found_in_def)

lemma get_result_miss_not_found:
  "get_result name not_found on_nil dec wrap (p, Some e) = Ret (None, False, Some (name @ '' failed: '' @ e))"
  by (cases p) (simp_all add: get_result_def not_found_def)

lemma post_result_ok: "Created r \<Longrightarrow> post_result name (Some r, None) = Ret None"
  by (simp add: post_result_def)

lemma delete_result_ok: "delete_result name (Some d, None) = Ret (dr_Found d, None)"
  by (simp add: delete_result_def)

section \<open>Lookups\<close>

context doc_lookup
begin

lemma EventTypeDB_GetOne_hit:
  assumes "env_idx E = esi" "inv (w_eventTypes w)"
    "docs (w_eventTypes w) EventTypeDBMapping i = Some d" "dec_eventType d = Inr et"
  shows "EventTypeDB_GetOne E i w = (Ret (Some et, True, None), w)"
  using get_hit [OF assms(2,3)] assms(1,4)
  by (simp add: EventTypeDB_GetOne_def on_eventTypes_def zoom_def bnd_def lift_def get_result_hit)

lemma EventTypeDB_GetOne_miss:
  assumes "env_idx E = esi" "inv (w_eventTypes w)" "docs (w_eventTypes w) EventTypeDBMapping i = None"
  shows "\<exists>e. EventTypeDB_GetOne E i w = (Ret (None, False, Some e), w)"
proof -
  from get_miss [OF assms(2,3)] obtain g e where
    "ix_GetByID esi EventTypeDBMapping i (w_eventTypes w) = (Ret (Some g, Some e), w_eventTypes w)" "\<not> gr_Found g"
    by blast
  with assms(1) show ?thesis
    by (simp add: EventTypeDB_GetOne_def on_eventTypes_def zoom_def bnd_def lift_def get_result_miss_found_in)
qed

lemma TriggerDB_GetOne_hit:
  assumes "env_idx E = esi" "inv (w_triggers w)"
    "docs (w_triggers w) TriggerDBMapping i = Some d" "dec_trigger d = Inr t"
    "decodeCondition (of_gomap (tr_Condition t)) = of_gomap c"
  shows "TriggerDB_GetOne E i w = (Ret (Some (t\<lparr>tr_Condition := c\<rparr>), True, None), w)"
  using get_hit [OF assms(2,3)] assms(1,4,5)
  by (simp add: TriggerDB_GetOne_def on_triggers_def zoom_def bnd_def lift_def ret_def get_result_hit
      decode_trigger_condition_def)

lemma TriggerDB_GetOne_miss:
  assumes "env_idx E = esi" "inv (w_triggers w)" "docs (w_triggers w) TriggerDBMapping i = None"
  shows "\<exists>e. TriggerDB_GetOne E i w = (Ret (None, False, Some e), w)"
proof -
  from get_miss [OF assms(2,3)] obtain g e where
    "ix_GetByID esi TriggerDBMapping i (w_triggers w) = (Ret (Some g, Some e), w_triggers w)"
    by blast
  with assms(1) show ?thesis
    by (simp add: TriggerDB_GetOne_def on_triggers_def zoom_def bnd_def lift_def ret_def
        get_result_miss_not_found)
qed

lemma AlertDB_GetOne_hit:
  assumes "env_idx E = esi" "inv (w_alerts w)"
    "docs (w_alerts w) AlertDBMapping i = Some d" "dec_alert d = Inr a"
  shows "AlertDB_GetOne E i w = (Ret (Some a, True, None), w)"
  using get_hit [OF assms(2,3)] assms(1,4)
  by (simp add: AlertDB_GetOne_def on_alerts_def zoom_def bnd_def lift_def get_result_hit)

lemma AlertDB_GetOne_miss:
  assumes "env_idx E = esi" "inv (w_alerts w)" "docs (w_alerts w) AlertDBMapping i = None"
  shows "\<exists>e. AlertDB_GetOne E i w = (Ret (None, False, Some e), w)"
proof -
  from get_miss [OF assms(2,3)] obtain g e where
    "ix_GetByID esi AlertDBMapping i (w_alerts w) = (Ret (Some g, Some e), w_alerts w)" by blast
  with assms(1) show ?thesis
    by (simp add: AlertDB_GetOne_def on_alerts_def zoom_def bnd_def lift_def get_result_miss_not_found)
qed

lemma EventDB_GetOne_hit:
  assumes "env_idx E = esi" "inv (w_events w)" "docs (w_events w) t i = Some d" "dec_event d = Inr ev"
  shows "EventDB_GetOne E t i w = (Ret (Some ev, True, None), w)"
  using get_hit [OF assms(2,3)] assms(1,4)
  by (simp add: EventDB_GetOne_def on_events_def zoom_def bnd_def lift_def get_result_hit)

lemma EventDB_NameExists_app:
  assumes "env_idx E = esi" "inv (w_events w)"
  shows "EventDB_NameExists E n w = (Ret (has_type (w_events w) n, None), w)"
  using type_exists [OF assms(2)] assms(1) by (simp add: EventDB_NameExists_def on_events_def zoom_def)

lemma CronDB_itemExists_app:
  assumes "env_idx E = esi" "inv (w_crons w)"
  shows "CronDB_itemExists E i w = (Ret (docs (w_crons w) CronDBMapping i \<noteq> None, None), w)"
  using item_exists [OF assms(2)] assms(1) by (simp add: CronDB_itemExists_def on_crons_def zoom_def)

text \<open>The type an event is found under: one that holds it, when there is one.\<close>

lemma find_type_app:
  assumes "inv x" "env_idx E = esi"
  shows "find_type E i ts x = (Ret ((case find (\<lambda>t. docs x t i \<noteq> None) ts of None \<Rightarrow> [] | Some t \<Rightarrow> t), None), x)"
  using assms(2) item_exists [OF assms(1)]
  by (induction ts) (simp_all add: bnd_def ret_def)

end

section \<open>Updates\<close>

context doc_index
begin

lemma AlertDB_PostData_new:
  assumes "env_idx E = esi" "inv (w_alerts w)" "has_type (w_alerts w) AlertDBMapping"
    "al_AlertID a \<noteq> []" "docs (w_alerts w) AlertDBMapping (al_AlertID a) = None"
  shows "\<exists>x'. AlertDB_PostData E a w = (Ret None, w\<lparr>w_alerts := x'\<rparr>) \<and> inv x' \<and>
    docs x' = store_put AlertDBMapping (al_AlertID a) (Some (wire (enc_alert a))) (docs (w_alerts w)) \<and>
    has_type x' = has_type (w_alerts w)"
proof -
  from post_new [OF assms(2-5)] obtain r x' where
    "ix_PostData esi AlertDBMapping (al_AlertID a) (enc_alert a) (w_alerts w) = (Ret (Some r, None), x')"
    "Created r" "inv x'" "docs x' = store_put AlertDBMapping (al_AlertID a) (Some (wire (enc_alert a))) (docs (w_alerts w))"
    "has_type x' = has_type (w_alerts w)" by blast
  with assms(1) show ?thesis
    by (intro exI [of _ x']) (simp add: AlertDB_PostData_def on_alerts_def zoom_def bnd_def lift_def post_result_ok)
qed

lemma AlertDB_DeleteByID_hit:
  assumes "env_idx E = esi" "inv (w_alerts w)" "docs (w_alerts w) AlertDBMapping i = Some d"
  shows "\<exists>x'. AlertDB_DeleteByID E i w = (Ret (True, None), w\<lparr>w_alerts := x'\<rparr>) \<and> inv x' \<and>
    docs x' = store_put AlertDBMapping i None (docs (w_alerts w)) \<and> has_type x' = has_type (w_alerts w)"
proof -
  from delete_hit [OF assms(2,3)] obtain r x' where
    "ix_DeleteByID esi AlertDBMapping i (w_alerts w) = (Ret (Some r, None), x')" "dr_Found r"
    "inv x'" "docs x' = store_put AlertDBMapping i None (docs (w_alerts w))"
    "has_type x' = has_type (w_alerts w)" by blast
  with assms(1) show ?thesis
    by (intro exI [of _ x']) (simp add: AlertDB_DeleteByID_def on_alerts_def zoom_def bnd_def lift_def ret_def delete_result_ok)
qed

lemma EventTypeDB_PostData_new:
  assumes "env_idx E = esi" "inv (w_eventTypes w)" "has_type (w_eventTypes w) EventTypeDBMapping"
    "et_EventTypeID et \<noteq> []" "docs (w_eventTypes w) EventTypeDBMapping (et_EventTypeID et) = None"
    "list_all (\<lambda>(k, v). IsValidMappingType v) (vars_of (entries_of (et_Mapping et)))"
  shows "\<exists>x'. EventTypeDB_PostData E et w = (Ret None, w\<lparr>w_eventTypes := x'\<rparr>) \<and> inv x' \<and>
    docs x' = store_put EventTypeDBMapping (et_EventTypeID et) (Some (wire (enc_eventType et)))
      (docs (w_eventTypes w)) \<and> has_type x' = has_type (w_eventTypes w)"
proof -
  from post_new [OF assms(2-5)] obtain r x' where
    "ix_PostData esi EventTypeDBMapping (et_EventTypeID et) (enc_eventType et) (w_eventTypes w) = (Ret (Some r, None), x')"
    "Created r" "inv x'" "docs x' = store_put EventTypeDBMapping (et_EventTypeID et)
      (Some (wire (enc_eventType et))) (docs (w_eventTypes w))"
    "has_type x' = has_type (w_eventTypes w)" by blast
  moreover have "find (\<lambda>(k, v). \<not> IsValidMappingType v) (vars_of (entries_of (et_Mapping et))) = None"
    using assms(6) by (auto simp: find_None_iff list_all_iff)
  ultimately show ?thesis using assms(1)
    by (intro exI [of _ x']) (simp add: EventTypeDB_PostData_def on_eventTypes_def zoom_def bnd_def lift_def post_result_ok)
qed

lemma CronDB_DeleteByID_hit:
  assumes "env_idx E = esi" "inv (w_crons w)" "docs (w_crons w) CronDBMapping i = Some d"
  shows "\<exists>x'. CronDB_DeleteByID E i w = (Ret (True, None), w\<lparr>w_crons := x'\<rparr>) \<and> inv x' \<and>
    docs x' = store_put CronDBMapping i None (docs (w_crons w)) \<and> has_type x' = has_type (w_crons w)"
proof -
  from delete_hit [OF assms(2,3)] obtain r x' where
    "ix_DeleteByID esi CronDBMapping i (w_crons w) = (Ret (Some r, None), x')" "dr_Found r"
    "inv x'" "docs x' = store_put CronDBMapping i None (docs (w_crons w))"
    "has_type x' = has_type (w_crons w)" by blast
  with assms(1) show ?thesis
    by (intro exI [of _ x']) (simp add: CronDB_DeleteByID_def on_crons_def zoom_def bnd_def lift_def delete_result_ok)
qed

lemma EventDB_DeleteByID_hit:
  assumes "env_idx E = esi" "inv (w_events w)" "docs (w_events w) t i = Some d"
  shows "\<exists>x'. EventDB_DeleteByID E t i w = (Ret (True, None), w\<lparr>w_events := x'\<rparr>) \<and> inv x' \<and>
    docs x' = store_put t i None (docs (w_events w)) \<and> has_type x' = has_type (w_events w)"
proof -
  from delete_hit [OF assms(2,3)] obtain r x' where
    "ix_DeleteByID esi t i (w_events w) = (Ret (Some r, None), x')" "dr_Found r"
    "inv x'" "docs x' = store_put t i None (docs (w_events w))" "has_type x' = has_type (w_events w)"
    by blast
  with assms(1) show ?thesis
    by (intro exI [of _ x']) (simp add: EventDB_DeleteByID_def on_events_def zoom_def bnd_def lift_def delete_result_ok)
qed

lemma EventDB_post_new:
  assumes "env_idx E = esi" "inv (w_events w)" "has_type (w_events w) t" "ev_EventID ev \<noteq> []"
    "docs (w_events w) t (ev_EventID ev) = None"
    "EventDB_verifyEventReadyToPost E ev w0 = (Ret None, w)"
  shows "\<exists>x'. EventDB_PostData E ev t w0 = (Ret None, w\<lparr>w_events := x'\<rparr>) \<and> inv x' \<and>
    docs x' = store_put t (ev_EventID ev) (Some (wire (enc_event ev))) (docs (w_events w)) \<and>
    has_type x' = has_type (w_events w)"
proof -
  from post_new [OF assms(2-5)] obtain r x' where
    "ix_PostData esi t (ev_EventID ev) (enc_event ev) (w_events w) = (Ret (Some r, None), x')"
    "Created r" "inv x'" "docs x' = store_put t (ev_EventID ev) (Some (wire (enc_event ev))) (docs (w_events w))"
    "has_type x' = has_type (w_events w)" by blast
  with assms(1,6) show ?thesis
    by (intro exI [of _ x']) (simp add: EventDB_PostData_def on_events_def zoom_def bnd_def lift_def post_result_ok)
qed

lemma TriggerDB_put:
  assumes "env_idx E = esi" "inv (w_triggers w)" "has_type (w_triggers w) TriggerDBMapping"
    "tr_TriggerID t \<noteq> []" "PutTrigger_document (t\<lparr>tr_Enabled := b\<rparr>) = Ret d"
  shows "\<exists>x'. TriggerDB_PutTrigger E t \<lparr>tu_Enabled = b\<rparr> w =
      (Ret (t\<lparr>tr_Enabled := b\<rparr>, None), w\<lparr>w_triggers := x'\<rparr>) \<and> inv x' \<and>
    docs x' = store_put TriggerDBMapping (tr_TriggerID t) (Some (wire d)) (docs (w_triggers w)) \<and>
    has_type x' = has_type (w_triggers w)"
proof -
  from put [OF assms(2-4), of d] obtain r x' where
    "ix_PutData esi TriggerDBMapping (tr_TriggerID t) d (w_triggers w) = (Ret (Some r, None), x')"
    "inv x'" "docs x' = store_put TriggerDBMapping (tr_TriggerID t) (Some (wire d)) (docs (w_triggers w))"
    "has_type x' = has_type (w_triggers w)" by blast
  with assms(1,5) show ?thesis
    by (intro exI [of _ x']) (simp add: TriggerDB_PutTrigger_def Let_def on_triggers_def zoom_def bnd_def lift_def ret_def)
qed

end

section \<open>Searches and mappings\<close>

text \<open>Every stored event type decodes and has a name.\<close>

definition names_ok :: "store \<Rightarrow> bool" where
  "names_ok s \<longleftrightarrow> (\<forall>i d. s EventTypeDBMapping i = Some d \<longrightarrow>
     doc_field ''name'' d \<noteq> None \<and> (\<exists>et. dec_eventType d = Inr et))"

context search_index
begin

lemma GetIDByName_none:
  assumes "env_idx E = esi" "inv (w_eventTypes w)" "has_type (w_eventTypes w) EventTypeDBMapping"
    "names_ok (docs (w_eventTypes w))"
    "\<forall>i d. docs (w_eventTypes w) EventTypeDBMapping i = Some d \<longrightarrow> doc_field ''name'' d \<noteq> Some n"
  shows "EventTypeDB_GetIDByName E f n w = (Ret (None, False, None), w)"
proof -
  have "\<forall>i d. docs (w_eventTypes w) EventTypeDBMapping i = Some d \<longrightarrow> doc_field ''name'' d \<noteq> None"
    using assms(4) by (auto simp: names_ok_def)
  from term_query [OF assms(2,3) this, of n f] obtain sr where sr:
    "ix_FilterByTermQuery esi EventTypeDBMapping ''name'' (TermString n) f (w_eventTypes w) =
       (Ret (Some sr, None), w_eventTypes w)"
    "set (hit_pairs sr) = {(i, Some d) |i d. docs (w_eventTypes w) EventTypeDBMapping i = Some d \<and>
       doc_field ''name'' d = Some n}" by blast
  have "set (hit_pairs sr) = {}" unfolding sr(2) using assms(5) by auto
  then have "hits sr = []" by (simp add: hit_pairs_def)
  with sr(1) assms(1) show ?thesis
    by (simp add: EventTypeDB_GetIDByName_def on_eventTypes_def zoom_def bnd_def ret_def NumHits_def)
qed

text \<open>When the name is taken, the lookup finds it or reports that it is taken twice.\<close>

lemma GetIDByName_taken:
  assumes "env_idx E = esi" "inv (w_eventTypes w)" "names_ok (docs (w_eventTypes w))"
    "docs (w_eventTypes w) EventTypeDBMapping i = Some d" "doc_field ''name'' d = Some n"
  shows "\<exists>j err. EventTypeDB_GetIDByName E f n w = (Ret (j, True, err), w)"
proof -
  have ht: "has_type (w_eventTypes w) EventTypeDBMapping" using doc_type [OF assms(2)] assms(4) by blast
  have fields: "\<forall>i d. docs (w_eventTypes w) EventTypeDBMapping i = Some d \<longrightarrow> doc_field ''name'' d \<noteq> None"
    using assms(3) by (auto simp: names_ok_def)
  from term_query [OF assms(2) ht fields, of n f] obtain sr where sr:
    "ix_FilterByTermQuery esi EventTypeDBMapping ''name'' (TermString n) f (w_eventTypes w) =
       (Ret (Some sr, None), w_eventTypes w)" "sr_Found sr \<longleftrightarrow> hits sr \<noteq> []"
    "set (hit_pairs sr) = {(i, Some d) |i d. docs (w_eventTypes w) EventTypeDBMapping i = Some d \<and>
       doc_field ''name'' d = Some n}" by blast
  have "(i, Some d) \<in> set (hit_pairs sr)" using sr(3) assms(4,5) by blast
  then obtain h hs where h: "hits sr = h # hs" by (cases "hits sr") (auto simp: hit_pairs_def)
  then have "(hit_ID h, hit_Source h) \<in> set (hit_pairs sr)" by (simp add: hit_pairs_def)
  then obtain d' where d': "hit_Source h = Some d'" "docs (w_eventTypes w) EventTypeDBMapping (hit_ID h) = Some d'"
    using sr(3) by auto
  then obtain et where "dec_eventType d' = Inr et" using assms(3) by (auto simp: names_ok_def)
  with sr(1,2) h d'(1) assms(1) show ?thesis
    by (simp add: EventTypeDB_GetIDByName_def on_eventTypes_def zoom_def bnd_def ret_def lift_def
        NumHits_def GetHit_def decode_source_def)
qed

lemma EventDB_AddMapping_new:
  assumes "env_idx E = esi" "inv (w_events w)" "\<not> has_type (w_events w) n"
    "ConstructEventMappingSchema n m = Inr v"
  shows "\<exists>x'. EventDB_AddMapping E n m w = (Ret None, w\<lparr>w_events := x'\<rparr>) \<and> inv x' \<and>
    docs x' = docs (w_events w) \<and> has_type x' = (has_type (w_events w))(n := True)"
proof -
  obtain kvs where v: "v = VMap kvs"
    using assms(4) by (auto simp: ConstructEventMappingSchema_def split: sum.splits)
  from set_mapping [OF assms(2,3), of kvs] obtain x' where
    "ix_SetMapping esi n (VMap kvs) (w_events w) = (Ret None, x')" "inv x'"
    "docs x' = docs (w_events w)" "has_type x' = (has_type (w_events w))(n := True)" by blast
  with assms(1,4) v show ?thesis
    by (intro exI [of _ x']) (simp add: EventDB_AddMapping_def on_events_def zoom_def bnd_def ret_def)
qed

lemma TriggerDB_PostData_new:
  assumes "env_idx E = esi" "inv (w_triggers w)" "inv (w_events w)"
    "has_type (w_triggers w) TriggerDBMapping" "tr_TriggerID t \<noteq> []"
    "docs (w_triggers w) TriggerDBMapping (tr_TriggerID t) = None"
    "check_service E t = Inr ()" "encodeCondition (of_gomap (tr_Condition t)) = of_gomap c"
  shows "\<exists>x' y'. TriggerDB_PostData E t w = (Ret None, w\<lparr>w_events := y', w_triggers := x'\<rparr>) \<and>
    inv x' \<and> inv y' \<and> has_type x' = has_type (w_triggers w) \<and>
    (\<forall>t' j. t' \<noteq> percolateTypeName \<or> j \<noteq> tr_TriggerID t \<longrightarrow> docs y' t' j = docs (w_events w) t' j) \<and>
    (\<forall>t'. has_type (w_events w) t' \<longrightarrow> has_type y' t') \<and>
    docs x' = store_put TriggerDBMapping (tr_TriggerID t)
      (Some (wire (enc_trigger (t\<lparr>tr_PercolationID := tr_TriggerID t, tr_Condition := c\<rparr>)))) (docs (w_triggers w))"
proof -
  let ?t = "t\<lparr>tr_PercolationID := tr_TriggerID t, tr_Condition := c\<rparr>"
  from add_query [OF assms(3,5), of "json_text (of_gomap (tr_Condition t))"] obtain r y' where
    q: "ix_AddPercolationQuery esi (tr_TriggerID t) (json_text (of_gomap (tr_Condition t))) (w_events w) =
      (Ret (Some r, None), y')" "Created r" "ir_ID r = tr_TriggerID t" "inv y'"
    "\<forall>t' j. t' \<noteq> percolateTypeName \<or> j \<noteq> tr_TriggerID t \<longrightarrow> docs y' t' j = docs (w_events w) t' j"
    "\<forall>t'. has_type (w_events w) t' \<longrightarrow> has_type y' t'" by blast
  from post_new [OF assms(2,4,5,6), of "enc_trigger ?t"] obtain r2 x' where
    p: "ix_PostData esi TriggerDBMapping (tr_TriggerID t) (enc_trigger ?t) (w_triggers w) = (Ret (Some r2, None), x')"
    "Created r2" "inv x'" "docs x' = store_put TriggerDBMapping (tr_TriggerID t) (Some (wire (enc_trigger ?t)))
      (docs (w_triggers w))" "has_type x' = has_type (w_triggers w)" by blast
  from q p assms(1,7,8) show ?thesis
    by (intro exI [of _ x'] exI [of _ y']) (simp add: TriggerDB_PostData_def on_events_def on_triggers_def zoom_def bnd_def lift_def ret_def
        post_result_ok)
qed

end

end
