(* ===== verification/AlertLaws.thy ===== *)
theory AlertLaws
  imports DatabaseLaws
begin

text \<open>
  The life of an alert, over any healthy index: what \<open>PostAlert\<close>, \<open>GetAlert\<close> and
  \<open>DeleteAlert\<close> answer and do to the state.
\<close>

lemmas handler_simps = recovered_def bnd_def ret_def lift_def audit_app newIdent_app NewTimeStamp_app
  upd_stats_app fail_with_def statusOK_app statusCreated_app status_error_defs statusError_Some

definition audited :: "string \<Rightarrow> string \<Rightarrow> string \<Rightarrow> 'x world \<Rightarrow> 'x world" where
  "audited actor action actee w = w\<lparr>w_audit := w_audit w @
     [\<lparr>au_actor = actor, au_action = action, au_actee = actee\<rparr>]\<rparr>"

lemma audited_sel [simp]:
  "w_eventTypes (audited a b c w) = w_eventTypes w" "w_events (audited a b c w) = w_events w"
  "w_triggers (audited a b c w) = w_triggers w" "w_alerts (audited a b c w) = w_alerts w"
  "w_crons (audited a b c w) = w_crons w" "w_tests (audited a b c w) = w_tests w"
  "w_stats (audited a b c w) = w_stats w" "w_cron (audited a b c w) = w_cron w"
  "w_rand (audited a b c w) = w_rand w" "w_time (audited a b c w) = w_time w"
  "w_mq (audited a b c w) = w_mq w" "w_crashed (audited a b c w) = w_crashed w"
  by (simp_all add: audited_def)

lemma audit_audited: "audit a b c w = (Ret (), audited a b c w)"
  by (simp add: audit_app audited_def)

text \<open>The alert as posted: with its identifier and time stamp.\<close>

definition new_alert :: "'x env \<Rightarrow> 'x world \<Rightarrow> alert \<Rightarrow> alert" where
  "new_alert E w a = a\<lparr>al_AlertID := next_ident E w, al_CreatedOn := next_time E w\<rparr>"

lemma new_alert_sel [simp]: "al_AlertID (new_alert E w a) = next_ident E w"
  "al_CreatedBy (new_alert E w a) = al_CreatedBy a"
  by (simp_all add: new_alert_def)

text \<open>The state after an identifier and a time stamp were taken.\<close>

definition drawn :: "'x world \<Rightarrow> 'x world" where
  "drawn w = w\<lparr>w_rand := w_rand w + 16, w_time := Suc (w_time w)\<rparr>"

lemma drawn_sel [simp]:
  "w_eventTypes (drawn w) = w_eventTypes w" "w_events (drawn w) = w_events w"
  "w_triggers (drawn w) = w_triggers w" "w_alerts (drawn w) = w_alerts w"
  "w_crons (drawn w) = w_crons w" "w_tests (drawn w) = w_tests w"
  "w_stats (drawn w) = w_stats w" "w_cron (drawn w) = w_cron w"
  "w_mq (drawn w) = w_mq w" "w_crashed (drawn w) = w_crashed w" "w_audit (drawn w) = w_audit w"
  by (simp_all add: drawn_def)

lemma draw_both: "bnd (newIdent E) (\<lambda>i. bnd (NewTimeStamp E) (\<lambda>t. k i t)) w =
    k (next_ident E w) (next_time E w) (drawn w)"
  by (simp add: bnd_def newIdent_app NewTimeStamp_app next_time_def drawn_def)

lemma Service_PostAlert_unfold:
  "Service_PostAlert E a0 w = recovered None (
     let a = new_alert E w a0 in
     bnd (audit (al_CreatedBy a) ''creatingAlert'' (al_AlertID a)) (\<lambda>_.
     bnd (AlertDB_PostData E a) (\<lambda>err.
     if err \<noteq> None
       then fail_with (al_CreatedBy a) ''creatingAlertFailure'' (al_AlertID a) (statusInternalError E err)
     else bnd (audit (al_CreatedBy a) ''createdAlert'' (al_AlertID a)) (\<lambda>_.
       bnd (upd_stats IncrAlerts) (\<lambda>_. statusCreated E (PAlert a)))))) (drawn w)"
  unfolding Service_PostAlert_def recovered_def draw_both new_alert_def by (simp add: Let_def)

context doc_index
begin

lemma PostAlert_app:
  assumes "env_idx E = esi" "inv (w_alerts w)" "has_type (w_alerts w) AlertDBMapping"
    "docs (w_alerts w) AlertDBMapping (next_ident E w) = None"
  shows "\<exists>x' l. Service_PostAlert E a w = (Ret (Some (typed_response 201 (PAlert (new_alert E w a)))),
      (drawn w)\<lparr>w_alerts := x', w_audit := l, w_stats := IncrAlerts (w_stats w)\<rparr>) \<and> inv x' \<and>
    docs x' = store_put AlertDBMapping (next_ident E w) (Some (wire (enc_alert (new_alert E w a))))
      (docs (w_alerts w)) \<and> has_type x' = has_type (w_alerts w)"
proof -
  let ?a = "new_alert E w a" and ?w = "audited (al_CreatedBy a) ''creatingAlert'' (next_ident E w) (drawn w)"
  from AlertDB_PostData_new [of E ?w ?a] assms obtain x' where
    "AlertDB_PostData E ?a ?w = (Ret None, ?w\<lparr>w_alerts := x'\<rparr>)" "inv x'"
    "docs x' = store_put AlertDBMapping (next_ident E w) (Some (wire (enc_alert ?a))) (docs (w_alerts w))"
    "has_type x' = has_type (w_alerts w)" by auto
  then show ?thesis
    by (intro exI [of _ x']) (auto simp: Service_PostAlert_unfold Let_def recovered_def bnd_def
        audit_audited upd_stats_app statusCreated_app audited_def)
qed

lemma GetAlert_hit:
  assumes "env_idx E = esi" "inv (w_alerts w)"
    "docs (w_alerts w) AlertDBMapping i = Some d" "dec_alert d = Inr a"
  shows "fst (Service_GetAlert E i w) = Ret (Some (typed_response 200 (PAlert a)))"
  using AlertDB_GetOne_hit [of E "audited the_user ''gettingAlert'' i w" i d a] assms
  by (simp add: Service_GetAlert_def recovered_def bnd_def audit_audited lift_def statusOK_app)

lemma GetAlert_miss:
  assumes "env_idx E = esi" "inv (w_alerts w)" "docs (w_alerts w) AlertDBMapping i = None"
  shows "\<exists>r. fst (Service_GetAlert E i w) = Ret (Some r) \<and> StatusCode r = 404"
proof -
  from AlertDB_GetOne_miss [of E "audited the_user ''gettingAlert'' i w" i] assms obtain e where
    "AlertDB_GetOne E i (audited the_user ''gettingAlert'' i w) =
       (Ret (None, False, Some e), audited the_user ''gettingAlert'' i w)" by auto
  then show ?thesis
    by (simp add: Service_GetAlert_def recovered_def bnd_def audit_audited fail_with_def
        statusNotFound_def statusError_Some message_response_def)
qed

lemma DeleteAlert_hit:
  assumes "env_idx E = esi" "inv (w_alerts w)" "docs (w_alerts w) AlertDBMapping i = Some d"
  shows "\<exists>x' l. Service_DeleteAlert E i w = (Ret (Some (typed_response 200 PNil)),
      w\<lparr>w_alerts := x', w_audit := l\<rparr>) \<and> inv x' \<and>
    docs x' = store_put AlertDBMapping i None (docs (w_alerts w)) \<and> has_type x' = has_type (w_alerts w)"
proof -
  let ?w = "audited the_user ''deletingAlert'' i w"
  from AlertDB_DeleteByID_hit [of E ?w i d] assms obtain x' where
    "AlertDB_DeleteByID E i ?w = (Ret (True, None), ?w\<lparr>w_alerts := x'\<rparr>)" "inv x'"
    "docs x' = store_put AlertDBMapping i None (docs (w_alerts w))" "has_type x' = has_type (w_alerts w)"
    by auto
  then show ?thesis
    by (intro exI [of _ x']) (auto simp: Service_DeleteAlert_def recovered_def bnd_def
        audit_audited statusOK_app audited_def)
qed

text \<open>An alert reads back as it was answered, and is gone once deleted.\<close>

lemma alert_lifecycle:
  assumes "env_idx E = esi" "inv (w_alerts w)" "has_type (w_alerts w) AlertDBMapping"
    "docs (w_alerts w) AlertDBMapping (next_ident E w) = None"
  shows "\<exists>w1 w2 r.
    Service_PostAlert E a w = (Ret (Some (typed_response 201 (PAlert (new_alert E w a)))), w1) \<and>
    fst (Service_GetAlert E (next_ident E w) w1) = Ret (Some (typed_response 200 (PAlert (new_alert E w a)))) \<and>
    Service_DeleteAlert E (next_ident E w) w1 = (Ret (Some (typed_response 200 PNil)), w2) \<and>
    fst (Service_GetAlert E (next_ident E w) w2) = Ret (Some r) \<and> StatusCode r = 404 \<and>
    w_stats w2 = IncrAlerts (w_stats w)"
proof -
  let ?a = "new_alert E w a" and ?i = "next_ident E w"
  from PostAlert_app [OF assms, of a] obtain x1 l1 where post:
    "Service_PostAlert E a w = (Ret (Some (typed_response 201 (PAlert ?a))),
      (drawn w)\<lparr>w_alerts := x1, w_audit := l1, w_stats := IncrAlerts (w_stats w)\<rparr>)"
    and x1: "inv x1" "docs x1 = store_put AlertDBMapping ?i (Some (wire (enc_alert ?a))) (docs (w_alerts w))"
    by blast
  let ?w1 = "(drawn w)\<lparr>w_alerts := x1, w_audit := l1, w_stats := IncrAlerts (w_stats w)\<rparr>"
  have d1: "docs x1 AlertDBMapping ?i = Some (wire (enc_alert ?a))" using x1 by (simp add: store_put_apply)
  have get: "fst (Service_GetAlert E ?i ?w1) = Ret (Some (typed_response 200 (PAlert ?a)))"
    using GetAlert_hit [OF assms(1), of ?w1 ?i "wire (enc_alert ?a)" ?a] x1(1) d1
    by (simp add: dec_enc_alert)
  from DeleteAlert_hit [OF assms(1), of ?w1 ?i] x1(1) d1 obtain x2 l2 where del:
    "Service_DeleteAlert E ?i ?w1 = (Ret (Some (typed_response 200 PNil)), ?w1\<lparr>w_alerts := x2, w_audit := l2\<rparr>)"
    and x2: "inv x2" "docs x2 = store_put AlertDBMapping ?i None (docs x1)" by auto
  let ?w2 = "?w1\<lparr>w_alerts := x2, w_audit := l2\<rparr>"
  from GetAlert_miss [OF assms(1), of ?w2 ?i] x2 obtain r where
    "fst (Service_GetAlert E ?i ?w2) = Ret (Some r)" "StatusCode r = 404" by (auto simp: store_put_apply)
  with post get del show ?thesis
    by (intro exI [of _ ?w1] exI [of _ ?w2] exI [of _ r]) simp
qed

end

end
