(* ===== verification/EventTypeLaws.thy ===== *)
theory EventTypeLaws
  imports AlertLaws
begin

text \<open>
  Event types over any healthy index: posting, reading back, refusing a name that is taken,
  and the rules for deletion.
\<close>

section \<open>The stored event type\<close>

definition new_eventType :: "'x env \<Rightarrow> 'x world \<Rightarrow> eventType \<Rightarrow> eventType" where
  "new_eventType E w et = et\<lparr>et_EventTypeID := next_ident E w, et_CreatedOn := next_time E w\<rparr>"

definition wrapped_eventType :: "eventType \<Rightarrow> eventType" where
  "wrapped_eventType et = et\<lparr>et_Mapping := addUniqueParams (et_Name et) (et_Mapping et)\<rparr>"

lemma new_eventType_sel [simp]:
  "et_EventTypeID (new_eventType E w et) = next_ident E w" "et_Name (new_eventType E w et) = et_Name et"
  "et_Mapping (new_eventType E w et) = et_Mapping et" "et_CreatedBy (new_eventType E w et) = et_CreatedBy et"
  by (simp_all add: new_eventType_def)

lemma wrapped_eventType_sel [simp]:
  "et_EventTypeID (wrapped_eventType et) = et_EventTypeID et" "et_Name (wrapped_eventType et) = et_Name et"
  "et_Mapping (wrapped_eventType et) = addUniqueParams (et_Name et) (et_Mapping et)"
  "et_CreatedBy (wrapped_eventType et) = et_CreatedBy et"
  by (simp_all add: wrapped_eventType_def)

lemma doc_name: "doc_field ''name'' (wire (enc_eventType et)) = Some (et_Name et)"
  by (simp add: doc_field_def enc_eventType_def map_get_def)

text \<open>Wrapping a mapping changes neither its types nor that it translates.\<close>

lemma mapping_ok_wrapped [simp]:
  "mapping_ok_entries (entries_of (addUniqueParams n m)) \<longleftrightarrow> mapping_ok_entries (entries_of m)"
  by (cases m) (simp_all add: addUniqueParams_def of_gomap_def)

lemma wf_wrapped [simp]:
  "wf_entries (entries_of (addUniqueParams n m)) \<longleftrightarrow> wf_entries (entries_of m)"
  by (cases m) (simp_all add: addUniqueParams_def of_gomap_def)

lemma schema_wrapped:
  assumes "mapping_ok_entries (entries_of m)" "wf_entries (entries_of m)"
  shows "\<exists>v. ConstructEventMappingSchema n (addUniqueParams n m) = Inr v"
proof -
  have "addUniqueParams n m = Some (entries_of (addUniqueParams n m))" by (simp add: addUniqueParams_def)
  moreover have "\<exists>dsl. buildMapping (Some (entries_of (addUniqueParams n m))) = Inr dsl"
    using assms by (subst buildMapping_iff) simp_all
  ultimately show ?thesis by (auto simp: ConstructEventMappingSchema_def)
qed

text \<open>The name is taken: as a type of the events, or by a stored event type.\<close>

definition name_taken :: "store \<Rightarrow> string \<Rightarrow> bool" where
  "name_taken s n \<longleftrightarrow> (\<exists>i d. s EventTypeDBMapping i = Some d \<and> doc_field ''name'' d = Some n)"

definition names_unique :: "store \<Rightarrow> bool" where
  "names_unique s \<longleftrightarrow> (\<forall>i j d e n. s EventTypeDBMapping i = Some d \<longrightarrow> s EventTypeDBMapping j = Some e \<longrightarrow>
     doc_field ''name'' d = Some n \<longrightarrow> doc_field ''name'' e = Some n \<longrightarrow> i = j)"

lemma names_unique_put:
  assumes "names_unique s" "\<not> name_taken s n" "doc_field ''name'' d = Some n"
  shows "names_unique (store_put EventTypeDBMapping i (Some d) s)"
  using assms by (auto simp: names_unique_def name_taken_def store_put_apply split: if_splits)

lemma names_unique_remove: "names_unique s \<Longrightarrow> names_unique (store_put t i None s)"
  by (auto simp: names_unique_def store_put_apply split: if_splits)

section \<open>Posting\<close>

text \<open>The part of \<open>PostEventType\<close> after its two checks of the name.\<close>

definition post_unchecked :: "'x env \<Rightarrow> eventType \<Rightarrow> ('x world, jsonResponse option) go" where
  "post_unchecked E et = (case find (\<lambda>(k, v). str_contains k ''~'') (vars_of (entries_of (et_Mapping et))) of
     Some (k, v) \<Rightarrow> statusBadRequest E (Some (tilde_error (et_Name et) k))
   | None \<Rightarrow> store_eventType E (wrapped_eventType et) et)"

lemma PostEventType_checked:
  assumes "EventDB_NameExists E (et_Name et) w = (Ret (False, None), w)"
    "EventTypeDB_GetIDByName E None (et_Name et) w = (Ret (i, False, None), w)"
  shows "Service_PostEventType E et w = recovered None (post_unchecked E (new_eventType E w et)) (drawn w)"
  unfolding Service_PostEventType_def recovered_def
  by (simp add: bnd_Ret [where m = "EventDB_NameExists E (et_Name et)", OF assms(1)]
      bnd_Ret [where m = "EventTypeDB_GetIDByName E None (et_Name et)", OF assms(2)] draw_both Let_def
      post_unchecked_def wrapped_eventType_def new_eventType_def cong: option.case_cong)

lemma PostEventType_refused:
  assumes "EventDB_NameExists E (et_Name et) w = (Ret (nm, None), w)"
    "nm \<or> (\<exists>i err. EventTypeDB_GetIDByName E None (et_Name et) w = (Ret (i, True, err), w))"
  shows "\<exists>r. Service_PostEventType E et w = (Ret (Some r), w) \<and> StatusCode r \<in> {400, 500}"
proof (cases nm)
  case True
  with assms(1) show ?thesis
    by (simp add: Service_PostEventType_def recovered_def bnd_def statusBadRequest_def statusError_Some
        message_response_def)
next
  case False
  with assms(2) obtain i err where "EventTypeDB_GetIDByName E None (et_Name et) w = (Ret (i, True, err), w)"
    by blast
  with assms(1) False show ?thesis
    by (cases err) (simp_all add: Service_PostEventType_def recovered_def bnd_def status_error_defs
        statusError_Some message_response_def)
qed

context search_index
begin

lemma PostEventType_taken:
  assumes "env_idx E = esi" "inv (w_eventTypes w)" "inv (w_events w)" "names_ok (docs (w_eventTypes w))"
    "has_type (w_events w) (et_Name et) \<or> name_taken (docs (w_eventTypes w)) (et_Name et)"
  shows "\<exists>r. Service_PostEventType E et w = (Ret (Some r), w) \<and> StatusCode r \<in> {400, 500}"
proof (rule PostEventType_refused)
  show "EventDB_NameExists E (et_Name et) w = (Ret (has_type (w_events w) (et_Name et), None), w)"
    using EventDB_NameExists_app [OF assms(1,3)] .
  show "has_type (w_events w) (et_Name et) \<or>
      (\<exists>i err. EventTypeDB_GetIDByName E None (et_Name et) w = (Ret (i, True, err), w))"
    using assms(5) GetIDByName_taken [OF assms(1,2,4), of _ _ "et_Name et" None]
    by (auto simp: name_taken_def)
qed

lemma PostEventType_free:
  assumes "env_idx E = esi" "inv (w_eventTypes w)" "inv (w_events w)" "names_ok (docs (w_eventTypes w))"
    "has_type (w_eventTypes w) EventTypeDBMapping"
    "\<not> has_type (w_events w) (et_Name et)" "\<not> name_taken (docs (w_eventTypes w)) (et_Name et)"
  shows "Service_PostEventType E et w = recovered None (post_unchecked E (new_eventType E w et)) (drawn w)"
proof (rule PostEventType_checked)
  show "EventDB_NameExists E (et_Name et) w = (Ret (False, None), w)"
    using EventDB_NameExists_app [OF assms(1,3), of "et_Name et"] assms(6) by simp
  show "EventTypeDB_GetIDByName E None (et_Name et) w = (Ret (None, False, None), w)"
    using assms(7) by (intro GetIDByName_none [OF assms(1,2,5,4)]) (auto simp: name_taken_def)
qed

lemma PostEventType_created:
  assumes idx: "env_idx E = esi" and inv: "inv (w_eventTypes w)" "inv (w_events w)"
    and ok: "names_ok (docs (w_eventTypes w))" and ht: "has_type (w_eventTypes w) EventTypeDBMapping"
    and free: "\<not> has_type (w_events w) (et_Name et)" "\<not> name_taken (docs (w_eventTypes w)) (et_Name et)"
    and fresh: "docs (w_eventTypes w) EventTypeDBMapping (next_ident E w) = None"
    and m: "mapping_ok_entries (entries_of (et_Mapping et))" "wf_entries (entries_of (et_Mapping et))"
    and tilde: "list_all (\<lambda>(k, v). \<not> str_contains k ''~'') (vars_of (entries_of (et_Mapping et)))"
  shows "\<exists>x' y' l. Service_PostEventType E et w =
      (Ret (Some (typed_response 201 (PEventType (new_eventType E w et)))),
       (drawn w)\<lparr>w_eventTypes := x', w_events := y', w_audit := l, w_stats := IncrEventTypes (w_stats w)\<rparr>) \<and>
    inv x' \<and> inv y' \<and> has_type x' = has_type (w_eventTypes w) \<and>
    docs x' = store_put EventTypeDBMapping (next_ident E w)
      (Some (wire (enc_eventType (wrapped_eventType (new_eventType E w et))))) (docs (w_eventTypes w)) \<and>
    docs y' = docs (w_events w) \<and> has_type y' = (has_type (w_events w))(et_Name et := True)"
proof -
  let ?et = "new_eventType E w et" and ?we = "wrapped_eventType (new_eventType E w et)"
  let ?w = "audited (et_CreatedBy et) ''creatingEventType'' (next_ident E w) (drawn w)"
  have types: "list_all (\<lambda>(k, v). IsValidMappingType v) (vars_of (entries_of (et_Mapping ?we)))"
    using mapping_ok_vars_types_ok [of "entries_of (et_Mapping ?we)"] m(1) by (simp add: vars_types_ok_def)
  from EventTypeDB_PostData_new [of E ?w ?we] idx inv ht fresh types obtain x' where x':
    "EventTypeDB_PostData E ?we ?w = (Ret None, ?w\<lparr>w_eventTypes := x'\<rparr>)" "inv x'"
    "docs x' = store_put EventTypeDBMapping (next_ident E w) (Some (wire (enc_eventType ?we))) (docs (w_eventTypes w))"
    "has_type x' = has_type (w_eventTypes w)" by auto
  from schema_wrapped [OF m] obtain v where v:
    "ConstructEventMappingSchema (et_Name et) (addUniqueParams (et_Name et) (et_Mapping et)) = Inr v" by blast
  from EventDB_AddMapping_new [of E "?w\<lparr>w_eventTypes := x'\<rparr>", OF idx _ _ v] inv free(1) obtain y' where y':
    "EventDB_AddMapping E (et_Name et) (addUniqueParams (et_Name et) (et_Mapping et)) (?w\<lparr>w_eventTypes := x'\<rparr>) =
      (Ret None, ?w\<lparr>w_eventTypes := x', w_events := y'\<rparr>)" "inv y'" "docs y' = docs (w_events w)"
    "has_type y' = (has_type (w_events w))(et_Name et := True)" by auto
  have "find (\<lambda>(k, v). str_contains k ''~'') (vars_of (entries_of (et_Mapping ?et))) = None"
    using tilde by (auto simp: find_None_iff list_all_iff)
  with PostEventType_free [OF idx inv ok ht free] x' y' show ?thesis
    by (intro exI [of _ x'] exI [of _ y']) (auto simp: post_unchecked_def store_eventType_def recovered_def bnd_def
        audit_audited upd_stats_app statusCreated_app audited_def)
qed

text \<open>Whatever is posted, the stored event types stay as they were or gain the posted one.\<close>

lemma PostEventType_docs:
  assumes idx: "env_idx E = esi" and inv: "inv (w_eventTypes w)" "inv (w_events w)"
    and ok: "names_ok (docs (w_eventTypes w))" and ht: "has_type (w_eventTypes w) EventTypeDBMapping"
    and fresh: "docs (w_eventTypes w) EventTypeDBMapping (next_ident E w) = None"
  shows "\<exists>r w'. Service_PostEventType E et w = (Ret (Some r), w') \<and> inv (w_eventTypes w') \<and>
    (docs (w_eventTypes w') = docs (w_eventTypes w) \<or>
     (\<not> name_taken (docs (w_eventTypes w)) (et_Name et) \<and>
      docs (w_eventTypes w') = store_put EventTypeDBMapping (next_ident E w)
        (Some (wire (enc_eventType (wrapped_eventType (new_eventType E w et))))) (docs (w_eventTypes w))))"
proof (cases "has_type (w_events w) (et_Name et) \<or> name_taken (docs (w_eventTypes w)) (et_Name et)")
  case True
  from PostEventType_taken [OF idx inv ok this] inv show ?thesis by blast
next
  case False
  let ?et = "new_eventType E w et" and ?we = "wrapped_eventType (new_eventType E w et)"
  let ?w = "audited (et_CreatedBy et) ''creatingEventType'' (next_ident E w) (drawn w)"
  have free: "Service_PostEventType E et w = recovered None (post_unchecked E ?et) (drawn w)"
    using False by (intro PostEventType_free [OF idx inv ok ht]) auto
  show ?thesis
  proof (cases "find (\<lambda>(k, v). str_contains k ''~'') (vars_of (entries_of (et_Mapping ?et)))")
    case (Some kv)
    with free inv show ?thesis
      by (cases kv) (simp add: post_unchecked_def recovered_def statusBadRequest_def statusError_Some)
  next
    case clean: None
    show ?thesis
    proof (cases "find (\<lambda>(k, v). \<not> IsValidMappingType v) (vars_of (entries_of (et_Mapping ?we)))")
      case (Some kv)
      obtain k v where "kv = (k, v)" by (cases kv)
      with Some have "EventTypeDB_PostData E ?we ?w = (Ret (Some (invalid_type_error v)), ?w)"
        by (simp add: EventTypeDB_PostData_def ret_def)
      with free clean inv show ?thesis
        by (simp add: post_unchecked_def store_eventType_def recovered_def bnd_def audit_audited
            fail_with_def status_error_defs statusError_Some)
    next
      case None
      then have types: "list_all (\<lambda>(k, v). IsValidMappingType v) (vars_of (entries_of (et_Mapping ?we)))"
        by (auto simp: find_None_iff list_all_iff)
      from EventTypeDB_PostData_new [of E ?w ?we] idx inv ht fresh types obtain x' where x':
        "EventTypeDB_PostData E ?we ?w = (Ret None, ?w\<lparr>w_eventTypes := x'\<rparr>)" "inv x'"
        "docs x' = store_put EventTypeDBMapping (next_ident E w) (Some (wire (enc_eventType ?we))) (docs (w_eventTypes w))"
        "has_type x' = has_type (w_eventTypes w)" by auto
      let ?m = "addUniqueParams (et_Name et) (et_Mapping et)"
      show ?thesis
      proof (cases "ConstructEventMappingSchema (et_Name et) ?m")
        case (Inr v)
        from EventDB_AddMapping_new [of E "?w\<lparr>w_eventTypes := x'\<rparr>", OF idx _ _ Inr] inv False obtain y' where y':
          "EventDB_AddMapping E (et_Name et) ?m (?w\<lparr>w_eventTypes := x'\<rparr>) =
            (Ret None, ?w\<lparr>w_eventTypes := x', w_events := y'\<rparr>)" by auto
        with free clean x' False show ?thesis
          by (simp add: post_unchecked_def store_eventType_def recovered_def bnd_def audit_audited
              upd_stats_app statusCreated_app)
      next
        case (Inl e)
        let ?w2 = "audited (et_CreatedBy et) ''creatingEventTypeFailure'' (next_ident E w) (?w\<lparr>w_eventTypes := x'\<rparr>)"
        have "docs x' EventTypeDBMapping (next_ident E w) = Some (wire (enc_eventType ?we))"
          using x'(3) by (simp add: store_put_apply)
        from delete_hit [OF x'(2) this] obtain r z where z:
          "ix_DeleteByID esi EventTypeDBMapping (next_ident E w) x' = (Ret (Some r, None), z)" "inv z"
          "docs z = store_put EventTypeDBMapping (next_ident E w) None (docs x')" by blast
        have "docs z = docs (w_eventTypes w)"
          using z(3) x'(3) fresh by (auto simp: fun_eq_iff store_put_apply)
        moreover have "EventTypeDB_DeleteByID E (next_ident E w) ?w2 = (Ret (dr_Found r, None), ?w2\<lparr>w_eventTypes := z\<rparr>)"
          using z(1) idx by (simp add: EventTypeDB_DeleteByID_def on_eventTypes_def zoom_def bnd_def lift_def
              delete_result_ok)
        ultimately show ?thesis using free clean x' z(2) Inl
          by (simp add: post_unchecked_def store_eventType_def recovered_def bnd_def audit_audited
              EventDB_AddMapping_def ret_def status_error_defs statusError_Some)
      qed
    qed
  qed
qed

lemma PostEventType_names_unique:
  assumes "env_idx E = esi" "inv (w_eventTypes w)" "inv (w_events w)"
    "names_ok (docs (w_eventTypes w))" "has_type (w_eventTypes w) EventTypeDBMapping"
    "docs (w_eventTypes w) EventTypeDBMapping (next_ident E w) = None"
    "names_unique (docs (w_eventTypes w))"
  shows "names_unique (docs (w_eventTypes (snd (Service_PostEventType E et w))))"
  using PostEventType_docs [OF assms(1-6), of et] assms(7) names_unique_put [OF assms(7) _ doc_name]
  by auto

end

section \<open>Reading back\<close>

context doc_lookup
begin

lemma GetEventType_hit:
  assumes "env_idx E = esi" "inv (w_eventTypes w)"
    "docs (w_eventTypes w) EventTypeDBMapping i = Some d" "dec_eventType d = Inr et"
    "removeUniqueParams (et_Name et) (et_Mapping et) = Ret m"
  shows "Service_GetEventType E i actor w =
    (Ret (Some (typed_response 200 (PEventType (et\<lparr>et_Mapping := m\<rparr>)))),
     audited actor ''gotEventType'' i (audited actor ''gettingEventType'' i w))"
  using EventTypeDB_GetOne_hit [of E "audited actor ''gettingEventType'' i w" i d et] assms
  by (simp add: Service_GetEventType_def recovered_def bnd_def audit_audited lift_def statusOK_app)

lemma GetEventType_miss:
  assumes "env_idx E = esi" "inv (w_eventTypes w)" "docs (w_eventTypes w) EventTypeDBMapping i = None"
  shows "\<exists>r. fst (Service_GetEventType E i actor w) = Ret (Some r) \<and> StatusCode r = 404"
proof -
  from EventTypeDB_GetOne_miss [of E "audited actor ''gettingEventType'' i w" i] assms obtain e where
    "EventTypeDB_GetOne E i (audited actor ''gettingEventType'' i w) =
       (Ret (None, False, Some e), audited actor ''gettingEventType'' i w)" by auto
  then show ?thesis
    by (simp add: Service_GetEventType_def recovered_def bnd_def audit_audited fail_with_def
        statusNotFound_def statusError_Some message_response_def)
qed

text \<open>A stored, wrapped event type reads back unwrapped.\<close>

lemma GetEventType_wrapped:
  assumes "env_idx E = esi" "inv (w_eventTypes w)"
    "docs (w_eventTypes w) EventTypeDBMapping i = Some (wire (enc_eventType (wrapped_eventType et)))"
    "et_Mapping et = Some m" "json_entries m"
  shows "Service_GetEventType E i actor w = (Ret (Some (typed_response 200 (PEventType et))),
     audited actor ''gotEventType'' i (audited actor ''gettingEventType'' i w))"
proof -
  have "wire_map (addUniqueParams (et_Name et) (Some m)) = addUniqueParams (et_Name et) (Some m)"
    using assms(5) by (simp add: wire_map_addUniqueParams json_entries_def)
  then have get: "Service_GetEventType E i actor w =
      (Ret (Some (typed_response 200 (PEventType (et\<lparr>et_Mapping := Some m\<rparr>)))),
       audited actor ''gotEventType'' i (audited actor ''gettingEventType'' i w))"
    using GetEventType_hit [OF assms(1-3) dec_enc_eventType, of "Some m" actor] assms(4)
    by (simp add: wrapped_eventType_def)
  have eq: "et\<lparr>et_Mapping := Some m\<rparr> = et" using assms(4) by (cases et) simp
  show ?thesis using get unfolding eq .
qed

text \<open>System event types, and event types in use, are not deleted.\<close>

lemma DeleteEventType_system:
  assumes "env_idx E = esi" "inv (w_eventTypes w)"
    "docs (w_eventTypes w) EventTypeDBMapping i = Some d" "dec_eventType d = Inr et"
    "IsSystemEvent (et_Name et)"
  shows "\<exists>r. Service_DeleteEventType E i w = (Ret (Some r), w) \<and> StatusCode r = 400"
  using EventTypeDB_GetOne_hit [OF assms(1-4)] assms(5)
  by (simp add: Service_DeleteEventType_def recovered_def bnd_def statusBadRequest_def statusError_Some
      message_response_def)

end

end
