(* ===== verification/TriggerLaws.thy ===== *)
theory TriggerLaws
  imports EventTypeLaws
begin

text \<open>
  Triggers over any healthy index: a posted trigger reads back with the condition it was posted
  with, and an update switches it on or off and changes nothing else.
\<close>

section \<open>The stored trigger\<close>

definition new_trigger :: "'x env \<Rightarrow> 'x world \<Rightarrow> trigger \<Rightarrow> trigger" where
  "new_trigger E w t = t\<lparr>tr_TriggerID := next_ident E w, tr_CreatedOn := next_time E w\<rparr>"

lemma new_trigger_sel [simp]:
  "tr_TriggerID (new_trigger E w t) = next_ident E w" "tr_CreatedBy (new_trigger E w t) = tr_CreatedBy t"
  "tr_EventTypeID (new_trigger E w t) = tr_EventTypeID t" "tr_Condition (new_trigger E w t) = tr_Condition t"
  "tr_Job (new_trigger E w t) = tr_Job t"
  by (simp_all add: new_trigger_def)

text \<open>What a reader gets: the percolation identifier is set, numbers of the job are JSON numbers.\<close>

definition read_trigger :: "trigger \<Rightarrow> trigger" where
  "read_trigger t = t\<lparr>tr_PercolationID := tr_TriggerID t, tr_Job := wire_job (tr_Job t)\<rparr>"

lemma check_service_upd [simp]:
  "check_service E (t\<lparr>tr_Condition := c\<rparr>) = check_service E t"
  "check_service E (new_trigger E' w t) = check_service E t"
  by (simp_all add: check_service_def new_trigger_def)

lemma wire_job_idem [simp]: "wire_job (wire_job j) = wire_job j"
proof -
  have "wire_entries (wire_entries kvs) = wire_entries kvs" for kvs
    using json_entries_wire unfolding json_entries_def .
  then show ?thesis by (simp add: wire_job_def wire_map_def option.map_comp comp_def)
qed

lemma stored_trigger_reads:
  assumes "json_entries e"
  shows "dec_trigger (wire (enc_trigger (t\<lparr>tr_Condition := Some e\<rparr>))) =
    Inr (t\<lparr>tr_Condition := Some e, tr_Job := wire_job (tr_Job t)\<rparr>)"
  using assms by (simp add: dec_enc_trigger wire_map_def json_entries_def)

section \<open>Posting\<close>

lemma Service_PostTrigger_unfold:
  assumes "tr_EventTypeID t0 \<noteq> []" "EventTypeDB_GetOne E (tr_EventTypeID t0) (drawn w) = (Ret (Some et, True, None), drawn w)"
    "handleUniqueParams (of_gomap (tr_Condition t0)) (et_Name et) add_type_name = VMap u"
  shows "Service_PostTrigger E t0 w = recovered None (
     let t = new_trigger E w t0 in
     bnd (audit (tr_CreatedBy t) ''creatingTrigger'' (tr_TriggerID t)) (\<lambda>_.
     bnd (TriggerDB_PostData E (t\<lparr>tr_Condition := Some u\<rparr>)) (\<lambda>err.
     if err \<noteq> None
       then fail_with (tr_CreatedBy t) ''creatingTriggerFailure'' (tr_TriggerID t) (statusBadRequest E err)
     else bnd (audit (tr_CreatedBy t) ''createdTrigger'' (tr_TriggerID t)) (\<lambda>_.
       bnd (upd_stats IncrTriggers) (\<lambda>_. statusCreated E (PTrigger t)))))) (drawn w)"
  unfolding Service_PostTrigger_def recovered_def draw_both
  using assms by (simp add: Let_def new_trigger_def bnd_Ret [where m = "EventTypeDB_GetOne E (tr_EventTypeID t0)"
    and w = "drawn w", OF assms(2)])

context search_index
begin

lemma PostTrigger_app:
  assumes idx: "env_idx E = esi" and inv: "inv (w_eventTypes w)" "inv (w_triggers w)" "inv (w_events w)"
    and ht: "has_type (w_triggers w) TriggerDBMapping"
    and fresh: "docs (w_triggers w) TriggerDBMapping (next_ident E w) = None"
    and et: "tr_EventTypeID t0 \<noteq> []" "docs (w_eventTypes w) EventTypeDBMapping (tr_EventTypeID t0) = Some d"
      "dec_eventType d = Inr et"
    and svc: "check_service E t0 = Inr ()"
    and enc: "handleUniqueParams (of_gomap (tr_Condition t0)) (et_Name et) add_type_name = VMap u"
      "encodeCondition (VMap u) = VMap e"
  shows "\<exists>x' y' l. Service_PostTrigger E t0 w = (Ret (Some (typed_response 201 (PTrigger (new_trigger E w t0)))),
      (drawn w)\<lparr>w_events := y', w_triggers := x', w_audit := l, w_stats := IncrTriggers (w_stats w)\<rparr>) \<and>
    inv x' \<and> inv y' \<and> has_type x' = has_type (w_triggers w) \<and>
    (\<forall>t' j. t' \<noteq> percolateTypeName \<or> j \<noteq> next_ident E w \<longrightarrow> docs y' t' j = docs (w_events w) t' j) \<and>
    (\<forall>t'. has_type (w_events w) t' \<longrightarrow> has_type y' t') \<and>
    docs x' = store_put TriggerDBMapping (next_ident E w) (Some (wire (enc_trigger
      ((new_trigger E w t0)\<lparr>tr_PercolationID := next_ident E w, tr_Condition := Some e\<rparr>)))) (docs (w_triggers w))"
proof -
  let ?t = "new_trigger E w t0"
  let ?w = "audited (tr_CreatedBy t0) ''creatingTrigger'' (next_ident E w) (drawn w)"
  have one: "EventTypeDB_GetOne E (tr_EventTypeID t0) (drawn w) = (Ret (Some et, True, None), drawn w)"
    using EventTypeDB_GetOne_hit [of E "drawn w" "tr_EventTypeID t0" d et] idx inv et by simp
  have c: "encodeCondition (of_gomap (tr_Condition (?t\<lparr>tr_Condition := Some u\<rparr>))) = of_gomap (Some e)"
    using enc(2) by (simp add: of_gomap_def)
  have t': "?t\<lparr>tr_Condition := Some u, tr_PercolationID := tr_TriggerID (?t\<lparr>tr_Condition := Some u\<rparr>),
      tr_Condition := Some e\<rparr> = ?t\<lparr>tr_PercolationID := next_ident E w, tr_Condition := Some e\<rparr>"
    and i: "tr_TriggerID (?t\<lparr>tr_Condition := Some u\<rparr>) = next_ident E w" by (simp_all add: new_trigger_def)
  from TriggerDB_PostData_new [of E ?w "?t\<lparr>tr_Condition := Some u\<rparr>", OF idx _ _ _ _ _ _ c, unfolded t' i] inv ht fresh svc
  obtain x' y' where p:
    "TriggerDB_PostData E (?t\<lparr>tr_Condition := Some u\<rparr>) ?w = (Ret None, ?w\<lparr>w_events := y', w_triggers := x'\<rparr>)"
    "inv x'" "inv y'" "has_type x' = has_type (w_triggers w)"
    "\<forall>t' j. t' \<noteq> percolateTypeName \<or> j \<noteq> next_ident E w \<longrightarrow> docs y' t' j = docs (w_events w) t' j"
    "\<forall>t'. has_type (w_events w) t' \<longrightarrow> has_type y' t'"
    "docs x' = store_put TriggerDBMapping (next_ident E w) (Some (wire (enc_trigger
      (?t\<lparr>tr_PercolationID := next_ident E w, tr_Condition := Some e\<rparr>)))) (docs (w_triggers w))"
    by auto
  from p show ?thesis unfolding Service_PostTrigger_unfold [OF et(1) one enc(1)]
    by (intro exI [of _ x'] exI [of _ y']) (auto simp: recovered_def bnd_def audit_audited
        upd_stats_app statusCreated_app audited_def Let_def)
qed

end

section \<open>Reading\<close>

context doc_lookup
begin

lemma GetTrigger_hit:
  assumes "env_idx E = esi" "inv (w_eventTypes w)" "inv (w_triggers w)"
    "docs (w_triggers w) TriggerDBMapping i = Some d" "dec_trigger d = Inr t"
    "decodeCondition (of_gomap (tr_Condition t)) = VMap kvs"
    "docs (w_eventTypes w) EventTypeDBMapping (tr_EventTypeID t) = Some de" "dec_eventType de = Inr et"
    "map_of kvs (et_Name et) = None"
  shows "fst (Service_GetTrigger E i w) =
    Ret (Some (typed_response 200 (PTrigger (t\<lparr>tr_Condition := Some kvs\<rparr>))))"
proof -
  let ?w = "audited the_user ''gettingTrigger'' i w"
  have c: "decodeCondition (of_gomap (tr_Condition t)) = of_gomap (Some kvs)"
    using assms(6) by (simp add: of_gomap_def)
  have "TriggerDB_GetOne E i ?w = (Ret (Some (t\<lparr>tr_Condition := Some kvs\<rparr>), True, None), ?w)"
    using TriggerDB_GetOne_hit [of E ?w i d t, OF _ _ _ assms(5) c] assms(1,3,4) by simp
  moreover have "EventTypeDB_GetOne E (tr_EventTypeID t) ?w = (Ret (Some et, True, None), ?w)"
    using EventTypeDB_GetOne_hit [of E ?w "tr_EventTypeID t" de et] assms by simp
  ultimately show ?thesis using assms(9)
    by (simp add: Service_GetTrigger_def recovered_def bnd_def audit_audited lift_def statusOK_app
        removeUniqueParams_def)
qed

lemma GetTrigger_miss:
  assumes "env_idx E = esi" "inv (w_triggers w)" "docs (w_triggers w) TriggerDBMapping i = None"
  shows "\<exists>r. fst (Service_GetTrigger E i w) = Ret (Some r) \<and> StatusCode r = 404"
proof -
  from TriggerDB_GetOne_miss [of E "audited the_user ''gettingTrigger'' i w" i] assms obtain e where
    "TriggerDB_GetOne E i (audited the_user ''gettingTrigger'' i w) =
       (Ret (None, False, Some e), audited the_user ''gettingTrigger'' i w)" by auto
  then show ?thesis
    by (simp add: Service_GetTrigger_def recovered_def bnd_def audit_audited fail_with_def
        statusNotFound_def statusError_Some message_response_def)
qed

end

section \<open>Updating\<close>

text \<open>
  The update rewrites the dots of every key of the whole document. It succeeds when the keys of the
  job's data have neither dots nor tildes and those of the condition no tilde.
\<close>

definition dotfree_key :: "string \<Rightarrow> bool" where
  "dotfree_key k \<longleftrightarrow> CHR ''.'' \<notin> set k \<and> CHR ''~'' \<notin> set k"

text \<open>
  What is read after it is the switched condition, in which every key with two dots or more has
  lost its second component; a condition with at most one dot in each key is its own
  (\<open>one_dot_switched\<close>).
\<close>

definition switchable :: "trigger \<Rightarrow> entries \<Rightarrow> bool" where
  "switchable t kvs \<longleftrightarrow> tr_Condition t = Some kvs \<and> keys_ok_entries plain_key kvs \<and>
     rename_ok drop_renaming (VMap kvs) \<and> json_entries kvs \<and>
     (case jt_Data (jr_JobType (tr_Job t)) of None \<Rightarrow> True
      | Some jd \<Rightarrow> keys_ok_entries dotfree_key jd \<and> json_entries jd)"

lemma enc_renaming_dotfree: "fixes_keys dotfree_key enc_renaming"
  by (simp add: fixes_keys_def dotfree_key_def dot_tilde_renaming_def dots_to_tildes_sub)

lemma dotfree_fixed: "CHR ''.'' \<notin> set k \<Longrightarrow> enc_renaming l k = k"
  by (simp add: dot_tilde_renaming_def dots_to_tildes_sub)

lemma PutTrigger_document_app:
  assumes "switchable t kvs"
  shows "PutTrigger_document t = Ret (wire (enc_trigger (t\<lparr>tr_Condition := Some (rename_entries enc_renaming kvs)\<rparr>)))"
proof -
  let ?j = "tr_Job t"
  have c: "tr_Condition t = Some kvs" "keys_ok_entries plain_key kvs" "wire_entries kvs = kvs"
    using assms by (simp_all add: switchable_def json_entries_def)
  have wc: "wire (VMap kvs) = VMap kvs" using c(3) by (simp add: wire_VMap del: wire.simps(7))
  obtain jd where jd: "wire (of_gomap (jt_Data (jr_JobType ?j))) = jd" "rename_val enc_renaming jd = jd"
      "keys_ok plain_key jd"
  proof (cases "jt_Data (jr_JobType ?j)")
    case None
    then show ?thesis by (intro that [of VNil]) (simp_all add: of_gomap_def)
  next
    case (Some kd)
    have k: "keys_ok_entries dotfree_key kd" "json_entries kd" using assms Some by (simp_all add: switchable_def)
    have "rename_entries enc_renaming kd = kd" using rename_id(2) [OF enc_renaming_dotfree k] .
    moreover have "keys_ok_entries plain_key kd"
      using keys_ok_mono(2) [OF k(1), of plain_key] by (simp add: dotfree_key_def plain_key_def)
    ultimately show ?thesis using Some k(2)
      by (intro that [of "VMap kd"]) (simp_all add: of_gomap_def wire_VMap json_entries_def del: wire.simps(7))
  qed
  let ?d = "\<lambda>c. [(''triggerId'', VStr (tr_TriggerID t)), (''name'', VStr (tr_Name t)),
     (''eventTypeId'', VStr (tr_EventTypeID t)), (''condition'', VMap c),
     (''job'', VMap [(''createdBy'', VStr (jr_CreatedBy ?j)),
        (''jobType'', VMap [(''data'', jd), (''type'', VStr (jt_Type (jr_JobType ?j)))])]),
     (''percolationId'', VStr (tr_PercolationID t)), (''createdBy'', VStr (tr_CreatedBy t)),
     (''createdOn'', VStr (tr_CreatedOn t)), (''enabled'', VBool (tr_Enabled t))]"
  have doc: "wire (enc_trigger t) = VMap (?d kvs)"
    using c(1,3) jd(1) by (simp add: enc_trigger_def enc_jobRequest_def of_gomap_def wire_entries_def [symmetric])
  have "keys_ok plain_key (VMap (?d kvs))" using c(2) jd(3) by (simp add: plain_key_def)
  then have "encodeCondition (VMap (?d kvs)) = rename_val enc_renaming (VMap (?d kvs))"
    by (rule encodeCondition_rename)
  also have "\<dots> = VMap (?d (rename_entries enc_renaming kvs))"
    using jd(2) by (simp add: dotfree_fixed)
  also have "\<dots> = wire (enc_trigger (t\<lparr>tr_Condition := Some (rename_entries enc_renaming kvs)\<rparr>))"
    using json_rename(2) [of kvs enc_renaming] c(3) jd(1)
    by (simp add: enc_trigger_def enc_jobRequest_def of_gomap_def json_entries_def wire_entries_def [symmetric])
  finally show ?thesis
    by (simp add: PutTrigger_document_def doc encodeCondition_def of_gomap_def)
qed

text \<open>The update of a stored trigger, and what is stored afterwards.\<close>

lemma switchable_enabled [simp]: "switchable (t\<lparr>tr_Enabled := b\<rparr>) kvs = switchable t kvs"
  by (simp add: switchable_def)

context doc_index
begin

lemma PutTrigger_app:
  assumes idx: "env_idx E = esi" and inv: "inv (w_triggers w)"
    and d: "docs (w_triggers w) TriggerDBMapping i = Some d" "dec_trigger d = Inr t0"
    and t: "decodeCondition (of_gomap (tr_Condition t0)) = VMap kvs" "tr_TriggerID t0 = i" "i \<noteq> []"
    and u: "switchable (t0\<lparr>tr_Condition := Some kvs\<rparr>) kvs"
  shows "\<exists>x' l. Service_PutTrigger E i \<lparr>tu_Enabled = b\<rparr> w =
      (Ret (Some (message_response 200 ''success'' ''Updated trigger'' (env_Name E))), w\<lparr>w_triggers := x', w_audit := l\<rparr>) \<and>
    inv x' \<and> has_type x' = has_type (w_triggers w) \<and> docs x' = store_put TriggerDBMapping i
      (Some (wire (enc_trigger (t0\<lparr>tr_Enabled := b, tr_Condition := Some (rename_entries enc_renaming kvs)\<rparr>))))
      (docs (w_triggers w))"
proof -
  let ?t = "t0\<lparr>tr_Condition := Some kvs\<rparr>"
  let ?w = "audited the_user ''updatingTrigger'' i w"
  have c: "decodeCondition (of_gomap (tr_Condition t0)) = of_gomap (Some kvs)"
    using t(1) by (simp add: of_gomap_def)
  have one: "TriggerDB_GetOne E i w = (Ret (Some ?t, True, None), w)"
    using TriggerDB_GetOne_hit [of E w i d t0, OF idx inv d c] .
  have ht: "has_type (w_triggers w) TriggerDBMapping" using doc_type [OF inv] d(1) by blast
  have eq: "?t\<lparr>tr_Enabled := b, tr_Condition := Some (rename_entries enc_renaming kvs)\<rparr> =
      t0\<lparr>tr_Enabled := b, tr_Condition := Some (rename_entries enc_renaming kvs)\<rparr>" by simp
  have "PutTrigger_document (?t\<lparr>tr_Enabled := b\<rparr>) = Ret (wire (enc_trigger
      (t0\<lparr>tr_Enabled := b, tr_Condition := Some (rename_entries enc_renaming kvs)\<rparr>)))"
    using PutTrigger_document_app [of "?t\<lparr>tr_Enabled := b\<rparr>" kvs] u unfolding eq by simp
  from TriggerDB_put [of E ?w ?t, OF idx _ _ _ this] inv ht t(2,3) obtain x' where
    "TriggerDB_PutTrigger E ?t \<lparr>tu_Enabled = b\<rparr> ?w = (Ret (?t\<lparr>tr_Enabled := b\<rparr>, None), ?w\<lparr>w_triggers := x'\<rparr>)"
    "inv x'" "has_type x' = has_type (w_triggers w)" "docs x' = store_put TriggerDBMapping i
      (Some (wire (enc_trigger (t0\<lparr>tr_Enabled := b, tr_Condition := Some (rename_entries enc_renaming kvs)\<rparr>))))
      (docs (w_triggers w))" by auto
  then show ?thesis
    by (intro exI [of _ x']) (auto simp: Service_PutTrigger_def recovered_def bnd_def one audit_audited
        lift_def statusPutOK_def ret_def audited_def)
qed

end

section \<open>Round trips\<close>

lemma read_trigger_sel [simp]: "tr_Condition (read_trigger t) = tr_Condition t"
  "tr_EventTypeID (read_trigger t) = tr_EventTypeID t" "tr_TriggerID (read_trigger t) = tr_TriggerID t"
  by (simp_all add: read_trigger_def)

context search_index
begin

text \<open>Posting, then reading: the trigger as posted, with what the service fills in.\<close>

lemma post_then_get:
  assumes idx: "env_idx E = esi" and inv: "inv (w_eventTypes w)" "inv (w_triggers w)" "inv (w_events w)"
    and ht: "has_type (w_triggers w) TriggerDBMapping"
    and fresh: "docs (w_triggers w) TriggerDBMapping (next_ident E w) = None"
    and et: "tr_EventTypeID t0 \<noteq> []" "docs (w_eventTypes w) EventTypeDBMapping (tr_EventTypeID t0) = Some d"
      "dec_eventType d = Inr et" "type_name_ok (et_Name et)"
    and svc: "check_service E t0 = Inr ()"
    and c: "tr_Condition t0 = Some kvs" "keys_ok_entries cond_key kvs" "json_entries kvs"
      "map_of kvs (et_Name et) = None"
  shows "\<exists>w' e. Service_PostTrigger E t0 w = (Ret (Some (typed_response 201 (PTrigger (new_trigger E w t0)))), w') \<and>
    fst (Service_GetTrigger E (next_ident E w) w') =
      Ret (Some (typed_response 200 (PTrigger (read_trigger (new_trigger E w t0))))) \<and>
    inv (w_triggers w') \<and> w_eventTypes w' = w_eventTypes w \<and> json_entries e \<and> decodeCondition (VMap e) = VMap kvs \<and>
    docs (w_triggers w') TriggerDBMapping (next_ident E w) =
      Some (wire (enc_trigger ((read_trigger (new_trigger E w t0))\<lparr>tr_Condition := Some e\<rparr>))) \<and>
    w_alerts w' = w_alerts w \<and> w_mq w' = w_mq w \<and> w_rand w' = w_rand w + 16 \<and> inv (w_events w') \<and>
    (\<forall>t' j. j \<noteq> next_ident E w \<longrightarrow> docs (w_events w') t' j = docs (w_events w) t' j) \<and>
    (\<forall>t'. has_type (w_events w) t' \<longrightarrow> has_type (w_events w') t')"
proof -
  let ?t = "new_trigger E w t0" and ?i = "next_ident E w"
  from condition_stored [OF et(4) c(2,3)] obtain u e where ue:
    "handleUniqueParams (of_gomap (tr_Condition t0)) (et_Name et) add_type_name = VMap u"
    "encodeCondition (VMap u) = VMap e" "json_entries e" "decodeCondition (VMap e) = VMap kvs"
    by (auto simp: c(1) of_gomap_def)
  from PostTrigger_app [OF idx inv ht fresh et(1-3) svc ue(1,2)] obtain x' y' l where post:
    "Service_PostTrigger E t0 w = (Ret (Some (typed_response 201 (PTrigger ?t))),
      (drawn w)\<lparr>w_events := y', w_triggers := x', w_audit := l, w_stats := IncrTriggers (w_stats w)\<rparr>)"
    "inv x'" "docs x' = store_put TriggerDBMapping ?i (Some (wire (enc_trigger
      (?t\<lparr>tr_PercolationID := ?i, tr_Condition := Some e\<rparr>)))) (docs (w_triggers w))" "inv y'"
    "\<forall>t' j. t' \<noteq> percolateTypeName \<or> j \<noteq> ?i \<longrightarrow> docs y' t' j = docs (w_events w) t' j"
    "\<forall>t'. has_type (w_events w) t' \<longrightarrow> has_type y' t'" by blast
  let ?w = "(drawn w)\<lparr>w_events := y', w_triggers := x', w_audit := l, w_stats := IncrTriggers (w_stats w)\<rparr>"
  let ?s = "?t\<lparr>tr_PercolationID := ?i, tr_Condition := Some e, tr_Job := wire_job (tr_Job t0)\<rparr>"
  have dec: "dec_trigger (wire (enc_trigger (?t\<lparr>tr_PercolationID := ?i, tr_Condition := Some e\<rparr>))) = Inr ?s"
    using stored_trigger_reads [OF ue(3), of "?t\<lparr>tr_PercolationID := ?i\<rparr>"] by simp
  have "wire (enc_trigger (?t\<lparr>tr_PercolationID := ?i, tr_Condition := Some e\<rparr>)) =
      wire (enc_trigger ((read_trigger ?t)\<lparr>tr_Condition := Some e\<rparr>))"
    by (simp add: enc_trigger_def read_trigger_def enc_jobRequest_def wire_job_def wire_map_def
        wire_of_gomap wire_entries_def comp_def prod.map_comp id_def split: option.split)
  then have docs': "docs x' TriggerDBMapping ?i = Some (wire (enc_trigger ((read_trigger ?t)\<lparr>tr_Condition := Some e\<rparr>)))"
    using post(3) by (simp add: store_put_apply)
  have get: "fst (Service_GetTrigger E ?i ?w) = Ret (Some (typed_response 200 (PTrigger (?s\<lparr>tr_Condition := Some kvs\<rparr>))))"
    by (rule GetTrigger_hit [where de = d and et = et, OF idx _ _ _ dec])
       (use inv(1) post(2,3) ue(4) et c(4) in \<open>simp_all add: store_put_apply of_gomap_def\<close>)
  have eq: "?s\<lparr>tr_Condition := Some kvs\<rparr> = read_trigger ?t"
    using c(1) by (cases t0) (simp add: read_trigger_def new_trigger_def)
  show ?thesis using get post(1,2,4-6) docs' ue(3,4) unfolding eq
    by (intro exI [of _ ?w] exI [of _ e]) (simp add: drawn_def)
qed

text \<open>Switching a stored trigger, then reading it.\<close>

lemma put_then_get:
  assumes idx: "env_idx E = esi" and inv: "inv (w_eventTypes w)" "inv (w_triggers w)"
    and stored: "docs (w_triggers w) TriggerDBMapping i = Some (wire (enc_trigger (t\<lparr>tr_Condition := Some e\<rparr>)))"
      "json_entries e" "decodeCondition (VMap e) = VMap kvs"
    and t: "tr_TriggerID t = i" "i \<noteq> []" "tr_Job t = wire_job (tr_Job t)" "switchable t kvs"
    and et: "docs (w_eventTypes w) EventTypeDBMapping (tr_EventTypeID t) = Some d" "dec_eventType d = Inr et"
      "map_of (switched kvs) (et_Name et) = None"
  shows "\<exists>w'. Service_PutTrigger E i \<lparr>tu_Enabled = b\<rparr> w =
      (Ret (Some (message_response 200 ''success'' ''Updated trigger'' (env_Name E))), w') \<and>
    fst (Service_GetTrigger E i w') =
      Ret (Some (typed_response 200 (PTrigger (t\<lparr>tr_Enabled := b, tr_Condition := Some (switched kvs)\<rparr>))))"
proof -
  let ?t0 = "t\<lparr>tr_Condition := Some e\<rparr>" and ?r = "rename_entries enc_renaming kvs"
  have cond: "tr_Condition t = Some kvs" "keys_ok_entries plain_key kvs" "rename_ok drop_renaming (VMap kvs)"
    "json_entries kvs" using t(4) by (simp_all add: switchable_def)
  have eqj: "t\<lparr>tr_Condition := c, tr_Job := wire_job (tr_Job t)\<rparr> = t\<lparr>tr_Condition := c\<rparr>" for c
    using t(3) by (cases t) simp
  have dec: "dec_trigger (wire (enc_trigger ?t0)) = Inr ?t0"
    using stored_trigger_reads [OF stored(2), of t] unfolding eqj .
  have upd: "switchable (?t0\<lparr>tr_Condition := Some kvs\<rparr>) kvs" using t(4) by (simp add: switchable_def)
  have c0: "decodeCondition (of_gomap (tr_Condition ?t0)) = VMap kvs" using stored(3) by (simp add: of_gomap_def)
  have i0: "tr_TriggerID ?t0 = i" using t(1) by simp
  from PutTrigger_app [OF idx inv(2) stored(1) dec c0 i0 t(2) upd, of b] obtain x' l where put:
    "Service_PutTrigger E i \<lparr>tu_Enabled = b\<rparr> w =
      (Ret (Some (message_response 200 ''success'' ''Updated trigger'' (env_Name E))), w\<lparr>w_triggers := x', w_audit := l\<rparr>)"
    "inv x'" "docs x' = store_put TriggerDBMapping i
      (Some (wire (enc_trigger (t\<lparr>tr_Enabled := b, tr_Condition := Some ?r\<rparr>)))) (docs (w_triggers w))" by auto
  let ?w = "w\<lparr>w_triggers := x', w_audit := l\<rparr>"
  note r = condition_switched [OF cond(2-4)]
  have eqj': "t\<lparr>tr_Enabled := b, tr_Condition := c, tr_Job := wire_job (tr_Job t)\<rparr> = t\<lparr>tr_Enabled := b, tr_Condition := c\<rparr>"
    for c using t(3) by (cases t) simp
  have dec': "dec_trigger (wire (enc_trigger (t\<lparr>tr_Enabled := b, tr_Condition := Some ?r\<rparr>))) =
      Inr (t\<lparr>tr_Enabled := b, tr_Condition := Some ?r\<rparr>)"
    using stored_trigger_reads [OF r(1), of "t\<lparr>tr_Enabled := b\<rparr>"] eqj' [of "Some ?r"] by simp
  have get: "fst (Service_GetTrigger E i ?w) = Ret (Some (typed_response 200
      (PTrigger ((t\<lparr>tr_Enabled := b, tr_Condition := Some ?r\<rparr>)\<lparr>tr_Condition := Some (switched kvs)\<rparr>))))"
    by (rule GetTrigger_hit [where de = d and et = et, OF idx _ _ _ dec'])
       (use inv(1) put(2,3) r(2) et in \<open>simp_all add: store_put_apply of_gomap_def\<close>)
  then show ?thesis using put(1) by (intro exI [of _ ?w]) simp
qed

end

end
