(* ===== verification/EventLaws.thy ===== *)
theory EventLaws
  imports TriggerLaws
begin

text \<open>
  Events over any healthy index that percolates: the check of an event against its type,
  posting and reading back.
\<close>

section \<open>The stored event\<close>

definition new_event :: "'x env \<Rightarrow> 'x world \<Rightarrow> event \<Rightarrow> event" where
  "new_event E w ev = ev\<lparr>ev_EventID := next_ident E w, ev_CreatedOn := next_time E w\<rparr>"

definition wrapped_event :: "string \<Rightarrow> event \<Rightarrow> event" where
  "wrapped_event n ev = ev\<lparr>ev_Data := addUniqueParams n (ev_Data ev)\<rparr>"

lemma new_event_sel [simp]:
  "ev_EventID (new_event E w ev) = next_ident E w" "ev_EventTypeID (new_event E w ev) = ev_EventTypeID ev"
  "ev_Data (new_event E w ev) = ev_Data ev" "ev_CreatedBy (new_event E w ev) = ev_CreatedBy ev"
  by (simp_all add: new_event_def)

lemma wrapped_event_sel [simp]:
  "ev_EventID (wrapped_event n ev) = ev_EventID ev" "ev_EventTypeID (wrapped_event n ev) = ev_EventTypeID ev"
  "ev_Data (wrapped_event n ev) = addUniqueParams n (ev_Data ev)" "ev_CreatedBy (wrapped_event n ev) = ev_CreatedBy ev"
  by (simp_all add: wrapped_event_def)

text \<open>The verdict on an event's data: its variables against those of the mapping.\<close>

definition event_check :: "entries \<Rightarrow> entries \<Rightarrow> err" where
  "event_check m kvs = check_vars (vars_of m) (getVarsFromStructHelper kvs [] [] (geo_vars (vars_of m)))"

lemma wrapped_event_reads:
  assumes "json_entries kvs" "ev_Data ev = Some kvs"
  shows "dec_event (wire (enc_event (wrapped_event n ev))) = Inr (wrapped_event n ev)"
proof -
  have "wire_map (addUniqueParams n (Some kvs)) = addUniqueParams n (Some kvs)"
    using assms(1) by (simp add: wire_map_addUniqueParams json_entries_def)
  then show ?thesis using assms(2) by (simp add: dec_enc_event wrapped_event_def)
qed

context doc_lookup
begin

text \<open>A stored event type: wrapped, with a JSON mapping.\<close>

lemma verify_app:
  assumes "env_idx E = esi" "inv (w_eventTypes w)"
    "docs (w_eventTypes w) EventTypeDBMapping (ev_EventTypeID ev) = Some (wire (enc_eventType (wrapped_eventType et)))"
    "et_Mapping et = Some m" "json_entries m" "ev_Data ev = Some kvs"
  shows "EventDB_verifyEventReadyToPost E (wrapped_event (et_Name et) ev) w = (Ret (event_check m kvs),
    audited (ev_CreatedBy ev) ''gotEventType'' (ev_EventTypeID ev)
      (audited (ev_CreatedBy ev) ''gettingEventType'' (ev_EventTypeID ev) w))"
  using GetEventType_wrapped [OF assms(1-5), of "ev_CreatedBy ev"] assms(4,6)
  by (simp add: EventDB_verifyEventReadyToPost_def bnd_def lift_def ret_def event_check_def
      GetVarsFromStructSkip_def)

lemma GetOne_wrapped:
  assumes "env_idx E = esi" "inv (w_eventTypes w)"
    "docs (w_eventTypes w) EventTypeDBMapping i = Some (wire (enc_eventType (wrapped_eventType et)))"
  shows "\<exists>et'. EventTypeDB_GetOne E i w = (Ret (Some et', True, None), w) \<and> et_Name et' = et_Name et \<and>
    et_EventTypeID et' = et_EventTypeID et \<and> et_CreatedBy et' = et_CreatedBy et"
  using EventTypeDB_GetOne_hit [OF assms dec_enc_eventType] by (auto simp: wrapped_eventType_def)

end

section \<open>Posting\<close>

text \<open>The state in which a posted event is percolated: stored and audited.\<close>

lemma Service_PostEvent_unfold:
  assumes "EventTypeDB_GetOne E (ev_EventTypeID ev0) w = (Ret (Some et, True, None), w)"
  shows "Service_PostEvent E ev0 w = recovered None (
     let response = new_event E w ev0; ev = wrapped_event (et_Name et) response in
     bnd (audit (ev_CreatedBy ev) ''creatingEvent'' (ev_EventID ev)) (\<lambda>_.
     bnd (EventDB_PostData E ev (et_Name et)) (\<lambda>err.
     if err \<noteq> None
       then fail_with (ev_CreatedBy ev) ''creatingEventFailure'' (ev_EventID ev) (statusBadRequest E err)
     else bnd (audit (ev_CreatedBy ev) ''createdEvent'' (ev_EventID ev)) (\<lambda>_.
     bnd (EventDB_PercolateEventData E (et_Name et) (ev_Data ev)) (\<lambda>(triggerIDs, err1).
     if err1 \<noteq> None then statusBadRequest E err1
     else bnd (lift (deref triggerIDs)) (\<lambda>ids.
     bnd (fire_triggers E et ev ids []) (\<lambda>results.
     case first_failure results of
       Some v \<Rightarrow> ret (Some v)
     | None \<Rightarrow> bnd (upd_stats IncrEvents) (\<lambda>_. statusCreated E (PEvent response))))))))) (drawn w)"
  unfolding Service_PostEvent_def recovered_def
  by (simp add: bnd_Ret [where m = "EventTypeDB_GetOne E (ev_EventTypeID ev0)", OF assms] draw_both Let_def
      wrapped_event_def new_event_def cong: if_cong option.case_cong)

context trigger_index
begin

lemma EventDB_Percolate_app:
  assumes "env_idx E = esi" "inv (w_events w)"
  shows "\<exists>x'. EventDB_PercolateEventData E t d w =
      (Ret (Some (matches (w_events w) t (VMap [(''data'', of_gomap d)])), None), w\<lparr>w_events := x'\<rparr>) \<and> inv x' \<and>
    (\<forall>t' i. t' \<noteq> percolateTypeName \<or> i \<noteq> ''0'' \<longrightarrow> docs x' t' i = docs (w_events w) t' i) \<and>
    (\<forall>t'. has_type (w_events w) t' \<longrightarrow> has_type x' t')"
proof -
  from add_document [OF assms(2), of t "VMap [(''data'', of_gomap d)]"] obtain p x' where
    "ix_AddPercolationDocument esi t (VMap [(''data'', of_gomap d)]) (w_events w) = (Ret (Some p, None), x')"
    "map prm_Id (pr_Matches p) = matches (w_events w) t (VMap [(''data'', of_gomap d)])" "inv x'"
    "\<forall>t' i. t' \<noteq> percolateTypeName \<or> i \<noteq> ''0'' \<longrightarrow> docs x' t' i = docs (w_events w) t' i"
    "\<forall>t'. has_type (w_events w) t' \<longrightarrow> has_type x' t'" by blast
  with assms(1) show ?thesis
    by (intro exI [of _ x']) (simp add: EventDB_PercolateEventData_def on_events_def zoom_def bnd_def ret_def)
qed

text \<open>
  Up to the firing of the triggers: the event is stored under its type's name, the log and the
  percolator's own document apart nothing else changes, and the matches are fired.
\<close>

lemma PostEvent_stored:
  assumes idx: "env_idx E = esi" and inv: "inv (w_eventTypes w)" "inv (w_events w)"
    and et: "docs (w_eventTypes w) EventTypeDBMapping (ev_EventTypeID ev) = Some (wire (enc_eventType (wrapped_eventType et)))"
      "et_Mapping et = Some m" "json_entries m" "has_type (w_events w) (et_Name et)"
    and ev: "ev_Data ev = Some kvs" "event_check m kvs = None"
    and fresh: "docs (w_events w) (et_Name et) (next_ident E w) = None"
  shows "\<exists>x1 x2 l et'. Service_PostEvent E ev w = recovered None (
      bnd (fire_triggers E et' (wrapped_event (et_Name et) (new_event E w ev))
        (matches x1 (et_Name et) (VMap [(''data'', of_gomap (addUniqueParams (et_Name et) (ev_Data ev)))])) []) (\<lambda>results.
      case first_failure results of
        Some v \<Rightarrow> ret (Some v)
      | None \<Rightarrow> bnd (upd_stats IncrEvents) (\<lambda>_. statusCreated E (PEvent (new_event E w ev)))))
      ((drawn w)\<lparr>w_events := x2, w_audit := l\<rparr>) \<and>
    et_Name et' = et_Name et \<and> et_EventTypeID et' = et_EventTypeID et \<and> et_CreatedBy et' = et_CreatedBy et \<and>
    inv x1 \<and> inv x2 \<and> docs x1 = store_put (et_Name et) (next_ident E w)
      (Some (wire (enc_event (wrapped_event (et_Name et) (new_event E w ev))))) (docs (w_events w)) \<and>
    (\<forall>t' i. t' \<noteq> percolateTypeName \<or> i \<noteq> ''0'' \<longrightarrow> docs x2 t' i = docs x1 t' i) \<and>
    (\<forall>t'. has_type (w_events w) t' \<longrightarrow> has_type x2 t')"
proof -
  let ?n = "et_Name et" and ?ev = "new_event E w ev"
  let ?w1 = "audited (ev_CreatedBy ev) ''creatingEvent'' (next_ident E w) (drawn w)"
  let ?w2 = "audited (ev_CreatedBy ev) ''gotEventType'' (ev_EventTypeID ev)
      (audited (ev_CreatedBy ev) ''gettingEventType'' (ev_EventTypeID ev) ?w1)"
  from GetOne_wrapped [OF idx inv(1) et(1)] obtain et' where et':
    "EventTypeDB_GetOne E (ev_EventTypeID ev) w = (Ret (Some et', True, None), w)" "et_Name et' = ?n"
    "et_EventTypeID et' = et_EventTypeID et" "et_CreatedBy et' = et_CreatedBy et" by blast
  have ver: "EventDB_verifyEventReadyToPost E (wrapped_event ?n ?ev) ?w1 = (Ret None, ?w2)"
    using verify_app [of E ?w1 ?ev et m kvs] idx inv et ev by simp
  from EventDB_post_new [of E ?w2 ?n "wrapped_event ?n ?ev", OF idx _ _ _ _ ver] inv et(4) fresh obtain x1 where x1:
    "EventDB_PostData E (wrapped_event ?n ?ev) ?n ?w1 = (Ret None, ?w2\<lparr>w_events := x1\<rparr>)" "inv x1"
    "docs x1 = store_put ?n (next_ident E w) (Some (wire (enc_event (wrapped_event ?n ?ev)))) (docs (w_events w))"
    "has_type x1 = has_type (w_events w)" by auto
  let ?w3 = "audited (ev_CreatedBy ev) ''createdEvent'' (next_ident E w) (?w2\<lparr>w_events := x1\<rparr>)"
  from EventDB_Percolate_app [OF idx, of ?w3 ?n "addUniqueParams ?n (ev_Data ev)"] x1(2) obtain x2 where x2:
    "EventDB_PercolateEventData E ?n (addUniqueParams ?n (ev_Data ev)) ?w3 =
      (Ret (Some (matches x1 ?n (VMap [(''data'', of_gomap (addUniqueParams ?n (ev_Data ev)))])), None), ?w3\<lparr>w_events := x2\<rparr>)"
    "inv x2" "\<forall>t' i. t' \<noteq> percolateTypeName \<or> i \<noteq> ''0'' \<longrightarrow> docs x2 t' i = docs x1 t' i"
    "\<forall>t'. has_type x1 t' \<longrightarrow> has_type x2 t'" by auto
  have w3: "?w3\<lparr>w_events := x2\<rparr> = (drawn w)\<lparr>w_events := x2, w_audit := w_audit ?w3\<rparr>"
    by (simp add: audited_def)
  show ?thesis
    unfolding Service_PostEvent_unfold [OF et'(1)] recovered_def
    by (intro exI [of _ x1] exI [of _ x2] exI [of _ "w_audit ?w3"] exI [of _ et'])
       (use x1 x2 et' w3 in \<open>simp add: Let_def bnd_def audit_audited lift_def\<close>)
qed

end

end
