(* ===== verification/FiringLaws.thy ===== *)
theory FiringLaws
  imports EventLaws
begin

text \<open>
  What a posted event sets off: the triggers it matches each send one job and leave one alert,
  unless they are disabled or belong to another event type.
\<close>

section \<open>Reading an event\<close>

context trigger_index
begin

lemma lookup_type_app:
  assumes "env_idx E = esi" "inv (w_events w)" "docs (w_events w) t i \<noteq> None"
    "\<forall>t'. t' \<noteq> t \<longrightarrow> docs (w_events w) t' i = None" "t \<noteq> []"
  shows "EventDB_lookupEventTypeNameByEventID E i w = (Ret (t, None), w)"
proof -
  from get_types [OF assms(2)] obtain ts where ts:
    "ix_GetTypes esi (w_events w) = (Ret (ts, None), w_events w)" "set ts = {t. has_type (w_events w) t}" by blast
  have "t \<in> set ts" using ts(2) doc_type [OF assms(2,3)] by simp
  then have "find (\<lambda>t. docs (w_events w) t i \<noteq> None) ts = Some t"
    using assms(3,4)
  proof (induction ts)
    case (Cons u us)
    then show ?case by (cases "u = t") auto
  qed simp
  with find_type_app [OF assms(2,1), of i ts] ts(1) assms(1,5) show ?thesis
    by (simp add: EventDB_lookupEventTypeNameByEventID_def on_events_def zoom_def bnd_def ret_def)
qed

lemma lookup_type_miss:
  assumes "env_idx E = esi" "inv (w_events w)" "\<forall>t. docs (w_events w) t i = None"
  shows "\<exists>e. EventDB_lookupEventTypeNameByEventID E i w = (Ret ([], Some e), w)"
proof -
  from get_types [OF assms(2)] obtain ts where ts:
    "ix_GetTypes esi (w_events w) = (Ret (ts, None), w_events w)" by blast
  have "find (\<lambda>t. docs (w_events w) t i \<noteq> None) ts = None"
    using assms(3) by (simp add: find_None_iff)
  with find_type_app [OF assms(2,1), of i ts] ts assms(1) show ?thesis
    by (simp add: EventDB_lookupEventTypeNameByEventID_def on_events_def zoom_def bnd_def ret_def)
qed

lemma GetEvent_hit:
  assumes "env_idx E = esi" "inv (w_events w)" "docs (w_events w) t i = Some d"
    "\<forall>t'. t' \<noteq> t \<longrightarrow> docs (w_events w) t' i = None" "t \<noteq> []"
    "dec_event d = Inr ev" "removeUniqueParams t (ev_Data ev) = Ret kvs"
  shows "fst (Service_GetEvent E i w) = Ret (Some (typed_response 200 (PEvent (ev\<lparr>ev_Data := kvs\<rparr>))))"
  using lookup_type_app [of E w t i] EventDB_GetOne_hit [of E "audited the_user ''gettingEvent'' i w" t i d ev] assms
  by (simp add: Service_GetEvent_def recovered_def bnd_def audit_audited lift_def statusOK_app)

end

section \<open>Firing one trigger\<close>

definition access_granted :: "'x env \<Rightarrow> eventType \<Rightarrow> bool" where
  "access_granted E et \<longleftrightarrow> (case env_GetURL E of Inl e \<Rightarrow> True
     | Inr url \<Rightarrow> RequestAuthZAccess E url (et_CreatedBy et) = (True, None))"

definition queue_accepts :: "'x env \<Rightarrow> string \<Rightarrow> string \<Rightarrow> bool" where
  "queue_accepts E q body \<longleftrightarrow> (case env_GetAddress E of Inl e \<Rightarrow> False | Inr addr \<Rightarrow>
     env_amqp_dial E addr = None \<and> env_amqp_channel E addr = None \<and>
     env_amqp_queue E (''Request-Job-'' @ env_Space E) = Inr q \<and> env_amqp_publish E ''Piazza'' q body = None)"

definition job_message :: "string \<Rightarrow> entries \<Rightarrow> trigger \<Rightarrow> mqMessage" where
  "job_message q kvs t = \<lparr>mq_exchange = ''Piazza'', mq_key = q,
     mq_body = substitute kvs (json_text (enc_jobRequest (tr_Job t)))\<rparr>"

definition fires :: "eventType \<Rightarrow> trigger \<Rightarrow> bool" where
  "fires et t \<longleftrightarrow> tr_Enabled t \<and> tr_EventTypeID t = et_EventTypeID et"

text \<open>The identifier made from the random bytes at a position.\<close>

definition ident_at :: "'x env \<Rightarrow> nat \<Rightarrow> ident" where
  "ident_at E p = encodeHex (NewUuid (random_bytes (env_rand E) p))"

lemma next_ident_at: "next_ident E w = ident_at E (w_rand w)"
  by (simp add: next_ident_def ident_at_def)

definition fired_alert :: "'x env \<Rightarrow> 'x world \<Rightarrow> ident \<Rightarrow> event \<Rightarrow> trigger \<Rightarrow> alert" where
  "fired_alert E w i ev t = \<lparr>al_AlertID = ident_at E (w_rand w + 16), al_TriggerID = i,
     al_EventID = ev_EventID ev, al_JobID = next_ident E w, al_CreatedBy = tr_CreatedBy t,
     al_CreatedOn = next_time E w\<rparr>"

lemma check_access_granted:
  assumes "access_granted E et"
  shows "\<exists>l. check_access E et w = (Ret None, w\<lparr>w_audit := l\<rparr>)"
proof (cases "env_GetURL E")
  case (Inl e)
  then show ?thesis by (intro exI [of _ "w_audit w"]) (simp add: check_access_def ret_def)
next
  case (Inr url)
  with assms show ?thesis
    by (intro exI [of _ "w_audit (audited the_user ''createJobRequestAccess'' ''pz-idam'' w)"])
      (simp add: check_access_def access_granted_def bnd_def audit_app ret_def audited_def)
qed

lemma send_accepted:
  assumes "queue_accepts E q body"
  shows "\<exists>l. sendToRabbitMQ E body j actor w = (Ret None, w\<lparr>w_audit := l,
    w_mq := w_mq w @ [\<lparr>mq_exchange = ''Piazza'', mq_key = q, mq_body = body\<rparr>]\<rparr>)"
proof -
  obtain addr where "env_GetAddress E = Inr addr" "env_amqp_dial E addr = None" "env_amqp_channel E addr = None"
    "env_amqp_queue E (''Request-Job-'' @ env_Space E) = Inr q" "env_amqp_publish E ''Piazza'' q body = None"
    using assms by (cases "env_GetAddress E") (auto simp: queue_accepts_def)
  moreover have "w_mq_update f (w\<lparr>w_audit := a\<rparr>) = w\<lparr>w_audit := a, w_mq := f (w_mq w)\<rparr>" for f a
    by (cases w) simp
  ultimately show ?thesis
    by (intro exI [of _ "w_audit (audited actor ''creatingJob'' ''rabbitmq'' w)"])
      (simp add: sendToRabbitMQ_def bnd_def audit_app modify_def ret_def audited_def)
qed

context doc_index
begin

lemma fire_trigger_idle:
  assumes "TriggerDB_GetOne E i w = (Ret (Some t, True, None), w)" "\<not> fires et t"
  shows "fire_trigger E et ev i w = (Ret None, w)"
  using assms by (auto simp: fire_trigger_def bnd_def lift_def ret_def fires_def)

lemma fire_trigger_app:
  assumes idx: "env_idx E = esi" and inv: "inv (w_alerts w)" "has_type (w_alerts w) AlertDBMapping"
    and t: "\<And>w'. w_triggers w' = w_triggers w \<Longrightarrow> TriggerDB_GetOne E i w' = (Ret (Some t, True, None), w')" "fires et t"
    and ok: "access_granted E et" "queue_accepts E q (mq_body (job_message q kvs t))"
    and d: "map_of (entries_of (ev_Data ev)) (et_Name et) = Some (VMap kvs)"
    and fresh: "docs (w_alerts w) AlertDBMapping (ident_at E (w_rand w + 16)) = None"
  shows "\<exists>x' l. fire_trigger E et ev i w = (Ret None, w\<lparr>w_alerts := x', w_audit := l,
      w_mq := w_mq w @ [job_message q kvs t], w_stats := IncrAlerts (IncrTriggerJobs (w_stats w)),
      w_rand := w_rand w + 32, w_time := Suc (w_time w)\<rparr>) \<and>
    inv x' \<and> has_type x' = has_type (w_alerts w) \<and>
    docs x' = store_put AlertDBMapping (ident_at E (w_rand w + 16))
      (Some (wire (enc_alert (fired_alert E w i ev t)))) (docs (w_alerts w))"
proof -
  let ?m = "job_message q kvs t"
  let ?a0 = "\<lparr>al_AlertID = [], al_TriggerID = i, al_EventID = ev_EventID ev, al_JobID = next_ident E w,
      al_CreatedBy = tr_CreatedBy t, al_CreatedOn = zero_time\<rparr>"
  let ?w1 = "w\<lparr>w_rand := w_rand w + 16\<rparr>"
  from check_access_granted [OF ok(1), of ?w1] obtain l1 where
    acc: "check_access E et ?w1 = (Ret None, ?w1\<lparr>w_audit := l1\<rparr>)" by blast
  let ?w2 = "audited the_user ''createJobRequestAccessGranted'' ''pz-idam'' (?w1\<lparr>w_audit := l1\<rparr>)"
  from send_accepted [OF ok(2), of "next_ident E w" "tr_CreatedBy t" ?w2] obtain l2 where
    snt: "sendToRabbitMQ E (mq_body ?m) (next_ident E w) (tr_CreatedBy t) ?w2 =
      (Ret None, ?w2\<lparr>w_audit := l2, w_mq := w_mq w @ [?m]\<rparr>)" by (auto simp: job_message_def)
  let ?w3 = "?w2\<lparr>w_audit := l2, w_mq := w_mq w @ [?m], w_stats := IncrTriggerJobs (w_stats w)\<rparr>"
  have rand: "w_rand ?w3 = w_rand w + 16" "w_time ?w3 = w_time w" "w_alerts ?w3 = w_alerts w" by simp_all
  have a: "new_alert E ?w3 ?a0 = fired_alert E w i ev t"
    by (simp add: new_alert_def fired_alert_def next_ident_at rand next_time_def)
  from PostAlert_app [OF idx, of ?w3 ?a0] inv fresh obtain x' l where post:
    "Service_PostAlert E ?a0 ?w3 = (Ret (Some (typed_response 201 (PAlert (fired_alert E w i ev t)))),
      (drawn ?w3)\<lparr>w_alerts := x', w_audit := l, w_stats := IncrAlerts (w_stats ?w3)\<rparr>)" "inv x'"
    "docs x' = store_put AlertDBMapping (ident_at E (w_rand w + 16))
      (Some (wire (enc_alert (fired_alert E w i ev t)))) (docs (w_alerts w))" "has_type x' = has_type (w_alerts w)"
    unfolding a by (auto simp: next_ident_at)
  have fin: "(drawn ?w3)\<lparr>w_alerts := x', w_audit := l, w_stats := IncrAlerts (w_stats ?w3)\<rparr> =
      w\<lparr>w_alerts := x', w_audit := l, w_mq := w_mq w @ [?m],
        w_stats := IncrAlerts (IncrTriggerJobs (w_stats w)), w_rand := w_rand w + 32, w_time := Suc (w_time w)\<rparr>"
    by (simp add: drawn_def audited_def)
  have "fire_trigger E et ev i w = (Ret None, (drawn ?w3)\<lparr>w_alerts := x', w_audit := l, w_stats := IncrAlerts (w_stats ?w3)\<rparr>)"
    using t(1) [of w] t(2) acc snt post(1) d
    by (simp add: fire_trigger_def bnd_def lift_def ret_def fires_def newIdent_app audit_audited
        map_get_def upd_stats_app job_message_def IsError_def)
  with fin post(2-4) show ?thesis by (intro exI [of _ x'] exI [of _ l]) simp
qed

end

section \<open>Firing all matches\<close>

text \<open>The next identifiers are new alerts' identifiers: unused and different from each other.\<close>

definition fresh_idents :: "'x env \<Rightarrow> store \<Rightarrow> nat \<Rightarrow> nat \<Rightarrow> bool" where
  "fresh_idents E s p n \<longleftrightarrow> list_all (\<lambda>j. s AlertDBMapping j = None) (map (\<lambda>k. ident_at E (p + 16 * k)) [0..<n]) \<and>
     distinct (map (\<lambda>k. ident_at E (p + 16 * k)) [0..<n])"

lemma fresh_idents_iff: "fresh_idents E s p n \<longleftrightarrow>
    (\<forall>k < n. s AlertDBMapping (ident_at E (p + 16 * k)) = None) \<and>
    (\<forall>k k'. k < n \<longrightarrow> k' < n \<longrightarrow> ident_at E (p + 16 * k) = ident_at E (p + 16 * k') \<longrightarrow> k = k')"
  by (auto simp: fresh_idents_def list_all_iff distinct_map inj_on_def)

lemma fresh_idents_less: "fresh_idents E s p n \<Longrightarrow> n' \<le> n \<Longrightarrow> fresh_idents E s p n'"
  by (simp add: fresh_idents_iff)

lemma fresh_idents_next:
  assumes "fresh_idents E s p (Suc (Suc n))"
  shows "s AlertDBMapping (ident_at E (p + 16)) = None"
    "fresh_idents E (store_put AlertDBMapping (ident_at E (p + 16)) v s) (p + 32) n"
proof -
  have n: "\<And>k. k < Suc (Suc n) \<Longrightarrow> s AlertDBMapping (ident_at E (p + 16 * k)) = None"
    and inj: "\<And>k k'. k < Suc (Suc n) \<Longrightarrow> k' < Suc (Suc n) \<Longrightarrow>
      ident_at E (p + 16 * k) = ident_at E (p + 16 * k') \<Longrightarrow> k = k'"
    using assms by (auto simp: fresh_idents_iff)
  show "s AlertDBMapping (ident_at E (p + 16)) = None" using n [of 1] by simp
  have shift: "p + 32 + 16 * k = p + 16 * Suc (Suc k)" for k by simp
  have ne: "ident_at E (p + 16 * Suc (Suc k)) \<noteq> ident_at E (p + 16)" if "k < n" for k
    using inj [of "Suc (Suc k)" 1] that by auto
  show "fresh_idents E (store_put AlertDBMapping (ident_at E (p + 16)) v s) (p + 32) n"
    unfolding fresh_idents_iff shift
  proof (intro conjI allI impI)
    fix k assume "k < n"
    with ne [OF this] n [of "Suc (Suc k)"]
    show "store_put AlertDBMapping (ident_at E (p + 16)) v s AlertDBMapping (ident_at E (p + 16 * Suc (Suc k))) = None"
      by (simp add: store_put_apply)
  next
    fix k k' assume "k < n" "k' < n" "ident_at E (p + 16 * Suc (Suc k)) = ident_at E (p + 16 * Suc (Suc k'))"
    with inj [of "Suc (Suc k)" "Suc (Suc k')"] show "k = k'" by simp
  qed
qed

definition fired :: "eventType \<Rightarrow> (ident \<Rightarrow> trigger) \<Rightarrow> ident list \<Rightarrow> ident list" where
  "fired et trg ids = filter (\<lambda>i. fires et (trg i)) ids"

lemma fired_Cons: "fired et trg (i # is) = (if fires et (trg i) then i # fired et trg is else fired et trg is)"
  by (simp add: fired_def)

text \<open>Every fired trigger has an alert for the event; no other alert is touched.\<close>

definition alerted :: "store \<Rightarrow> event \<Rightarrow> ident \<Rightarrow> bool" where
  "alerted s ev i \<longleftrightarrow> (\<exists>a. s AlertDBMapping (al_AlertID a) = Some (wire (enc_alert a)) \<and>
     al_TriggerID a = i \<and> al_EventID a = ev_EventID ev)"

definition alerts_kept :: "store \<Rightarrow> store \<Rightarrow> bool" where
  "alerts_kept s s' \<longleftrightarrow> (\<forall>j d. s AlertDBMapping j = Some d \<longrightarrow> s' AlertDBMapping j = Some d)"

lemma alerted_kept: "alerted s ev i \<Longrightarrow> alerts_kept s s' \<Longrightarrow> alerted s' ev i"
  by (auto simp: alerted_def alerts_kept_def)

lemma alerts_kept_put: "s AlertDBMapping j = None \<Longrightarrow> alerts_kept s (store_put AlertDBMapping j d s)"
  by (auto simp: alerts_kept_def store_put_apply)

lemma alerts_kept_trans: "alerts_kept s s' \<Longrightarrow> alerts_kept s' s'' \<Longrightarrow> alerts_kept s s''"
  by (auto simp: alerts_kept_def)

context doc_index
begin

lemma fire_triggers_app:
  assumes idx: "env_idx E = esi"
    and t: "\<And>i w'. i \<in> set ids \<Longrightarrow> w_triggers w' = w_triggers w \<Longrightarrow>
        TriggerDB_GetOne E i w' = (Ret (Some (trg i), True, None), w')"
    and ok: "access_granted E et"
      "\<And>i. i \<in> set ids \<Longrightarrow> fires et (trg i) \<Longrightarrow> queue_accepts E q (mq_body (job_message q kvs (trg i)))"
    and d: "map_of (entries_of (ev_Data ev)) (et_Name et) = Some (VMap kvs)"
    and inv: "inv (w_alerts w)" "has_type (w_alerts w) AlertDBMapping"
    and fresh: "fresh_idents E (docs (w_alerts w)) (w_rand w) (2 * length ids)"
  shows "\<exists>x' l n. fire_triggers E et ev ids rs w = (Ret rs, w\<lparr>w_alerts := x', w_audit := l,
      w_mq := w_mq w @ map (\<lambda>i. job_message q kvs (trg i)) (fired et trg ids),
      w_stats := ((\<lambda>s. IncrAlerts (IncrTriggerJobs s)) ^^ length (fired et trg ids)) (w_stats w),
      w_rand := w_rand w + 32 * n, w_time := w_time w + n\<rparr>) \<and> n = length (fired et trg ids) \<and>
    inv x' \<and> has_type x' = has_type (w_alerts w) \<and> alerts_kept (docs (w_alerts w)) (docs x') \<and>
    (\<forall>i \<in> set (fired et trg ids). alerted (docs x') ev i)"
  using t ok(2) inv fresh
proof (induction ids arbitrary: w)
  case Nil
  have "w = w\<lparr>w_alerts := w_alerts w, w_audit := w_audit w, w_mq := w_mq w, w_stats := w_stats w,
      w_rand := w_rand w, w_time := w_time w\<rparr>" by simp
  with Nil.prems(3) show ?case
    by (intro exI [of _ "w_alerts w"] exI [of _ "w_audit w"]) (simp add: ret_def fired_def alerts_kept_def)
next
  case (Cons i "is")
  note get = Cons.prems(1) [OF list.set_intros(1)]
  show ?case
  proof (cases "fires et (trg i)")
    case False
    have idle: "goroutine (fire_trigger E et ev i) w = (Ret None, w)"
      using fire_trigger_idle [OF get [OF refl] False, of ev] by (simp add: goroutine_def)
    have fr: "fresh_idents E (docs (w_alerts w)) (w_rand w) (2 * length is)"
      using fresh_idents_less [OF Cons.prems(5)] by simp
    from Cons.IH [OF Cons.prems(1) Cons.prems(2) Cons.prems(3,4) fr] show ?thesis
      using False by (simp add: bnd_def idle fired_Cons)
  next
    case True
    have fr: "fresh_idents E (docs (w_alerts w)) (w_rand w) (Suc (Suc (2 * length is)))"
      using Cons.prems(5) by simp
    note f1 = fresh_idents_next(1) [OF fr]
    from fire_trigger_app [where kvs = kvs, OF idx Cons.prems(3,4) get True ok(1) Cons.prems(2) [OF list.set_intros(1) True] d f1]
    obtain x1 l1 where one: "fire_trigger E et ev i w = (Ret None, w\<lparr>w_alerts := x1, w_audit := l1,
        w_mq := w_mq w @ [job_message q kvs (trg i)], w_stats := IncrAlerts (IncrTriggerJobs (w_stats w)),
        w_rand := w_rand w + 32, w_time := Suc (w_time w)\<rparr>)" (is "_ = (_, ?w1)")
      and x1: "inv x1" "has_type x1 = has_type (w_alerts w)"
        "docs x1 = store_put AlertDBMapping (ident_at E (w_rand w + 16))
          (Some (wire (enc_alert (fired_alert E w i ev (trg i))))) (docs (w_alerts w))" by blast
    have go: "goroutine (fire_trigger E et ev i) w = (Ret None, ?w1)" using one by (simp add: goroutine_def)
    have al: "alerted (docs x1) ev i" unfolding alerted_def x1(3)
      by (intro exI [of _ "fired_alert E w i ev (trg i)"]) (simp add: fired_alert_def store_put_apply)
    have kept: "alerts_kept (docs (w_alerts w)) (docs x1)" unfolding x1(3) by (rule alerts_kept_put) (rule f1)
    have "\<exists>x' l n. fire_triggers E et ev is rs ?w1 = (Ret rs, ?w1\<lparr>w_alerts := x', w_audit := l,
        w_mq := w_mq ?w1 @ map (\<lambda>i. job_message q kvs (trg i)) (fired et trg is),
        w_stats := ((\<lambda>s. IncrAlerts (IncrTriggerJobs s)) ^^ length (fired et trg is)) (w_stats ?w1),
        w_rand := w_rand ?w1 + 32 * n, w_time := w_time ?w1 + n\<rparr>) \<and> n = length (fired et trg is) \<and>
      inv x' \<and> has_type x' = has_type (w_alerts ?w1) \<and> alerts_kept (docs (w_alerts ?w1)) (docs x') \<and>
      (\<forall>i \<in> set (fired et trg is). alerted (docs x') ev i)"
      using Cons.prems x1 fresh_idents_next(2) [OF fr]
      by (intro Cons.IH) (simp_all add: x1(3))
    then obtain x' l where rest: "fire_triggers E et ev is rs ?w1 = (Ret rs, ?w1\<lparr>w_alerts := x', w_audit := l,
        w_mq := w_mq ?w1 @ map (\<lambda>i. job_message q kvs (trg i)) (fired et trg is),
        w_stats := ((\<lambda>s. IncrAlerts (IncrTriggerJobs s)) ^^ length (fired et trg is)) (w_stats ?w1),
        w_rand := w_rand ?w1 + 32 * length (fired et trg is), w_time := w_time ?w1 + length (fired et trg is)\<rparr>)"
      "inv x'" "has_type x' = has_type x1" "alerts_kept (docs x1) (docs x')"
      "\<forall>i \<in> set (fired et trg is). alerted (docs x') ev i" by auto
    show ?thesis
      by (intro exI [of _ x'] exI [of _ l] exI [of _ "length (fired et trg (i # is))"])
        (use True rest go x1 al kept in \<open>simp add: bnd_def fired_Cons funpow_Suc_right add.assoc alerted_kept
          alerts_kept_trans [OF kept rest(4)] del: funpow.simps\<close>)
  qed
qed

end

section \<open>Posting an event\<close>

text \<open>The trigger a reader of the store gets under an identifier.\<close>

definition stored_trigger :: "store \<Rightarrow> ident \<Rightarrow> trigger option" where
  "stored_trigger s i = (case s TriggerDBMapping i of None \<Rightarrow> None | Some d \<Rightarrow>
     (case dec_trigger d of Inl e \<Rightarrow> None | Inr t \<Rightarrow>
       map_option (\<lambda>c. t\<lparr>tr_Condition := c\<rparr>) (as_map (decodeCondition (of_gomap (tr_Condition t))))))"

context doc_lookup
begin

lemma TriggerDB_GetOne_stored:
  assumes "env_idx E = esi" "inv (w_triggers w)" "stored_trigger (docs (w_triggers w)) i = Some t"
  shows "TriggerDB_GetOne E i w = (Ret (Some t, True, None), w)"
  using assms as_map_eq_SomeD
  by (auto simp: stored_trigger_def split: option.splits sum.splits
      intro!: TriggerDB_GetOne_hit [OF assms(1,2)])

end

lemma next_ident_not_0 [simp]: "next_ident E w \<noteq> ''0''"
  using next_ident_valid [of E w] by (auto simp: ValidUuid_def)

context trigger_index
begin

lemma PostEvent_app:
  assumes idx: "env_idx E = esi" and inv: "inv (w_eventTypes w)" "inv (w_events w)" "inv (w_triggers w)"
      "inv (w_alerts w)" "has_type (w_alerts w) AlertDBMapping"
    and et: "docs (w_eventTypes w) EventTypeDBMapping (ev_EventTypeID ev) = Some (wire (enc_eventType (wrapped_eventType et)))"
      "et_Mapping et = Some m" "json_entries m" "has_type (w_events w) (et_Name et)" "et_Name et \<noteq> []"
    and ev: "ev_Data ev = Some kvs" "json_entries kvs" "event_check m kvs = None"
    and fresh: "\<forall>t. docs (w_events w) t (next_ident E w) = None"
      "fresh_idents E (docs (w_alerts w)) (w_rand w + 16) (2 * length ids)"
    and ids: "\<And>x. matches x (et_Name et) (VMap [(''data'', of_gomap (addUniqueParams (et_Name et) (ev_Data ev)))]) = ids"
      "\<And>i. i \<in> set ids \<Longrightarrow> stored_trigger (docs (w_triggers w)) i = Some (trg i)"
    and ok: "access_granted E et"
      "\<And>i. i \<in> set ids \<Longrightarrow> fires et (trg i) \<Longrightarrow> queue_accepts E q (mq_body (job_message q kvs (trg i)))"
  shows "\<exists>w'. Service_PostEvent E ev w = (Ret (Some (typed_response 201 (PEvent (new_event E w ev)))), w') \<and>
    w_mq w' = w_mq w @ map (\<lambda>i. job_message q kvs (trg i)) (fired et trg ids) \<and>
    (\<forall>i \<in> set (fired et trg ids). alerted (docs (w_alerts w')) (new_event E w ev) i) \<and>
    alerts_kept (docs (w_alerts w)) (docs (w_alerts w')) \<and>
    fst (Service_GetEvent E (next_ident E w) w') = Ret (Some (typed_response 200 (PEvent (new_event E w ev))))"
proof -
  let ?n = "et_Name et" and ?ev = "new_event E w ev"
  have "docs (w_events w) ?n (next_ident E w) = None" using fresh(1) by simp
  from PostEvent_stored [OF idx inv(1,2) et(1-4) ev(1,3) this, unfolded ids(1)] obtain x1 x2 l et' where p:
    "Service_PostEvent E ev w = recovered None (
      bnd (fire_triggers E et' (wrapped_event ?n ?ev) ids []) (\<lambda>results.
      case first_failure results of
        Some v \<Rightarrow> ret (Some v)
      | None \<Rightarrow> bnd (upd_stats IncrEvents) (\<lambda>_. statusCreated E (PEvent ?ev))))
      ((drawn w)\<lparr>w_events := x2, w_audit := l\<rparr>)"
    and e: "et_Name et' = ?n" "et_EventTypeID et' = et_EventTypeID et" "et_CreatedBy et' = et_CreatedBy et"
    and x: "inv x2" "docs x1 = store_put ?n (next_ident E w) (Some (wire (enc_event (wrapped_event ?n ?ev)))) (docs (w_events w))"
      "\<forall>t' i. t' \<noteq> percolateTypeName \<or> i \<noteq> ''0'' \<longrightarrow> docs x2 t' i = docs x1 t' i"
    by (elim exE conjE) (rule that; assumption)
  let ?w1 = "(drawn w)\<lparr>w_events := x2, w_audit := l\<rparr>"
  have f: "fires et' = fires et" "fired et' = fired et" by (simp_all add: fires_def e(2) fired_def fun_eq_iff)
  have get: "TriggerDB_GetOne E i w' = (Ret (Some (trg i), True, None), w')"
    if "i \<in> set ids" "w_triggers w' = w_triggers ?w1" for i w'
    using TriggerDB_GetOne_stored [OF idx, of w' i] inv(3) ids(2) that by simp
  have acc: "access_granted E et'" using ok(1) unfolding access_granted_def e(3) .
  have d: "map_of (entries_of (ev_Data (wrapped_event ?n ?ev))) (et_Name et') = Some (VMap kvs)"
    using ev(1) by (simp add: addUniqueParams_def of_gomap_def e(1))
  have fr: "fresh_idents E (docs (w_alerts ?w1)) (w_rand ?w1) (2 * length ids)"
    using fresh(2) by (simp add: drawn_def)
  from fire_triggers_app [where rs = "[]" and q = q and w = ?w1 and trg = trg and ids = ids, OF idx get acc _ d _ _ fr]
    ok(2) inv(4,5) obtain y l2 n where fire:
    "fire_triggers E et' (wrapped_event ?n ?ev) ids [] ?w1 = (Ret [], ?w1\<lparr>w_alerts := y, w_audit := l2,
      w_mq := w_mq ?w1 @ map (\<lambda>i. job_message q kvs (trg i)) (fired et trg ids),
      w_stats := ((\<lambda>s. IncrAlerts (IncrTriggerJobs s)) ^^ length (fired et trg ids)) (w_stats ?w1),
      w_rand := w_rand ?w1 + 32 * n, w_time := w_time ?w1 + n\<rparr>)"
    and y: "alerts_kept (docs (w_alerts ?w1)) (docs y)"
      "\<forall>i \<in> set (fired et trg ids). alerted (docs y) (wrapped_event ?n ?ev) i"
    unfolding f by auto
  let ?w2 = "?w1\<lparr>w_alerts := y, w_audit := l2,
      w_mq := w_mq ?w1 @ map (\<lambda>i. job_message q kvs (trg i)) (fired et trg ids),
      w_stats := ((\<lambda>s. IncrAlerts (IncrTriggerJobs s)) ^^ length (fired et trg ids)) (w_stats ?w1),
      w_rand := w_rand ?w1 + 32 * n, w_time := w_time ?w1 + n\<rparr>"
  let ?w3 = "?w2\<lparr>w_stats := IncrEvents (w_stats ?w2)\<rparr>"
  have post: "Service_PostEvent E ev w = (Ret (Some (typed_response 201 (PEvent ?ev))), ?w3)"
    unfolding p by (simp add: recovered_def bnd_def fire first_failure_def upd_stats_app statusCreated_app)
  have here: "docs x2 ?n (next_ident E w) = Some (wire (enc_event (wrapped_event ?n ?ev)))"
    and other: "\<forall>t'. t' \<noteq> ?n \<longrightarrow> docs x2 t' (next_ident E w) = None"
    using x(2,3) fresh(1) by (simp_all add: store_put_apply)
  have "fst (Service_GetEvent E (next_ident E w) ?w3) =
      Ret (Some (typed_response 200 (PEvent ((wrapped_event ?n ?ev)\<lparr>ev_Data := Some kvs\<rparr>))))"
    by (rule GetEvent_hit [where t = ?n, OF idx _ _ _ et(5)])
      (use x(1) here other ev wrapped_event_reads [OF ev(2), of ?ev ?n] in \<open>simp_all\<close>)
  moreover have "(wrapped_event ?n ?ev)\<lparr>ev_Data := Some kvs\<rparr> = ?ev"
    using ev(1) by (cases ev) (simp add: wrapped_event_def new_event_def)
  moreover have "alerted s (wrapped_event ?n ?ev) = alerted s ?ev" for s
    by (simp add: alerted_def fun_eq_iff)
  ultimately show ?thesis using post y
    by (intro exI [of _ ?w3]) simp
qed

end

end
