(* ===== verification/CronLaws.thy ===== *)
theory CronLaws
  imports FiringLaws
begin

text \<open>
  Repeating events and the cron jobs behind them: deleting one stops its job for good, a bad
  schedule is refused, and restoring the jobs from the store makes them share one event.
\<close>

section \<open>Deleting events\<close>

context trigger_index
begin

lemma DeleteEvent_system:
  assumes "env_idx E = esi" "inv (w_events w)" "docs (w_events w) t i \<noteq> None"
    "\<forall>t'. t' \<noteq> t \<longrightarrow> docs (w_events w) t' i = None" "IsSystemEvent t"
  shows "\<exists>r. Service_DeleteEvent E i w = (Ret (Some r), w) \<and> StatusCode r = 400"
proof -
  have "t \<noteq> []" using assms(5) by (auto simp: IsSystemEvent_def ingestTypeName_def executeTypeName_def)
  with lookup_type_app [OF assms(1-4)] assms(5) show ?thesis
    by (simp add: Service_DeleteEvent_def recovered_def bnd_def statusBadRequest_def statusError_Some
        message_response_def)
qed

lemma RemoveJob_app: "Service_RemoveJob E key w =
    (Ret (), w\<lparr>w_time := Suc (w_time w), w_cron := cron_Remove (env_clock E (w_time w)) key (w_cron w)\<rparr>)"
  by (cases w) (simp add: Service_RemoveJob_def bnd_def time_Now_def modify_def)

lemma DeleteEvent_app:
  assumes idx: "env_idx E = esi" and inv: "inv (w_events w)" "inv (w_crons w)"
    and d: "docs (w_events w) t i = Some d" "\<forall>t'. t' \<noteq> t \<longrightarrow> docs (w_events w) t' i = None"
      "t \<noteq> []" "\<not> IsSystemEvent t"
  shows "\<exists>x y l k c. Service_DeleteEvent E i w = (Ret (Some (typed_response 200 PNil)),
      w\<lparr>w_events := x, w_crons := y, w_audit := l, w_time := k, w_cron := c\<rparr>) \<and>
    inv x \<and> inv y \<and> docs x = store_put t i None (docs (w_events w)) \<and>
    docs y = store_put CronDBMapping i None (docs (w_crons w)) \<and>
    c = (if docs (w_crons w) CronDBMapping i = None then w_cron w
         else cron_Remove (env_clock E (w_time w)) i (w_cron w))"
proof -
  let ?w1 = "audited the_user ''deletingEvent'' i w"
  have look: "EventDB_lookupEventTypeNameByEventID E i w = (Ret (t, None), w)"
    using lookup_type_app [OF idx inv(1) _ d(2,3)] d(1) by simp
  from EventDB_DeleteByID_hit [OF idx, of ?w1 t i d] inv(1) d(1) obtain x where x:
    "EventDB_DeleteByID E t i ?w1 = (Ret (True, None), ?w1\<lparr>w_events := x\<rparr>)" "inv x"
    "docs x = store_put t i None (docs (w_events w))" by auto
  let ?w2 = "audited the_user ''deletedCronEvent'' i (?w1\<lparr>w_events := x\<rparr>)"
  have ex: "CronDB_itemExists E i ?w2 = (Ret (docs (w_crons w) CronDBMapping i \<noteq> None, None), ?w2)"
    using CronDB_itemExists_app [OF idx, of ?w2 i] inv(2) by simp
  show ?thesis
  proof (cases "docs (w_crons w) CronDBMapping i")
    case None
    then have "docs (w_crons w) = store_put CronDBMapping i None (docs (w_crons w))"
      by (auto simp: fun_eq_iff store_put_apply)
    moreover have "Service_DeleteEvent E i w = (Ret (Some (typed_response 200 PNil)), ?w2)"
      using look x(1) ex None d(3,4)
      by (simp add: Service_DeleteEvent_def recovered_def bnd_def audit_audited statusOK_app)
    moreover have "?w2 = w\<lparr>w_events := x, w_crons := w_crons w, w_audit := w_audit ?w2, w_time := w_time w,
        w_cron := w_cron w\<rparr>" by (simp add: audited_def)
    ultimately show ?thesis using x(2,3) inv(2) None
      by (intro exI [of _ x] exI [of _ "w_crons w"] exI [of _ "w_audit ?w2"] exI [of _ "w_time w"]
          exI [of _ "w_cron w"]) auto
  next
    case (Some cd)
    let ?w3 = "audited the_user ''deletingCronEvent'' i ?w2"
    from CronDB_DeleteByID_hit [OF idx, of ?w3 i cd] inv(2) Some obtain y where y:
      "CronDB_DeleteByID E i ?w3 = (Ret (True, None), ?w3\<lparr>w_crons := y\<rparr>)" "inv y"
      "docs y = store_put CronDBMapping i None (docs (w_crons w))" by auto
    let ?w4 = "audited the_user ''deletedCronEvent'' i (?w3\<lparr>w_crons := y\<rparr>)"
    let ?w5 = "?w4\<lparr>w_time := Suc (w_time w), w_cron := cron_Remove (env_clock E (w_time w)) i (w_cron w)\<rparr>"
    have "Service_DeleteEvent E i w = (Ret (Some (typed_response 200 PNil)), ?w5)"
      using look x(1) ex y(1) Some d(3,4)
      by (simp add: Service_DeleteEvent_def recovered_def bnd_def audit_audited statusOK_app RemoveJob_app)
    moreover have "?w5 = w\<lparr>w_events := x, w_crons := y, w_audit := w_audit ?w4, w_time := Suc (w_time w),
        w_cron := cron_Remove (env_clock E (w_time w)) i (w_cron w)\<rparr>" by (simp add: audited_def)
    ultimately show ?thesis using x(2,3) y(2,3) Some
      by (intro exI [of _ x] exI [of _ y] exI [of _ "w_audit ?w4"] exI [of _ "Suc (w_time w)"]
          exI [of _ "cron_Remove (env_clock E (w_time w)) i (w_cron w)"]) auto
  qed
qed

end

lemma key_count_sort: "key_count key_of k (sort_key f es) = key_count key_of k es"
  by (rule key_count_mset) simp

lemma cron_Remove_gone:
  assumes "key_count key_of k (entries c) \<le> 1"
  shows "key_gone key_of k (removes (cron_Remove t k c)) (entries (cron_Remove t k c))"
  using assms by (auto simp: key_gone_def cron_Remove_def recv_del_def cron_sort_def key_count_sort)

section \<open>Registering repeating events\<close>

text \<open>A schedule that does not parse is refused before anything changes.\<close>

context doc_lookup
begin

lemma PostRepeatingEvent_refused:
  assumes "env_idx E = esi" "inv (w_eventTypes w)"
    "docs (w_eventTypes w) EventTypeDBMapping (ev_EventTypeID ev) = Some (wire (enc_eventType (wrapped_eventType et)))"
    "cron_Parse (ev_CronSchedule ev) = Ret (Inl e)"
  shows "Service_PostRepeatingEvent E ev w = (Ret (Some (message_response 400 [] e (env_Name E))), w)"
  using GetOne_wrapped [OF assms(1-3)] assms(4)
  by (auto simp: Service_PostRepeatingEvent_def recovered_def bnd_def lift_def statusBadRequest_def
      statusError_Some)

lemma PostRepeatingEvent_hangs:
  assumes "env_idx E = esi" "inv (w_eventTypes w)"
    "docs (w_eventTypes w) EventTypeDBMapping (ev_EventTypeID ev) = Some (wire (enc_eventType (wrapped_eventType et)))"
    "cron_Parse (ev_CronSchedule ev) = Hang"
  shows "Service_PostRepeatingEvent E ev w = (Hang, w)"
  using GetOne_wrapped [OF assms(1-3)] assms(4)
  by (auto simp: Service_PostRepeatingEvent_def recovered_def bnd_def lift_def)

end

section \<open>Restoring the jobs\<close>

definition jobs_from :: "nat \<Rightarrow> 'x world \<Rightarrow> cronEvent list" where
  "jobs_from n w = map Job (drop n (entries (w_cron w)))"

lemma Service_AddJob_stopped:
  assumes "\<not> running (w_cron w)" "Service_AddJob E spec c w = (Ret None, w')"
  shows "\<exists>en. entries (w_cron w') = entries (w_cron w) @ [en] \<and> Job en = c \<and> \<not> running (w_cron w')"
proof (cases "cron_Parse spec")
  case (Ret r)
  with assms show ?thesis
    by (cases r) (auto simp: Service_AddJob_def bnd_def time_Now_def cron_AddJob_def cron_Schedule_def new_entry_def)
qed (use assms in \<open>simp_all add: Service_AddJob_def bnd_def time_Now_def cron_AddJob_def\<close>)

lemma EventTypeDB_GetOne_cron: "w_cron (snd (EventTypeDB_GetOne E i w)) = w_cron w"
  by (simp add: EventTypeDB_GetOne_def on_eventTypes_def zoom_def split: prod.split)

text \<open>
  After a successful restoration every restored job runs the event that was registered last:
  each job took the address of the one loop variable.
\<close>

lemma initCron_loop_shares:
  assumes "initCron_loop E n0 es w = (Ret None, w')" "es \<noteq> []" "\<not> running (w_cron w)"
    "n0 \<le> length (entries (w_cron w))"
  shows "list_all (\<lambda>j. ce_Event j = last es) (jobs_from n0 w') \<and>
    length (jobs_from n0 w') = length (jobs_from n0 w) + length es"
  using assms
proof (induction es arbitrary: w)
  case (Cons e es)
  let ?w1 = "assign_loop_var n0 e w"
  have w1: "entries (w_cron ?w1) = take n0 (entries (w_cron w)) @
      map (\<lambda>en. en\<lparr>Job := (Job en)\<lparr>ce_Event := e\<rparr>\<rparr>) (drop n0 (entries (w_cron w)))"
    "\<not> running (w_cron ?w1)" using Cons.prems(3) by (simp_all add: assign_loop_var_def)
  obtain r w2 where one: "EventTypeDB_GetOne E (ev_EventTypeID e) ?w1 = (r, w2)" by fastforce
  have c2: "w_cron w2 = w_cron ?w1" using EventTypeDB_GetOne_cron [of E "ev_EventTypeID e" ?w1] one by simp
  from Cons.prems(1) one obtain et :: eventType and w3 where add:
    "Service_AddJob E (ev_CronSchedule e) \<lparr>ce_Event = e, ce_eventTypeName = et_Name et\<rparr> w2 = (Ret None, w3)"
    "initCron_loop E n0 es w3 = (Ret None, w')"
    by (auto simp: bnd_eq_Ret_iff modify_def lift_def ret_def split: if_splits)
  from Service_AddJob_stopped [OF _ add(1)] c2 w1(2) obtain en where en:
    "entries (w_cron w3) = entries (w_cron ?w1) @ [en]" "ce_Event (Job en) = e" "\<not> running (w_cron w3)" by auto
  have j3: "list_all (\<lambda>j. ce_Event j = e) (jobs_from n0 w3)"
    "length (jobs_from n0 w3) = Suc (length (jobs_from n0 w))" "n0 \<le> length (entries (w_cron w3))"
    using en w1(1) Cons.prems(4) by (auto simp: jobs_from_def list_all_iff)
  show ?case
  proof (cases "es = []")
    case True
    with add(2) j3 show ?thesis by (simp add: ret_def)
  next
    case False
    from Cons.IH [OF add(2) False en(3) j3(3)] False j3(2) show ?thesis by simp
  qed
qed simp

end
