(* ===== verification/Servers.thy ===== *)
theory Servers
  imports EventHandlers
begin

text \<open>
  The HTTP server (\<open>workflow/Server.go\<close>): its routes, and for each the handler that reads the
  request, calls the service, and returns the response as JSON (\<open>GinReturnJson\<close>). The router
  and the body reader of gin are third-party code: a route matches segment by segment, and a
  body is its text. A body is bound to a struct as \<open>BindJSON\<close> does: decoded over the struct's
  initial value, then checked for the fields tagged as required.
\<close>

section \<open>Requests\<close>

record httpRequest =
  rq_verb :: string
  rq_path :: string
  rq_query :: "(string \<times> string list) list"
  rq_body :: string

section \<open>Binding\<close>

definition required_error :: "string \<Rightarrow> string" where
  "required_error field = ''Error:Field validation for '' @ field @ '' failed on the required tag''"

definition require :: "bool \<Rightarrow> string \<Rightarrow> string + 'a \<Rightarrow> string + 'a" where
  "require ok field rest = (if ok then rest else Inl (required_error field))"

definition bind_eventType :: "string \<Rightarrow> string + eventType" where
  "bind_eventType body = sbind (json_Decode body) (\<lambda>v. sbind (dec_eventType v) (\<lambda>et.
     require (et_Name et \<noteq> []) ''Name'' (require (et_Mapping et \<noteq> None) ''Mapping'' (Inr et))))"

definition bind_event :: "string \<Rightarrow> string + event" where
  "bind_event body = sbind (json_Decode body) (\<lambda>v. sbind (dec_event v) (\<lambda>ev.
     require (ev_EventTypeID ev \<noteq> []) ''EventTypeID'' (Inr ev)))"

text \<open>A trigger is enabled unless its text says otherwise.\<close>

definition default_enabled :: "val \<Rightarrow> trigger \<Rightarrow> trigger" where
  "default_enabled v t = (case v of
     VMap kvs \<Rightarrow> if map_get kvs ''enabled'' = VNil then t\<lparr>tr_Enabled := True\<rparr> else t
   | _ \<Rightarrow> t\<lparr>tr_Enabled := True\<rparr>)"

definition bind_trigger :: "string \<Rightarrow> string + trigger" where
  "bind_trigger body = sbind (json_Decode body) (\<lambda>v. sbind (dec_trigger v) (\<lambda>t0.
     let t = default_enabled v t0 in
     require (tr_Name t \<noteq> []) ''Name'' (require (tr_EventTypeID t \<noteq> []) ''EventTypeID''
       (require (tr_Condition t \<noteq> None) ''Condition''
         (require (jt_Data (jr_JobType (tr_Job t)) \<noteq> None) ''Data''
           (require (jt_Type (jr_JobType (tr_Job t)) \<noteq> []) ''Type'' (Inr t)))))))"

definition bind_triggerUpdate :: "string \<Rightarrow> string + triggerUpdate" where
  "bind_triggerUpdate body = sbind (json_Decode body) (\<lambda>v. sbind (obj_fields v) (\<lambda>f.
     sbind (bool_field f ''enabled'') (\<lambda>b. Inr \<lparr>tu_Enabled = b\<rparr>)))"

definition bind_alert :: "string \<Rightarrow> string + alert" where
  "bind_alert body = sbind (json_Decode body) dec_alert"

definition bind_testBody :: "string \<Rightarrow> string + testElasticsearchBody" where
  "bind_testBody body = sbind (json_Decode body) dec_testBody"

section \<open>Handlers\<close>

text \<open>A handler returns the response it hands to \<open>GinReturnJson\<close>, which dereferences it.\<close>

definition GinReturnJson :: "jsonResponse option \<Rightarrow> jsonResponse outcome" where
  "GinReturnJson resp = deref resp"

definition Version :: string where "Version = ''1.0.0''"

type_synonym 'x handler = "string \<Rightarrow> httpRequest \<Rightarrow> ('x world, jsonResponse option) go"

definition bind_failure :: "'x env \<Rightarrow> string \<Rightarrow> ('x world, jsonResponse option) go" where
  "bind_failure E e = ret (Some (message_response 400 [] e (env_Name E)))"

definition with_body :: "'x env \<Rightarrow> (string \<Rightarrow> string + 'b) \<Rightarrow>
    ('b \<Rightarrow> ('x world, jsonResponse option) go) \<Rightarrow> httpRequest \<Rightarrow> ('x world, jsonResponse option) go" where
  "with_body E bind_it serve rq = (case bind_it (rq_body rq) of
     Inl e \<Rightarrow> bind_failure E e | Inr x \<Rightarrow> serve x)"

definition with_params :: "(httpQueryParams \<Rightarrow> ('x world, jsonResponse option) go) \<Rightarrow>
    httpRequest \<Rightarrow> ('x world, jsonResponse option) go" where
  "with_params serve rq = bnd (lift (NewQueryParams (rq_query rq))) serve"

definition handleGetRoot :: "'x env \<Rightarrow> 'x handler" where
  "handleGetRoot E i rq = ret (Some (data_response 200
     (PString (''Hi! I'' @ [CHR 0x27] @ ''m pz-workflow.''))))"

definition handleGetVersion :: "'x env \<Rightarrow> 'x handler" where
  "handleGetVersion E i rq = ret (Some (data_response 200 (PVersion Version)))"

definition handleGetStats :: "'x env \<Rightarrow> 'x handler" where
  "handleGetStats E i rq = Service_GetStats E"

definition handleGetEventType :: "'x env \<Rightarrow> 'x handler" where
  "handleGetEventType E i rq = Service_GetEventType E i the_user"

definition handleGetAllEventTypes :: "'x env \<Rightarrow> 'x handler" where
  "handleGetAllEventTypes E i rq = with_params (Service_GetAllEventTypes E) rq"

definition handlePostEventType :: "'x env \<Rightarrow> 'x handler" where
  "handlePostEventType E i rq = with_body E bind_eventType (Service_PostEventType E) rq"

definition handleEventTypeQuery :: "'x env \<Rightarrow> 'x handler" where
  "handleEventTypeQuery E i rq = with_params (Service_QueryEventTypes E (rq_body rq)) rq"

definition handleDeleteEventType :: "'x env \<Rightarrow> 'x handler" where
  "handleDeleteEventType E i rq = Service_DeleteEventType E i"

definition handleGetEvent :: "'x env \<Rightarrow> 'x handler" where
  "handleGetEvent E i rq = Service_GetEvent E i"

definition handleGetAllEvents :: "'x env \<Rightarrow> 'x handler" where
  "handleGetAllEvents E i rq = with_params (Service_GetAllEvents E) rq"

definition handlePostEvent :: "'x env \<Rightarrow> 'x handler" where
  "handlePostEvent E i rq = with_body E bind_event (\<lambda>ev.
     if ev_CronSchedule ev \<noteq> [] then Service_PostRepeatingEvent E ev else Service_PostEvent E ev) rq"

definition handleEventQuery :: "'x env \<Rightarrow> 'x handler" where
  "handleEventQuery E i rq = with_params (Service_QueryEvents E (rq_body rq)) rq"

definition handleDeleteEvent :: "'x env \<Rightarrow> 'x handler" where
  "handleDeleteEvent E i rq = Service_DeleteEvent E i"

definition handleGetTrigger :: "'x env \<Rightarrow> 'x handler" where
  "handleGetTrigger E i rq = Service_GetTrigger E i"

definition handleGetAllTriggers :: "'x env \<Rightarrow> 'x handler" where
  "handleGetAllTriggers E i rq = with_params (Service_GetAllTriggers E) rq"

definition handlePostTrigger :: "'x env \<Rightarrow> 'x handler" where
  "handlePostTrigger E i rq = with_body E bind_trigger (Service_PostTrigger E) rq"

definition handleTriggerQuery :: "'x env \<Rightarrow> 'x handler" where
  "handleTriggerQuery E i rq = with_params (Service_QueryTriggers E (rq_body rq)) rq"

definition handlePutTrigger :: "'x env \<Rightarrow> 'x handler" where
  "handlePutTrigger E i rq = with_body E bind_triggerUpdate (Service_PutTrigger E i) rq"

definition handleDeleteTrigger :: "'x env \<Rightarrow> 'x handler" where
  "handleDeleteTrigger E i rq = Service_DeleteTrigger E i"

definition handleGetAlert :: "'x env \<Rightarrow> 'x handler" where
  "handleGetAlert E i rq = Service_GetAlert E i"

definition handleGetAllAlerts :: "'x env \<Rightarrow> 'x handler" where
  "handleGetAllAlerts E i rq = with_params (Service_GetAllAlerts E) rq"

definition handleAlertQuery :: "'x env \<Rightarrow> 'x handler" where
  "handleAlertQuery E i rq = with_params (Service_QueryAlerts E (rq_body rq)) rq"

definition handlePostAlert :: "'x env \<Rightarrow> 'x handler" where
  "handlePostAlert E i rq = with_body E bind_alert (Service_PostAlert E) rq"

definition handleDeleteAlert :: "'x env \<Rightarrow> 'x handler" where
  "handleDeleteAlert E i rq = Service_DeleteAlert E i"

definition handleTestElasticsearchVersion :: "'x env \<Rightarrow> 'x handler" where
  "handleTestElasticsearchVersion E i rq = Service_TestElasticsearchVersion E"

definition handleTestElasticsearchGetOne :: "'x env \<Rightarrow> 'x handler" where
  "handleTestElasticsearchGetOne E i rq = Service_TestElasticsearchGetOne E i"

definition handleTestElasticsearchPost :: "'x env \<Rightarrow> 'x handler" where
  "handleTestElasticsearchPost E i rq = with_body E bind_testBody (Service_TestElasticsearchPost E) rq"

section \<open>Routes\<close>

definition Routes :: "'x env \<Rightarrow> (string \<times> string \<times> 'x handler) list" where
  "Routes E = [
     (''GET'', ''/'', handleGetRoot E),
     (''GET'', ''/version'', handleGetVersion E),
     (''GET'', ''/eventType'', handleGetAllEventTypes E),
     (''GET'', ''/eventType/:id'', handleGetEventType E),
     (''POST'', ''/eventType'', handlePostEventType E),
     (''POST'', ''/eventType/query'', handleEventTypeQuery E),
     (''DELETE'', ''/eventType/:id'', handleDeleteEventType E),
     (''GET'', ''/event/:id'', handleGetEvent E),
     (''GET'', ''/event'', handleGetAllEvents E),
     (''POST'', ''/event'', handlePostEvent E),
     (''POST'', ''/event/query'', handleEventQuery E),
     (''DELETE'', ''/event/:id'', handleDeleteEvent E),
     (''GET'', ''/trigger/:id'', handleGetTrigger E),
     (''GET'', ''/trigger'', handleGetAllTriggers E),
     (''POST'', ''/trigger'', handlePostTrigger E),
     (''POST'', ''/trigger/query'', handleTriggerQuery E),
     (''PUT'', ''/trigger/:id'', handlePutTrigger E),
     (''DELETE'', ''/trigger/:id'', handleDeleteTrigger E),
     (''GET'', ''/alert/:id'', handleGetAlert E),
     (''GET'', ''/alert'', handleGetAllAlerts E),
     (''POST'', ''/alert'', handlePostAlert E),
     (''POST'', ''/alert/query'', handleAlertQuery E),
     (''DELETE'', ''/alert/:id'', handleDeleteAlert E),
     (''GET'', ''/admin/stats'', handleGetStats E),
     (''GET'', ''/_test/elasticsearch/version'', handleTestElasticsearchVersion E),
     (''GET'', ''/_test/elasticsearch/data/:id'', handleTestElasticsearchGetOne E),
     (''POST'', ''/_test/elasticsearch/data'', handleTestElasticsearchPost E)]"

text \<open>Matching a path against a pattern: \<open>:id\<close> binds a segment that is not empty.\<close>

fun match_segments :: "string list \<Rightarrow> string list \<Rightarrow> string option" where
  "match_segments [] [] = Some []"
| "match_segments (p # ps) (s # ss) =
     (if p = '':id'' then if s = [] then None else (case match_segments ps ss of None \<Rightarrow> None | Some _ \<Rightarrow> Some s)
      else if p = s then match_segments ps ss else None)"
| "match_segments _ _ = None"

definition match_route :: "string \<Rightarrow> string \<Rightarrow> string option" where
  "match_route pattern path = match_segments (split_byte CHR ''/'' pattern) (split_byte CHR ''/'' path)"

definition find_route :: "'x env \<Rightarrow> string \<Rightarrow> string \<Rightarrow> ('x handler \<times> string) option" where
  "find_route E verb path = (case find (\<lambda>(v, pat, h). v = verb \<and> match_route pat path \<noteq> None) (Routes E) of
     None \<Rightarrow> None
   | Some (v, pat, h) \<Rightarrow> (case match_route pat path of None \<Rightarrow> None | Some i \<Rightarrow> Some (h, i)))"

definition not_found_page :: jsonResponse where
  "not_found_page = message_response 404 [] ''404 page not found'' []"

definition Server_serve :: "'x env \<Rightarrow> httpRequest \<Rightarrow> ('x world, jsonResponse) go" where
  "Server_serve E rq = (case find_route E (rq_verb rq) (rq_path rq) of
     None \<Rightarrow> ret not_found_page
   | Some (h, i) \<Rightarrow> bnd (h i rq) (\<lambda>resp. lift (GinReturnJson resp)))"

end
