(* ===== verification/Hosting.thy ===== *)
theory Hosting
  imports Servers
begin

text \<open>
  What stands around the handlers: the generic server of \<open>pz-gocommon\<close>
  (\<open>gocommon/GenericServer.go\<close>), which registers the routes and listens, and the wait for a service
  to answer (\<open>gocommon/http_utils.go\<close>). The socket is third-party code: one \<open>GET\<close> of a service's
  address (\<open>probe\<close>) and the end of \<open>ListenAndServe\<close> (\<open>listen\<close>) are parameters.
\<close>

section \<open>Waiting for a service\<close>

text \<open>\<open>createUrl\<close> puts a protocol before an address without one (\<open>^[a-z]+:\/\/.+$\<close>).\<close>

definition hasProtocol :: "string \<Rightarrow> bool" where
  "hasProtocol url \<longleftrightarrow> (let lower = (\<lambda>c. 97 \<le> (of_char c :: nat) \<and> (of_char c :: nat) \<le> 122);
       rest = dropWhile lower url
     in takeWhile lower url \<noteq> [] \<and> hasPrefix rest ''://'' \<and> drop 3 rest \<noteq> [] \<and> CHR 0x0A \<notin> set (drop 3 rest))"

definition createUrl :: "string list \<Rightarrow> string" where
  "createUrl parts = (let url = concat parts in if hasProtocol url then url else ''http://'' @ url)"

definition waitTimeoutMs :: int where "waitTimeoutMs = 3000"
definition waitSleepMs :: int where "waitSleepMs = 250"

text \<open>The loop at \<open>msTime\<close>: ask, give up after the time out, sleep.\<close>

function wait_loop :: "('w, bool) go \<Rightarrow> string \<Rightarrow> int \<Rightarrow> ('w, err) go" where
  "wait_loop probe timed_out msTime = bnd probe (\<lambda>ok.
     if ok then ret None
     else if waitTimeoutMs \<le> msTime then ret (Some timed_out)
     else wait_loop probe timed_out (msTime + waitSleepMs))"
  by pat_completeness auto
termination
  by (relation "measure (\<lambda>(_, _, t). nat (waitTimeoutMs - t))") (simp_all add: waitTimeoutMs_def waitSleepMs_def)

declare wait_loop.simps [simp del]

definition WaitForService :: "(string \<Rightarrow> ('w, bool) go) \<Rightarrow> string \<Rightarrow> string \<Rightarrow> ('w, err) go" where
  "WaitForService probe name url =
     wait_loop (probe url) (''timed out waiting for service: '' @ name @ '' at '' @ url) 0"

text \<open>
  A service that answers ends the wait at once; one that never does ends it too, with the error,
  after the thirteenth request.
\<close>

lemma WaitForService_up:
  assumes "probe url w = (Ret True, w')"
  shows "WaitForService probe name url w = (Ret None, w')"
  using assms by (simp add: WaitForService_def wait_loop.simps bnd_def ret_def)

lemma WaitForService_down:
  assumes "\<And>n. probe url n = (Ret False, Suc n)"
  shows "WaitForService probe name url n =
    (Ret (Some (''timed out waiting for service: '' @ name @ '' at '' @ url)), n + 13)"
  using assms by (simp add: WaitForService_def wait_loop.simps bnd_def ret_def waitTimeoutMs_def waitSleepMs_def)

lemma wait_loop_returns:
  assumes "\<And>w. \<exists>b w'. p w = (Ret b, w')"
  shows "\<exists>r w'. wait_loop p e t w = (Ret r, w')"
  using assms
proof (induction p e t arbitrary: w rule: wait_loop.induct)
  case (1 p e t)
  obtain b w1 where "p w = (Ret b, w1)" using "1.prems" by blast
  then show ?case using "1.IH" [OF _ _ "1.prems", of b w1]
    by (cases b; cases "waitTimeoutMs \<le> t") (simp_all add: wait_loop.simps [of p e t] bnd_def ret_def)
qed

section \<open>The generic server\<close>

text \<open>\<open>Configure\<close> registers the routes in order; a verb it does not know ends it.\<close>

definition known_verbs :: "string list" where
  "known_verbs = [''GET'', ''POST'', ''PUT'', ''DELETE'']"

fun GenericServer_Configure :: "(string \<times> string \<times> 'h) list \<Rightarrow> string + (string \<times> string \<times> 'h) list" where
  "GenericServer_Configure [] = Inr []"
| "GenericServer_Configure ((verb, path, h) # routeData) =
     (if verb \<in> set known_verbs then sbind (GenericServer_Configure routeData) (\<lambda>router. Inr ((verb, path, h) # router))
      else Inl (''Invalid verb: '' @ verb))"

lemma Configure_Inr:
  "(\<forall>(verb, path, h) \<in> set routes. verb \<in> set known_verbs) \<Longrightarrow> GenericServer_Configure routes = Inr routes"
  by (induction routes rule: GenericServer_Configure.induct) (simp_all add: sbind_def)

text \<open>The service's own routes are all registered.\<close>

lemma Configure_Routes [simp]: "GenericServer_Configure (Routes E) = Inr (Routes E)"
  by (rule Configure_Inr) (simp add: Routes_def known_verbs_def)

text \<open>
  \<open>Start\<close> listens in a goroutine, whose end will be sent over the channel it returns, and waits
  for the server to answer. The channel is the outcome that will be read from it.
\<close>

definition GenericServer_Start :: "(string \<Rightarrow> err outcome) \<Rightarrow> (string \<Rightarrow> ('w, bool) go) \<Rightarrow> string \<Rightarrow> string \<Rightarrow>
    ('w, err outcome option \<times> err) go" where
  "GenericServer_Start listen probe name bindTo =
     (let addr = (if bindTo = [] then '':http'' else bindTo)
      in bnd (WaitForService probe name (createUrl [addr])) (\<lambda>err. case err of
           Some e \<Rightarrow> ret (None, Some e)
         | None \<Rightarrow> ret (Some (listen addr), None)))"

definition GenericServer_Stop :: "('w, err) go" where
  "GenericServer_Stop = ret None"

end
