(* ===== verification/Kits.thy ===== *)
theory Kits
  imports Hosting
begin

text \<open>
  Starting and stopping the service: \<open>Service.Init\<close> (\<open>workflow/Service.go\<close>), which creates the
  indices and posts the two system event types, and \<open>Kit\<close> (\<open>workflow/Kit.go\<close>) with the mock
  indices it runs on when mocking.
\<close>

section \<open>Polling\<close>

text \<open>\<open>PollFunction\<close>: every 250 milliseconds for five seconds, that is at most twenty times.\<close>

definition poll_ticks :: nat where "poll_ticks = 20"

primrec PollFunction :: "nat \<Rightarrow> ('w, bool \<times> err) go \<Rightarrow> ('w, bool \<times> err) go" where
  "PollFunction 0 fn = ret (False, Some ''timeout reached'')"
| "PollFunction (Suc n) fn = bnd fn (\<lambda>(ok, err). case err of
     Some e \<Rightarrow> ret (False, Some e)
   | None \<Rightarrow> if ok then ret (True, None) else PollFunction n fn)"

definition pollingFn :: "'x env \<Rightarrow> ('x world, bool \<times> err) go" where
  "pollingFn E = on_eventTypes (bnd (ix_IndexExists (env_idx E)) (\<lambda>(ex, err). case err of
     Some e \<Rightarrow> ret (False, Some e)
   | None \<Rightarrow> if \<not> ex then ret (False, None)
       else bnd (ix_GetTypes (env_idx E)) (\<lambda>(types, err). case err of
         Some e \<Rightarrow> ret (False, Some e)
       | None \<Rightarrow> if types = [] then ret (False, None) else ret (ex, None))))"

section \<open>Init\<close>

definition system_eventType :: "'x env \<Rightarrow> string \<Rightarrow> entries \<Rightarrow> eventType" where
  "system_eventType E name m = \<lparr>et_EventTypeID = [], et_Name = name, et_Mapping = Some m,
     et_CreatedBy = env_PiazzaSystem E, et_CreatedOn = zero_time\<rparr>"

definition ingestEventTypeMapping :: entries where
  "ingestEventTypeMapping = [(''dataId'', VStr ''string''), (''dataType'', VStr ''string''),
     (''epsg'', VStr ''integer''), (''minX'', VStr ''double''), (''minY'', VStr ''double''),
     (''maxX'', VStr ''double''), (''maxY'', VStr ''double''), (''hosted'', VStr ''boolean'')]"

definition executionCompletedTypeMapping :: entries where
  "executionCompletedTypeMapping = [(''jobId'', VStr ''string''), (''status'', VStr ''string''),
     (''dataId'', VStr ''string'')]"

text \<open>
  The constructors of the databases over their indices: a database is its index, and its document
  type is a constant. The first error ends their sequence.
\<close>

primrec first_error :: "('w, err) go list \<Rightarrow> ('w, err) go" where
  "first_error [] = ret None"
| "first_error (m # ms) = bnd m (\<lambda>err. case err of Some e \<Rightarrow> ret (Some e) | None \<Rightarrow> first_error ms)"

definition NewEventTypeDB :: "'x env \<Rightarrow> ('x world, err) go" where
  "NewEventTypeDB E = on_eventTypes (NewResourceDB E)"

definition NewEventDB :: "'x env \<Rightarrow> ('x world, err) go" where
  "NewEventDB E = on_events (NewResourceDB E)"

definition NewTriggerDB :: "'x env \<Rightarrow> ('x world, err) go" where
  "NewTriggerDB E = on_triggers (NewResourceDB E)"

definition NewAlertDB :: "'x env \<Rightarrow> ('x world, err) go" where
  "NewAlertDB E = on_alerts (NewResourceDB E)"

definition NewCronDB :: "'x env \<Rightarrow> ('x world, err) go" where
  "NewCronDB E = on_crons (NewResourceDB E)"

definition NewTestElasticsearchDB :: "'x env \<Rightarrow> ('x world, err) go" where
  "NewTestElasticsearchDB E = on_tests (NewResourceDB E)"

lemmas NewDB_defs = NewEventTypeDB_def NewEventDB_def NewTriggerDB_def NewAlertDB_def NewCronDB_def
  NewTestElasticsearchDB_def

definition NewDatabases :: "'x env \<Rightarrow> ('x world, err) go" where
  "NewDatabases E = first_error [NewEventTypeDB E, NewEventDB E, NewTriggerDB E, NewAlertDB E, NewCronDB E,
     NewTestElasticsearchDB E]"

text \<open>
  The status code of each posted system event type is read for a log line, which panics on a
  nil response; its value decides nothing.
\<close>

definition post_system_type :: "'x env \<Rightarrow> string \<Rightarrow> entries \<Rightarrow> ('x world, unit) go" where
  "post_system_type E name m =
     bnd (Service_PostEventType E (system_eventType E name m)) (\<lambda>posted.
       bnd (lift (deref posted)) (\<lambda>_. ret ()))"

definition Service_Init :: "'x env \<Rightarrow> ('x world, err) go" where
  "Service_Init E = recovered None (
     bnd (NewTimeStamp E) (\<lambda>t. bnd (upd_stats (\<lambda>s. s\<lparr>st_CreatedOn := t\<rparr>)) (\<lambda>_.
     bnd (NewDatabases E) (\<lambda>err. if err \<noteq> None then ret err else
     bnd (modify (\<lambda>w. w\<lparr>w_cron := cron_New\<rparr>)) (\<lambda>_.
     bnd (PollFunction poll_ticks (pollingFn E)) (\<lambda>(_, err). if err \<noteq> None then ret err else
     bnd (post_system_type E ingestTypeName ingestEventTypeMapping) (\<lambda>_.
     bnd (post_system_type E executeTypeName executionCompletedTypeMapping) (\<lambda>_. ret None))))))))"

section \<open>Kit\<close>

text \<open>The mock indices: each has one type before it is created.\<close>

definition fresh_mock :: "string \<Rightarrow> string \<Rightarrow> mockIndex" where
  "fresh_mock indexName mtype = snd (mock_SetMapping mtype (VMap []) (NewMockIndex indexName))"

definition zero_stats :: stats where
  "zero_stats = \<lparr>st_CreatedOn = zero_time, NumEventTypes = 0, NumEvents = 0, NumTriggers = 0,
     NumAlerts = 0, NumTriggeredJobs = 0\<rparr>"

definition makeMockIndices :: "mockIndex world" where
  "makeMockIndices = \<lparr>
     w_eventTypes = fresh_mock ''eventtypes'' EventTypeDBMapping,
     w_events = fresh_mock ''events'' EventDBMapping,
     w_triggers = fresh_mock ''triggers'' TriggerDBMapping,
     w_alerts = fresh_mock ''alerts'' AlertDBMapping,
     w_crons = fresh_mock ''crons'' CronDBMapping,
     w_tests = fresh_mock ''testElasticsearch'' TestElasticsearchMapping,
     w_stats = zero_stats, w_cron = cron_New, w_rand = 0, w_time = 0, w_audit = [], w_mq = [],
     w_crashed = None\<rparr>"

definition start_cron :: "'x env \<Rightarrow> ('x world, unit) go" where
  "start_cron E = bnd (Service_InitCron E) (\<lambda>err. case err of
     Some e \<Rightarrow> bnd (modify (w_crashed_update (\<lambda>_. Some e))) (\<lambda>_. lift Hang)
   | None \<Rightarrow> ret ())"

text \<open>
  \<open>NewKit\<close>: initialise the service, unless mocking start the cron jobs, whose failure ends
  the process (\<open>log.Fatal\<close>), and configure the generic server with the routes. The indices are those of the state it starts in: \<open>makeMockIndices\<close>
  when mocking, otherwise the ones that \<open>makeIndices\<close> opened (\<open>Startups\<close>).
\<close>

definition NewKit :: "'x env \<Rightarrow> bool \<Rightarrow> ('x world, err) go" where
  "NewKit E mocking = bnd (Service_Init E) (\<lambda>err. case err of
     Some e \<Rightarrow> ret (Some e)
   | None \<Rightarrow> bnd (if mocking then ret () else start_cron E) (\<lambda>_.
       case GenericServer_Configure (Routes E) of
         Inl e \<Rightarrow> ret (Some e)
       | Inr router \<Rightarrow> ret None))"

text \<open>
  \<open>Kit.Start\<close> keeps the channel over which the generic server will report its end, and \<open>Kit.Wait\<close>
  receives from it: for ever if the server was not started.
\<close>

definition Kit_Start :: "(string \<Rightarrow> err outcome) \<Rightarrow> (string \<Rightarrow> ('w, bool) go) \<Rightarrow> string \<Rightarrow> string \<Rightarrow>
    ('w, err outcome option \<times> err) go" where
  "Kit_Start listen probe name bindTo = GenericServer_Start listen probe name bindTo"

definition Kit_Wait :: "err outcome option \<Rightarrow> ('w, err) go" where
  "Kit_Wait chan_done = lift (case chan_done of None \<Rightarrow> Hang | Some r \<Rightarrow> r)"

text \<open>\<open>Kit.Stop\<close>: the generic server stops, and when mocking four of the six mock indices are deleted.\<close>

definition Kit_Stop :: "'x env \<Rightarrow> bool \<Rightarrow> ('x world, err) go" where
  "Kit_Stop E mocking = bnd GenericServer_Stop (\<lambda>err. case err of
     Some e \<Rightarrow> ret (Some e)
   | None \<Rightarrow> if \<not> mocking then ret None
     else first_error [on_eventTypes (ix_Delete (env_idx E)), on_events (ix_Delete (env_idx E)),
       on_triggers (ix_Delete (env_idx E)), on_alerts (ix_Delete (env_idx E))])"

end
