(* ===== verification/Orders.thy ===== *)
theory Orders
  imports Servers
begin

text \<open>
  What every request does, whatever its route: an order on service states that the primitive
  operations respect is respected by every database method and every handler, and every
  response is well formed. The interface is a locale over the index and the order; it is used
  for the invariant of the mock index and for the growth of the log (\<open>Safety\<close>).
\<close>

section \<open>Well-formed responses\<close>

text \<open>
  The status is one of those the service uses, an error carries no data and no pagination, and
  a named type is the registered type of the data.
\<close>

definition ok_response :: "jsonResponse \<Rightarrow> bool" where
  "ok_response r \<longleftrightarrow> StatusCode r \<in> {200, 201, 400, 403, 404, 500} \<and>
     (IsError r \<longrightarrow> Data r = PNil \<and> Pagination r = None) \<and>
     (Data r \<noteq> PNil \<and> resp_Type r \<noteq> [] \<longrightarrow> map_of JsonResponseDataTypes (goName (Data r)) = Some (resp_Type r))"

definition ok_reply :: "jsonResponse option \<Rightarrow> bool" where
  "ok_reply p \<longleftrightarrow> (case p of None \<Rightarrow> True | Some r \<Rightarrow> ok_response r)"

definition ok_left :: "jsonResponse option + 'a \<Rightarrow> bool" where
  "ok_left s \<longleftrightarrow> (case s of Inl p \<Rightarrow> ok_reply p | Inr _ \<Rightarrow> True)"

definition ok_fired :: "jsonResponse option option \<Rightarrow> bool" where
  "ok_fired s \<longleftrightarrow> (case s of Some p \<Rightarrow> ok_reply p | None \<Rightarrow> True)"

definition ok_page :: "jsonResponse option \<Rightarrow> bool" where
  "ok_page p \<longleftrightarrow> (\<exists>r. p = Some r \<and> ok_response r \<and> StatusCode r = 200)"

definition ok_results :: "(ident \<times> jsonResponse option) list \<Rightarrow> bool" where
  "ok_results rs \<longleftrightarrow> (\<forall>p \<in> snd ` set rs. ok_reply p)"

lemma ok_reply_simps [simp]: "ok_reply None" "ok_reply (Some r) = ok_response r"
  "ok_left (Inl p) = ok_reply p" "ok_left (Inr x)" "ok_fired None" "ok_fired (Some p) = ok_reply p"
  by (simp_all add: ok_reply_def ok_left_def ok_fired_def)

lemma ok_message: "code \<in> {200, 400, 403, 404, 500} \<Longrightarrow> ok_response (message_response code t m ori)"
  by (auto simp: ok_response_def message_response_def)

lemma ok_typed: "code \<in> {200, 201} \<Longrightarrow> ok_response (typed_response code obj)"
  using SetType_ok [of "data_response code obj"]
  by (auto simp: ok_response_def typed_response_def SetType_def IsError_def data_response_def
      split: option.split)

lemma ok_untyped: "code \<in> {200, 201} \<Longrightarrow> ok_response (data_response code obj)"
  by (auto simp: ok_response_def data_response_def IsError_def)

lemma ok_with_pagination:
  assumes "ok_response r" "StatusCode r = 200"
  shows "ok_response (r\<lparr>Pagination := p\<rparr>)"
  using assms by (simp add: ok_response_def IsError_def)

lemma payload_cases:
  assumes "\<And>et. does R (f et) P" "does R d P"
  shows "does R (case p of PEventType et \<Rightarrow> f et | _ \<Rightarrow> d) P"
  using assms by (cases p) simp_all

section \<open>The order on indices\<close>

locale index_order =
  fixes esi :: "'x iIndex" and J :: "'x \<Rightarrow> 'x \<Rightarrow> bool"
  assumes J_refl: "J x x"
    and J_trans: "J x y \<Longrightarrow> J y z \<Longrightarrow> J x z"
    and J_IndexExists: "does J (ix_IndexExists esi) any_result"
    and J_TypeExists: "does J (ix_TypeExists esi t) any_result"
    and J_ItemExists: "does J (ix_ItemExists esi t i) any_result"
    and J_PostData: "does J (ix_PostData esi t i v) any_result"
    and J_PutData: "does J (ix_PutData esi t i v) any_result"
    and J_GetByID: "does J (ix_GetByID esi t i) any_result"
    and J_DeleteByID: "does J (ix_DeleteByID esi t i) any_result"
    and J_FilterByMatchAll: "does J (ix_FilterByMatchAll esi t f) any_result"
    and J_GetAllElements: "does J (ix_GetAllElements esi t) any_result"
    and J_FilterByTermQuery: "does J (ix_FilterByTermQuery esi t n u f) any_result"
    and J_SearchByJSON: "does J (ix_SearchByJSON esi t q) any_result"
    and J_SetMapping: "does J (ix_SetMapping esi t v) any_result"
    and J_GetTypes: "does J (ix_GetTypes esi) any_result"
    and J_AddQuery: "does J (ix_AddPercolationQuery esi i q) any_result"
    and J_DeleteQuery: "does J (ix_DeletePercolationQuery esi i) any_result"
    and J_AddDocument: "does J (ix_AddPercolationDocument esi t v) any_result"
begin

lemmas index_ops = J_IndexExists J_TypeExists J_ItemExists J_PostData J_PutData J_GetByID
  J_DeleteByID J_FilterByMatchAll J_GetAllElements J_FilterByTermQuery J_SearchByJSON J_SetMapping
  J_GetTypes J_AddQuery J_DeleteQuery J_AddDocument

lemma J_bnd: "does J m P \<Longrightarrow> (\<And>x. P x \<Longrightarrow> does J (f x) Q) \<Longrightarrow> does J (bnd m f) Q"
  using does_bnd [of J m P f Q] J_trans by blast

lemma J_ret: "does J (ret x) any_result"
  by (rule does_ret) (simp_all add: J_refl)

lemma J_lift: "does J (lift r) any_result"
  by (rule does_lift) (simp_all add: J_refl)

lemmas J_intros = index_ops J_bnd J_ret J_lift does_intros

end

section \<open>The order on services\<close>

locale service_order = index_order "env_idx E" J
  for E :: "'x env" and J :: "'x \<Rightarrow> 'x \<Rightarrow> bool" +
  fixes R :: "'x world \<Rightarrow> 'x world \<Rightarrow> bool"
  assumes R_refl: "R w w"
    and R_trans: "R u v \<Longrightarrow> R v w \<Longrightarrow> R u w"
    and R_eventTypes: "J (w_eventTypes w) x \<Longrightarrow> R w (w\<lparr>w_eventTypes := x\<rparr>)"
    and R_events: "J (w_events w) x \<Longrightarrow> R w (w\<lparr>w_events := x\<rparr>)"
    and R_triggers: "J (w_triggers w) x \<Longrightarrow> R w (w\<lparr>w_triggers := x\<rparr>)"
    and R_alerts: "J (w_alerts w) x \<Longrightarrow> R w (w\<lparr>w_alerts := x\<rparr>)"
    and R_crons: "J (w_crons w) x \<Longrightarrow> R w (w\<lparr>w_crons := x\<rparr>)"
    and R_tests: "J (w_tests w) x \<Longrightarrow> R w (w\<lparr>w_tests := x\<rparr>)"
    and R_audit: "R w (w\<lparr>w_audit := w_audit w @ [a]\<rparr>)"
    and R_stats: "R w (w\<lparr>w_stats := s\<rparr>)"
    and R_rand: "R w (w\<lparr>w_rand := w_rand w + 16\<rparr>)"
    and R_time: "R w (w\<lparr>w_time := Suc (w_time w)\<rparr>)"
    and R_cron: "R w (w\<lparr>w_cron := c\<rparr>)"
    and R_mq: "R w (w\<lparr>w_mq := w_mq w @ [m]\<rparr>)"
    and R_crashed: "R w (w\<lparr>w_crashed := p\<rparr>)"
begin

lemma R_bnd: "does R m P \<Longrightarrow> (\<And>x. P x \<Longrightarrow> does R (f x) Q) \<Longrightarrow> does R (bnd m f) Q"
  using does_bnd [of R m P f Q] R_trans by blast

lemma R_ret: "P x \<Longrightarrow> does R (ret x) P"
  by (rule does_ret) (simp_all add: R_refl)

lemma R_ret_any: "does R (ret x) any_result"
  by (rule R_ret) simp

lemma R_lift_any: "does R (lift r) any_result"
  by (rule does_lift) (simp_all add: R_refl)

lemma R_gets: "does R (gets f) any_result"
  by (rule does_gets) (rule R_refl)

lemma R_zooms:
  "does J m P \<Longrightarrow> does R (on_eventTypes m) P" "does J m P \<Longrightarrow> does R (on_events m) P"
  "does J m P \<Longrightarrow> does R (on_triggers m) P" "does J m P \<Longrightarrow> does R (on_alerts m) P"
  "does J m P \<Longrightarrow> does R (on_crons m) P" "does J m P \<Longrightarrow> does R (on_tests m) P"
  by (simp_all add: does_def on_defs zoom_def R_eventTypes R_events R_triggers R_alerts R_crons R_tests
      split: prod.split) (metis fst_conv snd_conv R_eventTypes R_events R_triggers R_alerts R_crons R_tests)+

lemma does_audit: "does R (audit a b c) any_result"
  by (rule doesI) (simp_all add: audit_app R_audit)

lemma does_upd_stats: "does R (upd_stats f) any_result"
  by (rule doesI) (simp_all add: upd_stats_app R_stats)

lemma R_cron_update: "R w (w_cron_update f w)"
  using R_cron [of w "f (w_cron w)"] by (cases w) simp

lemma R_mq_update: "R w (w_mq_update (\<lambda>l. l @ [m]) w)"
  using R_mq [of w m] by (cases w) simp

lemma does_newIdent: "does R (newIdent E) any_result"
  by (rule doesI) (simp_all add: newIdent_app R_rand)

lemma does_time_Now: "does R (time_Now E) any_result"
  by (rule doesI) (simp_all add: time_Now_def R_time)

lemma does_NewTimeStamp: "does R (NewTimeStamp E) any_result"
  unfolding NewTimeStamp_def by (rule R_bnd does_time_Now R_ret_any)+

lemma does_goroutine: "does R m ok_fired \<Longrightarrow> does R (goroutine m) ok_fired"
proof (rule doesI)
  fix w x
  assume *: "does R m ok_fired"
  obtain r w1 where m: "m w = (r, w1)" by fastforce
  from does_state [OF *, of w] m R_crashed [of w1] show "R w (snd (goroutine m w))"
    by (cases r) (auto simp: goroutine_def intro: R_trans)
  assume "fst (goroutine m w) = Ret x"
  with does_result [OF *, of w] m show "ok_fired x"
    by (cases r) (auto simp: goroutine_def)
qed

text \<open>Responses.\<close>

lemma does_statusError: "code \<in> {200, 400, 403, 404, 500} \<Longrightarrow> does R (statusError E code e) ok_reply"
  unfolding statusError_def by (rule R_bnd R_lift_any R_ret)+ (simp add: ok_message)

lemma does_errors: "does R (statusBadRequest E e) ok_reply" "does R (statusForbidden E e) ok_reply"
  "does R (statusInternalError E e) ok_reply" "does R (statusNotFound E e) ok_reply"
  by (simp_all add: status_error_defs does_statusError)

lemma does_oks: "does R (statusOK E obj) ok_reply" "does R (statusCreated E obj) ok_reply"
  by (rule doesI; auto simp: statusOK_app statusCreated_app R_refl ok_typed)+

lemma does_statusPutOK: "does R (statusPutOK E m) ok_reply"
  unfolding statusPutOK_def by (rule R_ret) (simp add: ok_message)

lemma does_fail_with: "does R m ok_reply \<Longrightarrow> does R (fail_with a b c m) ok_reply"
  unfolding fail_with_def by (rule R_bnd does_audit | assumption)+

lemma does_or_status:
  "(\<And>e. does R (st e) ok_reply) \<Longrightarrow> (\<And>x. does R (k x) ok_reply) \<Longrightarrow> does R (or_status st r k) ok_reply"
  by (cases r) simp_all

text \<open>A page of results: the response is one \<open>statusOK\<close> made.\<close>

lemma does_statusOK_page: "does R (statusOK E obj) ok_page"
  by (rule doesI) (auto simp: statusOK_app R_refl ok_typed ok_page_def)

lemma does_with_pagination: "ok_page resp \<Longrightarrow> does R (lift (with_pagination f n resp)) ok_reply"
  by (rule does_lift) (auto simp: R_refl ok_page_def with_pagination_def ok_with_pagination)

lemma does_page:
  "does R (bnd (statusOK E obj) (\<lambda>resp. bnd (audit a b c) (\<lambda>_. lift (with_pagination f n resp)))) ok_reply"
  by (rule R_bnd does_statusOK_page does_audit does_with_pagination | assumption)+

lemmas reply_intros = does_errors does_oks does_statusPutOK does_fail_with does_or_status
  does_recovered [where P = ok_reply and z = None] ok_reply_simps(1)

lemmas R_intros = does_audit does_upd_stats does_newIdent does_time_Now does_NewTimeStamp
  R_bnd R_ret_any R_lift_any R_gets R_zooms

end

end
