(* ===== verification/Replies.thy ===== *)
theory Replies
  imports Orders
begin

text \<open>
  Every database method and every handler respects the order of \<open>service_order\<close>, and every
  handler's reply is well formed: one lemma per operation, each by the rules of the operations
  it calls.
\<close>

context service_order
begin

lemmas steps = does_page reply_intros R_intros J_intros

section \<open>Databases\<close>

lemma J_list_typed: "does J m any_result \<Longrightarrow> does J (list_typed (E::'x env) t m) any_result"
  unfolding list_typed_def by (rule steps | assumption)+

lemma J_list_events: "does J m any_result \<Longrightarrow> does J (list_events (E::'x env) u t m) any_result"
  unfolding list_events_def by (rule steps | assumption)+

lemma J_find_type: "does J (find_type E i ts) any_result"
  by (induction ts) (simp_all, (rule steps | assumption)+)

lemmas db_steps = steps J_list_typed J_list_events J_find_type

lemma does_EventTypeDB [does_intros]:
  "does R (EventTypeDB_PostData E et) any_result" "does R (EventTypeDB_GetAll E f) any_result"
  "does R (EventTypeDB_GetEventTypesByDslQuery E q) any_result" "does R (EventTypeDB_GetOne E i) any_result"
  "does R (EventTypeDB_GetIDByName E f n) any_result" "does R (EventTypeDB_DeleteByID E i) any_result"
  unfolding EventTypeDB_PostData_def EventTypeDB_GetAll_def EventTypeDB_GetEventTypesByDslQuery_def
    EventTypeDB_GetOne_def EventTypeDB_GetIDByName_def EventTypeDB_DeleteByID_def
  by ((rule db_steps | assumption)+)

lemma does_TriggerDB_GetOne [does_intros]: "does R (TriggerDB_GetOne E i) any_result"
  unfolding TriggerDB_GetOne_def by (rule db_steps | assumption)+

lemma does_TriggerDB [does_intros]:
  "does R (TriggerDB_PostData E t) any_result" "does R (TriggerDB_PutTrigger E t u) any_result"
  "does R (TriggerDB_GetAll E f) any_result" "does R (TriggerDB_GetTriggersByDslQuery E q) any_result"
  "does R (TriggerDB_GetTriggersByEventTypeID E f i) any_result" "does R (TriggerDB_DeleteTrigger E i) any_result"
  unfolding TriggerDB_PostData_def TriggerDB_PutTrigger_def TriggerDB_GetAll_def
    TriggerDB_GetTriggersByDslQuery_def TriggerDB_GetTriggersByEventTypeID_def TriggerDB_DeleteTrigger_def
  by ((rule db_steps does_TriggerDB_GetOne | assumption)+)

lemma does_AlertDB [does_intros]:
  "does R (AlertDB_PostData E a) any_result" "does R (AlertDB_GetAll E f) any_result"
  "does R (AlertDB_GetAlertsByDslQuery E q) any_result" "does R (AlertDB_GetAllByTrigger E f i) any_result"
  "does R (AlertDB_GetOne E i) any_result" "does R (AlertDB_DeleteByID E i) any_result"
  unfolding AlertDB_PostData_def AlertDB_GetAll_def AlertDB_GetAlertsByDslQuery_def
    AlertDB_GetAllByTrigger_def AlertDB_GetOne_def AlertDB_DeleteByID_def
  by ((rule db_steps | assumption)+)

lemma does_CronDB [does_intros]:
  "does R (CronDB_PostData E ev) any_result" "does R (CronDB_GetAll E) any_result"
  "does R (CronDB_Exists E) any_result" "does R (CronDB_itemExists E i) any_result"
  "does R (CronDB_DeleteByID E i) any_result"
  unfolding CronDB_PostData_def CronDB_GetAll_def CronDB_Exists_def CronDB_itemExists_def
    CronDB_DeleteByID_def
  by ((rule db_steps | assumption)+)

lemma does_TestDB [does_intros]:
  "does R (TestElasticsearchDB_PostData E b i) any_result"
  "does R (TestElasticsearchDB_GetOne E i) any_result" "does R (TestElasticsearchDB_GetVersion E) any_result"
  unfolding TestElasticsearchDB_PostData_def TestElasticsearchDB_GetOne_def TestElasticsearchDB_GetVersion_def
  by ((rule db_steps | assumption)+)

lemma does_EventDB [does_intros]:
  "does R (EventDB_GetAll E t f) any_result" "does R (EventDB_GetEventsByDslQuery E t q) any_result"
  "does R (EventDB_GetEventsByEventTypeID E f t i) any_result"
  "does R (EventDB_lookupEventTypeNameByEventID E i) any_result" "does R (EventDB_NameExists E t) any_result"
  "does R (EventDB_GetOne E t i) any_result" "does R (EventDB_DeleteByID E t i) any_result"
  "does R (EventDB_AddMapping E t m) any_result" "does R (EventDB_PercolateEventData E t m) any_result"
  unfolding EventDB_GetAll_def EventDB_GetEventsByDslQuery_def EventDB_GetEventsByEventTypeID_def
    EventDB_lookupEventTypeNameByEventID_def EventDB_NameExists_def EventDB_GetOne_def
    EventDB_DeleteByID_def EventDB_AddMapping_def EventDB_PercolateEventData_def
  by ((rule db_steps | assumption)+)

section \<open>Event types and events\<close>

lemma reply_GetEventType: "does R (Service_GetEventType E i actor) ok_reply"
  unfolding Service_GetEventType_def by (rule steps does_intros | assumption)+

lemma does_verify [does_intros]: "does R (EventDB_verifyEventReadyToPost E ev) any_result"
  unfolding EventDB_verifyEventReadyToPost_def
  by (rule reply_GetEventType steps does_intros payload_cases | assumption)+

lemma does_EventDB_PostData [does_intros]: "does R (EventDB_PostData E ev t) any_result"
  unfolding EventDB_PostData_def by (rule db_steps does_intros | assumption)+

lemma reply_GetStats: "does R (Service_GetStats E) ok_reply"
  unfolding Service_GetStats_def by (rule steps does_intros | assumption)+

lemma does_eventTypes_by_name: "does R (eventTypes_by_name E f n) ok_left"
  unfolding eventTypes_by_name_def
  by (rule steps does_intros R_ret | assumption | simp)+

lemma does_unwrap_events [does_intros]: "does R (unwrap_events E evs) any_result"
  by (induction evs) (simp_all, (rule steps does_intros | assumption)+)

lemma does_query_type: "does R (query_type E i n) ok_left"
  unfolding query_type_def by (rule steps does_intros R_ret | assumption | simp)+

lemma does_left_case: "ok_left q \<Longrightarrow> (\<And>x. does R (k x) ok_reply) \<Longrightarrow>
    does R (case q of Inl r \<Rightarrow> ret r | Inr x \<Rightarrow> k x) ok_reply"
  by (cases q) (simp_all add: R_ret)

lemma reply_GetAllEventTypes: "does R (Service_GetAllEventTypes E params) ok_reply"
proof -
  have all: "does R (bnd (EventTypeDB_GetAll E (Some format)) (\<lambda>(ets, n, err).
      if err \<noteq> None
      then bnd (fail_with the_user a b (statusInternalError E err)) (\<lambda>r. ret (Inl r))
      else ret (Inr (ets, n, err)))) ok_left" for format a b
    by (rule steps does_intros R_ret | assumption | simp)+
  show ?thesis unfolding Service_GetAllEventTypes_def
    by (rule does_eventTypes_by_name all does_left_case steps does_intros | assumption)+
qed

lemma reply_QueryEventTypes: "does R (Service_QueryEventTypes E q params) ok_reply"
  unfolding Service_QueryEventTypes_def by (rule steps does_intros | assumption)+

lemma does_store_eventType: "does R (store_eventType E et r) ok_reply"
  unfolding store_eventType_def by (rule steps does_intros | assumption)+

lemma reply_PostEventType: "does R (Service_PostEventType E et) ok_reply"
  unfolding Service_PostEventType_def by (rule does_store_eventType steps does_intros | assumption)+

lemma reply_DeleteEventType: "does R (Service_DeleteEventType E i) ok_reply"
  unfolding Service_DeleteEventType_def by (rule steps does_intros | assumption)+

lemma reply_GetEvent: "does R (Service_GetEvent E i) ok_reply"
  unfolding Service_GetEvent_def by (rule steps does_intros | assumption)+

lemma reply_GetAllEvents: "does R (Service_GetAllEvents E params) ok_reply"
  unfolding Service_GetAllEvents_def
  by (rule does_query_type does_left_case steps does_intros | assumption)+

lemma reply_QueryEvents: "does R (Service_QueryEvents E q params) ok_reply"
  unfolding Service_QueryEvents_def
  by (rule does_query_type does_left_case steps does_intros | assumption)+

section \<open>Triggers and alerts\<close>

lemma reply_GetTrigger: "does R (Service_GetTrigger E i) ok_reply"
  unfolding Service_GetTrigger_def by (rule steps does_intros | assumption)+

lemma does_unwrap_condition [does_intros]: "does R (unwrap_condition E t) any_result"
  unfolding unwrap_condition_def by (rule steps does_intros | assumption)+

lemma does_unwrap_conditions [does_intros]: "does R (unwrap_conditions E ts) any_result"
  by (induction ts) (simp_all, (rule steps does_intros | assumption)+)

lemma does_mapM [does_intros]: "(\<And>x. does R (f x) any_result) \<Longrightarrow> does R (mapM f xs) any_result"
  by (induction xs) (simp_all, (rule steps does_intros | assumption)+)

lemma does_unwrap_or_keep [does_intros]: "does R (unwrap_or_keep E t) any_result"
  unfolding unwrap_or_keep_def by (rule steps does_intros | assumption)+

lemma reply_GetAllTriggers: "does R (Service_GetAllTriggers E params) ok_reply"
  unfolding Service_GetAllTriggers_def by (rule steps does_intros | assumption)+

lemma reply_QueryTriggers: "does R (Service_QueryTriggers E q params) ok_reply"
  unfolding Service_QueryTriggers_def by (rule steps does_intros | assumption)+

lemma reply_PostTrigger: "does R (Service_PostTrigger E t) ok_reply"
  unfolding Service_PostTrigger_def by (rule steps does_intros | assumption)+

lemma reply_PutTrigger: "does R (Service_PutTrigger E i u) ok_reply"
  unfolding Service_PutTrigger_def by (rule steps does_intros | assumption)+

lemma reply_DeleteTrigger: "does R (Service_DeleteTrigger E i) ok_reply"
  unfolding Service_DeleteTrigger_def by (rule steps does_intros | assumption)+

lemma reply_GetAlert: "does R (Service_GetAlert E i) ok_reply"
  unfolding Service_GetAlert_def by (rule steps does_intros | assumption)+

lemma does_inflateAlert [does_intros]: "does R (Service_inflateAlert E a) any_result"
  unfolding Service_inflateAlert_def by (rule steps does_intros | assumption)+

lemma does_inflateAlerts [does_intros]: "does R (Service_inflateAlerts E as) any_result"
  unfolding Service_inflateAlerts_def by (rule steps does_intros | assumption)+

lemma reply_answer_alerts: "does R (answer_alerts E params f c as n) ok_reply"
  unfolding answer_alerts_def
  by (rule does_with_pagination does_if does_statusOK_page R_intros does_intros | assumption)+

lemma reply_GetAllAlerts: "does R (Service_GetAllAlerts E params) ok_reply"
  unfolding Service_GetAllAlerts_def by (rule reply_answer_alerts steps does_intros | assumption)+

lemma reply_QueryAlerts: "does R (Service_QueryAlerts E q params) ok_reply"
  unfolding Service_QueryAlerts_def by (rule reply_answer_alerts steps does_intros | assumption)+

lemma reply_PostAlert: "does R (Service_PostAlert E a) ok_reply"
  unfolding Service_PostAlert_def by (rule steps does_intros | assumption)+

lemma reply_DeleteAlert: "does R (Service_DeleteAlert E i) ok_reply"
  unfolding Service_DeleteAlert_def by (rule steps does_intros | assumption)+

lemma reply_tests: "does R (Service_TestElasticsearchVersion E) ok_reply"
  "does R (Service_TestElasticsearchGetOne E i) ok_reply" "does R (Service_TestElasticsearchPost E b) ok_reply"
  unfolding Service_TestElasticsearchVersion_def Service_TestElasticsearchGetOne_def
    Service_TestElasticsearchPost_def
  by ((rule steps does_intros R_ret | assumption | simp add: ok_untyped)+)

section \<open>Posting and deleting events\<close>

lemma does_AddJob [does_intros]: "does R (Service_AddJob E spec c) any_result"
proof -
  have "does R (\<lambda>w. case cron_AddJob z t spec c (w_cron w) of
      Ret (cr, err) \<Rightarrow> (Ret err, w\<lparr>w_cron := cr\<rparr>) | Panic m \<Rightarrow> (Panic m, w) | Hang \<Rightarrow> (Hang, w)) any_result"
    for z t by (rule doesI) (auto simp: R_refl R_cron split: outcome.split)
  then show ?thesis unfolding Service_AddJob_def by (rule R_bnd [OF does_time_Now])
qed

lemma does_RemoveJob [does_intros]: "does R (Service_RemoveJob E key) any_result"
proof -
  have "does R (modify (w_cron_update f)) any_result" for f
    by (rule doesI) (simp_all add: modify_def R_cron_update)
  then show ?thesis unfolding Service_RemoveJob_def by (rule R_bnd [OF does_time_Now])
qed

lemma reply_PostRepeatingEvent: "does R (Service_PostRepeatingEvent E ev) ok_reply"
  unfolding Service_PostRepeatingEvent_def by (rule steps does_intros | assumption)+

lemma does_check_access: "does R (check_access E et) ok_fired"
  unfolding check_access_def by (rule steps does_intros R_ret | assumption | simp)+

lemma does_send [does_intros]: "does R (sendToRabbitMQ E j i actor) any_result"
proof -
  have mq: "does R (modify (w_mq_update (\<lambda>l. l @ [m]))) any_result" for m
    by (rule doesI) (simp_all add: modify_def R_mq_update)
  have fl: "does R (rabbit_failure a n e) any_result" for a n e
    unfolding rabbit_failure_def by (rule steps)+
  show ?thesis unfolding sendToRabbitMQ_def by (rule mq fl steps does_intros)+
qed

lemma does_deref_reply: "ok_reply p \<Longrightarrow> does R (lift (deref p)) (\<lambda>r. ok_response r)"
  by (rule does_lift) (auto simp: R_refl)

lemma does_fired_case: "ok_fired s \<Longrightarrow> does R m ok_fired \<Longrightarrow>
    does R (case s of None \<Rightarrow> m | Some r \<Rightarrow> ret (Some r)) ok_fired"
  by (cases s) (simp_all add: R_ret)

lemma does_fire_trigger: "does R (fire_trigger E et ev i) ok_fired"
  unfolding fire_trigger_def
  by (rule does_check_access does_fired_case reply_PostAlert steps does_intros R_ret | assumption | simp)+

lemma ok_results_update: "ok_results rs \<Longrightarrow> ok_reply p \<Longrightarrow> ok_results (AList.update i p rs)"
  by (induction rs) (auto simp: ok_results_def)

lemma does_fire_triggers: "ok_results rs \<Longrightarrow> does R (fire_triggers E et ev is rs) ok_results"
proof (induction "is" arbitrary: rs)
  case Nil
  then show ?case by (simp add: R_ret)
next
  case (Cons i "is")
  then show ?case
    by (auto intro!: R_bnd [OF does_goroutine [OF does_fire_trigger]] Cons.IH ok_results_update
        split: option.split)
qed

lemma ok_first_failure:
  assumes "ok_results rs"
  shows "ok_reply (first_failure rs)"
proof (cases "find (\<lambda>(i, r). r \<noteq> None) rs")
  case (Some ir)
  then have "ir \<in> set rs" by (auto simp: find_Some_iff) (metis nth_mem)
  with assms have "ok_reply (snd ir)" by (simp add: ok_results_def)
  with Some show ?thesis by (cases ir) (simp add: first_failure_def)
qed (simp add: first_failure_def)

lemma does_first_failure: "ok_results rs \<Longrightarrow> does R m ok_reply \<Longrightarrow>
    does R (case first_failure rs of None \<Rightarrow> m | Some v \<Rightarrow> ret (Some v)) ok_reply"
  using ok_first_failure [of rs] by (cases "first_failure rs") (simp_all add: R_ret)

lemma reply_PostEvent: "does R (Service_PostEvent E ev) ok_reply"
proof -
  have "ok_results []" by (simp add: ok_results_def)
  note fire = does_fire_triggers [OF this]
  show ?thesis unfolding Service_PostEvent_def
    by (rule fire does_first_failure steps does_intros | assumption)+
qed

lemma reply_DeleteEvent: "does R (Service_DeleteEvent E i) ok_reply"
  unfolding Service_DeleteEvent_def by (rule steps does_intros | assumption)+

lemma does_cronEvent_Run: "does R (cronEvent_Run E c) any_result"
  unfolding cronEvent_Run_def by (rule reply_PostEvent steps does_intros | assumption)+

lemma does_tick: "does R (Service_tick E) any_result"
proof -
  have run: "does R (bnd (mapM (\<lambda>j. recovered () (cronEvent_Run E j)) js) (\<lambda>_. ret ())) any_result" for js
    by (rule does_recovered [where P = any_result] does_cronEvent_Run does_mapM steps | simp)+
  have "does R (\<lambda>w. case recv_tick z cronEvent_Key t (cron_sort (w_cron w)) of
       Ret (started, c) \<Rightarrow>
         bnd (mapM (\<lambda>j. recovered () (cronEvent_Run E j)) started) (\<lambda>_. ret ()) (w\<lparr>w_cron := c\<rparr>)
     | Panic m \<Rightarrow> (Panic m, w) | Hang \<Rightarrow> (Hang, w)) any_result" for z t
    by (rule doesI) (auto simp: R_refl split: outcome.split intro: R_trans [OF R_cron does_state [OF run]])
  then show ?thesis unfolding Service_tick_def by (rule R_bnd [OF does_time_Now])
qed

section \<open>Requests\<close>

lemma reply_with_body: "(\<And>x. does R (serve x) ok_reply) \<Longrightarrow> does R (with_body E b serve rq) ok_reply"
  unfolding with_body_def bind_failure_def
  by (auto split: sum.split intro!: R_ret simp: ok_message)

lemma reply_with_params: "(\<And>x. does R (serve x) ok_reply) \<Longrightarrow> does R (with_params serve rq) ok_reply"
  unfolding with_params_def by (rule R_bnd R_lift_any | assumption)+

lemmas replies = reply_GetStats reply_GetEventType reply_GetAllEventTypes reply_QueryEventTypes
  reply_PostEventType reply_DeleteEventType reply_GetEvent reply_GetAllEvents reply_QueryEvents
  reply_PostEvent reply_PostRepeatingEvent reply_DeleteEvent reply_GetTrigger reply_GetAllTriggers
  reply_QueryTriggers reply_PostTrigger reply_PutTrigger reply_DeleteTrigger reply_GetAlert
  reply_GetAllAlerts reply_QueryAlerts reply_PostAlert reply_DeleteAlert reply_tests
  reply_with_body reply_with_params does_if

lemmas handler_defs = handleGetStats_def handleGetEventType_def handleGetAllEventTypes_def
  handlePostEventType_def handleEventTypeQuery_def handleDeleteEventType_def handleGetEvent_def
  handleGetAllEvents_def handlePostEvent_def handleEventQuery_def handleDeleteEvent_def
  handleGetTrigger_def handleGetAllTriggers_def handlePostTrigger_def handleTriggerQuery_def
  handlePutTrigger_def handleDeleteTrigger_def handleGetAlert_def handleGetAllAlerts_def
  handleAlertQuery_def handlePostAlert_def handleDeleteAlert_def handleTestElasticsearchVersion_def
  handleTestElasticsearchGetOne_def handleTestElasticsearchPost_def

lemma reply_constant: "does R (handleGetRoot E i rq) ok_reply" "does R (handleGetVersion E i rq) ok_reply"
  unfolding handleGetRoot_def handleGetVersion_def by (auto intro!: R_ret simp: ok_untyped)

lemma reply_Routes: "(v, pat, h) \<in> set (Routes E) \<Longrightarrow> does R (h i rq) ok_reply"
  unfolding Routes_def
  by (auto simp only: list.set insert_iff empty_iff prod.inject handler_defs
      intro!: reply_constant [unfolded handler_defs] replies)

text \<open>Every request.\<close>

lemma does_serve: "does R (Server_serve E rq) ok_response"
proof (cases "find_route E (rq_verb rq) (rq_path rq)")
  case None
  then show ?thesis
    by (simp add: Server_serve_def not_found_page_def R_ret ok_message)
next
  case (Some hi)
  obtain h i where hi: "hi = (h, i)" by (cases hi)
  with Some obtain v pat where r: "(v, pat, h) \<in> set (Routes E)"
    by (auto simp: find_route_def find_Some_iff split: option.splits) (metis nth_mem)
  have "does R (bnd (h i rq) (\<lambda>resp. lift (deref resp))) ok_response"
    by (rule R_bnd [OF reply_Routes [OF r] does_deref_reply])
  with Some hi show ?thesis by (simp add: Server_serve_def GinReturnJson_def)
qed

end

end
