(* ===== verification/Safety.thy ===== *)
theory Safety
  imports Replies
begin

text \<open>
  Two orders every request respects: the invariant of the mock indices, and the growth of the
  audit log, the sent messages and the consumed randomness.
\<close>

section \<open>The invariant of the mock index\<close>

definition mock_kept :: "mockIndex \<Rightarrow> mockIndex \<Rightarrow> bool" where
  "mock_kept x y \<longleftrightarrow> (mock_inv x \<longrightarrow> mock_inv y \<and> (\<forall>t. mock_has_type x t \<longrightarrow> mock_has_type y t))"

lemma mock_kept_refl: "mock_kept x x"
  by (simp add: mock_kept_def)

lemma mock_kept_trans: "mock_kept x y \<Longrightarrow> mock_kept y z \<Longrightarrow> mock_kept x z"
  by (auto simp: mock_kept_def)

lemma kept_bnd: "does mock_kept m P \<Longrightarrow> (\<And>x. P x \<Longrightarrow> does mock_kept (f x) Q) \<Longrightarrow> does mock_kept (bnd m f) Q"
  using does_bnd [of mock_kept m P f Q] mock_kept_trans by blast

lemma kept_pure: "does mock_kept (ret x) any_result" "does mock_kept (lift r) any_result"
  "does mock_kept (gets f) any_result"
  by (rule does_ret does_lift does_gets; simp add: mock_kept_refl)+

lemma kept_reads:
  "does mock_kept mock_IndexExists any_result" "does mock_kept (mock_TypeExists t) any_result"
  "does mock_kept (mock_type_ptr t) any_result"
  unfolding mock_IndexExists_def mock_TypeExists_def mock_type_ptr_def
  by ((rule kept_bnd kept_pure does_intros | assumption)+)

lemmas kept_intros = kept_bnd kept_pure kept_reads does_intros

lemma kept_ItemExists: "does mock_kept (mock_ItemExists t i) any_result"
  unfolding mock_ItemExists_def by (rule kept_intros | assumption)+

lemma kept_GetByID: "does mock_kept (mock_GetByID t i) any_result"
  unfolding mock_GetByID_def by (rule kept_ItemExists kept_intros | assumption)+

lemma mock_has_type_update: "mock_has_type x u \<Longrightarrow> mock_has_type (x\<lparr>types := AList.update t ty (types x)\<rparr>) u"
  by (simp add: mock_has_type_def update_conv')

lemma kept_store: "distinct (map fst (items ty)) \<Longrightarrow> does mock_kept (mock_store t ty) any_result"
  unfolding mock_store_def
  by (rule does_modify) (simp add: mock_kept_def mock_inv_store mock_has_type_update)

text \<open>The items of a type that is there are a map.\<close>

lemma kept_with_type:
  assumes "\<And>ty. distinct (map fst (items ty)) \<Longrightarrow> does mock_kept (f ty) any_result"
  shows "does mock_kept (bnd (mock_type_ptr t) f) any_result"
proof (rule doesI)
  fix x
  show "mock_kept x (snd (bnd (mock_type_ptr t) f x))"
  proof (cases "map_of (types x) t")
    case None
    then show ?thesis by (simp add: mock_type_ptr_def bnd_def gets_def lift_def nil_deref_def mock_kept_refl)
  next
    case (Some ty)
    then have "bnd (mock_type_ptr t) f x = f ty x" by (simp add: bnd_def mock_type_ptr_app)
    moreover have "mock_kept x (snd (f ty x))" if "mock_inv x"
      using assms [OF mock_inv_items [OF that Some]] by (rule does_state)
    ultimately show ?thesis by (cases "mock_inv x") (simp_all add: mock_kept_def)
  qed
qed simp

lemma kept_newId: "does mock_kept mock_newId any_result"
proof -
  have m: "does mock_kept (modify (\<lambda>esi. esi\<lparr>idSource := wrap64 (idSource esi + 1)\<rparr>)) any_result"
    by (rule does_modify) (simp add: mock_kept_def mock_inv_def mock_has_type_def)
  show ?thesis unfolding mock_newId_def by (rule m kept_intros | assumption)+
qed

lemma kept_PostData: "does mock_kept (mock_PostData t i v) any_result"
proof -
  have s: "does mock_kept (mock_store t \<lparr>items = [], mapping = VNil\<rparr>) any_result"
    by (rule kept_store) simp
  have u: "does mock_kept (mock_store t (ty\<lparr>items := AList.update j w (items ty)\<rparr>)) any_result"
    if "distinct (map fst (items ty))" for ty j w
    using that by (intro kept_store) (simp add: distinct_update)
  show ?thesis unfolding mock_PostData_def
    by (rule kept_with_type s u kept_newId kept_intros | assumption)+
qed

lemma kept_DeleteByID: "does mock_kept (mock_DeleteByID t i) any_result"
proof -
  have u: "does mock_kept (mock_store t (ty\<lparr>items := AList.delete j (items ty)\<rparr>)) any_result"
    if "distinct (map fst (items ty))" for ty j
    using that by (intro kept_store) (simp add: distinct_delete)
  show ?thesis unfolding mock_DeleteByID_def
    by (rule kept_with_type u kept_ItemExists kept_intros | assumption)+
qed

lemma kept_addType: "does mock_kept (mock_addType t v) any_result"
proof -
  have s: "does mock_kept (modify (\<lambda>esi. esi\<lparr>types := AList.update t
      \<lparr>items = [], mapping = VMap m\<rparr> (types esi)\<rparr>)) any_result" for m
    using kept_store [of "\<lparr>items = [], mapping = VMap m\<rparr>" t] by (simp add: mock_store_def)
  show ?thesis unfolding mock_addType_def by (rule s kept_intros | assumption)+
qed

lemma kept_searches: "does mock_kept (mock_FilterByMatchAll t f) any_result"
  "does mock_kept (mock_FilterByTermQuery t n u f) any_result"
  unfolding mock_FilterByMatchAll_def mock_FilterByTermQuery_def
  by ((rule kept_intros | assumption)+)

lemma kept_document: "does mock_kept (mock_AddPercolationDocument t v) any_result"
  unfolding mock_AddPercolationDocument_def by (rule kept_PostData kept_intros | assumption)+

text \<open>All six indices meet their invariant and have the type the service stores in them.\<close>

definition mock_healthy :: "mockIndex world \<Rightarrow> bool" where
  "mock_healthy w \<longleftrightarrow>
     mock_inv (w_eventTypes w) \<and> mock_has_type (w_eventTypes w) EventTypeDBMapping \<and>
     mock_inv (w_events w) \<and> mock_inv (w_triggers w) \<and> mock_has_type (w_triggers w) TriggerDBMapping \<and>
     mock_inv (w_alerts w) \<and> mock_has_type (w_alerts w) AlertDBMapping \<and>
     mock_inv (w_crons w) \<and> mock_has_type (w_crons w) CronDBMapping \<and> mock_inv (w_tests w)"

definition healthy_kept :: "mockIndex world \<Rightarrow> mockIndex world \<Rightarrow> bool" where
  "healthy_kept w w' \<longleftrightarrow> (mock_healthy w \<longrightarrow> mock_healthy w')"

definition mock_env :: "mockIndex env \<Rightarrow> mockIndex env" where
  "mock_env E = E\<lparr>env_idx := mock_index\<rparr>"

lemma mock_env_idx [simp]: "env_idx (mock_env E) = mock_index"
  by (simp add: mock_env_def)

interpretation mock_kept: service_order "mock_env E" mock_kept healthy_kept for E
  by unfold_locales
     (auto simp: mock_index_def mock_PutData_def mock_SetMapping_def mock_GetAllElements_def
       mock_SearchByJSON_def mock_GetTypes_def mock_AddPercolationQuery_def mock_DeletePercolationQuery_def
       mock_kept_def mock_healthy_def healthy_kept_def
       intro!: kept_reads kept_ItemExists kept_GetByID kept_PostData kept_DeleteByID kept_addType
         kept_searches kept_document does_ret does_gets)

section \<open>The log grows\<close>

text \<open>Nothing is ever taken back from the audit log or from the messages sent.\<close>

definition log_grows :: "'x world \<Rightarrow> 'x world \<Rightarrow> bool" where
  "log_grows w w' \<longleftrightarrow> (\<exists>a. w_audit w' = w_audit w @ a) \<and> (\<exists>m. w_mq w' = w_mq w @ m) \<and>
     w_rand w \<le> w_rand w' \<and> w_time w \<le> w_time w'"

interpretation log_grows: service_order E "\<lambda>_ _. True" log_grows for E
  by unfold_locales (auto simp: log_grows_def does_def)

end
