(* ===== verification/StartLaws.thy ===== *)
theory StartLaws
  imports CronLaws Kits Safety
begin

text \<open>
  Starting the service on the mock indices: all six are created, the polling ends at once, and
  the two system event types are there.
\<close>

section \<open>Creating the indices\<close>

definition created :: "mockIndex \<Rightarrow> mockIndex" where
  "created x = x\<lparr>exists := True, settings := VNil\<rparr>"

lemma mock_Create_empty: "\<not> exists x \<Longrightarrow> mock_Create [] x = (Ret None, created x)"
  by (simp add: mock_Create_def bnd_def gets_def modify_def ret_def created_def)

lemma fresh_mock_app:
  "fresh_mock n t = (NewMockIndex n)\<lparr>types := [(t, \<lparr>items = [], mapping = VMap []\<rparr>)]\<rparr>"
  by (simp add: fresh_mock_def mock_SetMapping_def mock_addType_def bnd_def modify_def ret_def NewMockIndex_def)

lemma created_fresh:
  "mock_inv (created (fresh_mock n t))" "mock_docs (created (fresh_mock n t)) u i = None"
  "mock_has_type (created (fresh_mock n t)) u \<longleftrightarrow> u = t" "\<not> exists (fresh_mock n t)"
  "types (created (fresh_mock n t)) \<noteq> []"
  by (auto simp: created_def fresh_mock_app NewMockIndex_def mock_inv_def mock_docs_def mock_has_type_def)

definition started_world :: "mockIndex world \<Rightarrow> mockIndex world" where
  "started_world w = w\<lparr>w_eventTypes := created (w_eventTypes w), w_events := created (w_events w),
     w_triggers := created (w_triggers w), w_alerts := created (w_alerts w),
     w_crons := created (w_crons w), w_tests := created (w_tests w)\<rparr>"

lemma NewDatabases_app:
  assumes "env_idx E = mock_index" "\<not> exists (w_eventTypes w)" "\<not> exists (w_events w)"
    "\<not> exists (w_triggers w)" "\<not> exists (w_alerts w)" "\<not> exists (w_crons w)" "\<not> exists (w_tests w)"
  shows "NewDatabases E w = (Ret None, started_world w)"
  using assms
  by (simp add: NewDatabases_def NewDB_defs NewResourceDB_def mock_index_def on_defs zoom_def bnd_def ret_def
      mock_Create_empty started_world_def)

lemma PollFunction_ready:
  "0 < n \<Longrightarrow> fn w = (Ret (True, None), w) \<Longrightarrow> PollFunction n fn w = (Ret (True, None), w)"
  by (cases n) (simp_all add: bnd_def ret_def)

lemma polling_app:
  assumes "env_idx E = mock_index" "mock_inv (w_eventTypes w)" "types (w_eventTypes w) \<noteq> []"
  shows "PollFunction poll_ticks (pollingFn E) w = (Ret (True, None), w)"
proof (rule PollFunction_ready)
  show "pollingFn E w = (Ret (True, None), w)"
    using assms mock_inv_exists [OF assms(2)]
    by (simp add: pollingFn_def on_eventTypes_def zoom_def bnd_def ret_def mock_index_def mock_IndexExists_def
        gets_def mock_GetTypes_def)
qed (simp add: poll_ticks_def)

section \<open>The system event types\<close>

lemma system_mappings_ok:
  "mapping_ok_entries ingestEventTypeMapping" "wf_entries ingestEventTypeMapping"
  "list_all (\<lambda>(k, v). \<not> str_contains k ''~'') (vars_of ingestEventTypeMapping)"
  "mapping_ok_entries executionCompletedTypeMapping" "wf_entries executionCompletedTypeMapping"
  "list_all (\<lambda>(k, v). \<not> str_contains k ''~'') (vars_of executionCompletedTypeMapping)"
  by code_simp+

lemma names_ok_empty: "(\<forall>t i. s t i = None) \<Longrightarrow> names_ok s"
  by (simp add: names_ok_def)

lemma names_ok_put: "names_ok s \<Longrightarrow> names_ok (store_put EventTypeDBMapping i (Some (wire (enc_eventType et))) s)"
  by (auto simp: names_ok_def store_put_apply doc_name dec_enc_eventType split: if_splits)

lemma name_taken_put: "name_taken (store_put EventTypeDBMapping i (Some (wire (enc_eventType et))) s) (et_Name et)"
  by (auto simp: name_taken_def store_put_apply doc_name)

lemma name_taken_put_other:
  "s EventTypeDBMapping i = None \<Longrightarrow> name_taken s n \<Longrightarrow> name_taken (store_put EventTypeDBMapping i d s) n"
  unfolding name_taken_def store_put_apply by (metis option.distinct(1))

text \<open>Posting a system event type to a healthy service that has neither its name nor its identifier.\<close>

lemma post_system_type_app:
  assumes "env_idx E = mock_index" "mock_inv (w_eventTypes w)" "mock_inv (w_events w)"
    "names_ok (mock_docs (w_eventTypes w))" "mock_has_type (w_eventTypes w) EventTypeDBMapping"
    "\<not> mock_has_type (w_events w) n" "\<not> name_taken (mock_docs (w_eventTypes w)) n"
    "mock_docs (w_eventTypes w) EventTypeDBMapping (next_ident E w) = None"
    "mapping_ok_entries m" "wf_entries m" "list_all (\<lambda>(k, v). \<not> str_contains k ''~'') (vars_of m)"
  shows "\<exists>x' y' l et. post_system_type E n m w = (Ret (), (drawn w)\<lparr>w_eventTypes := x', w_events := y',
      w_audit := l, w_stats := IncrEventTypes (w_stats w)\<rparr>) \<and> et_Name et = n \<and>
    mock_inv x' \<and> mock_inv y' \<and> mock_has_type x' = mock_has_type (w_eventTypes w) \<and>
    mock_docs x' = store_put EventTypeDBMapping (next_ident E w) (Some (wire (enc_eventType et)))
      (mock_docs (w_eventTypes w)) \<and>
    mock_has_type y' = (mock_has_type (w_events w))(n := True)"
proof -
  let ?et = "system_eventType E n m"
  have et: "et_Name ?et = n" "et_Mapping ?et = Some m" by (simp_all add: system_eventType_def)
  from mock.PostEventType_created [of E w ?et] assms et obtain x' y' l where
    "Service_PostEventType E ?et w = (Ret (Some (typed_response 201 (PEventType (new_eventType E w ?et)))),
       (drawn w)\<lparr>w_eventTypes := x', w_events := y', w_audit := l, w_stats := IncrEventTypes (w_stats w)\<rparr>)"
    "mock_inv x'" "mock_inv y'" "mock_has_type x' = mock_has_type (w_eventTypes w)"
    "mock_docs x' = store_put EventTypeDBMapping (next_ident E w)
      (Some (wire (enc_eventType (wrapped_eventType (new_eventType E w ?et))))) (mock_docs (w_eventTypes w))"
    "mock_has_type y' = (mock_has_type (w_events w))(n := True)" by auto
  with et show ?thesis
    by (intro exI [of _ x'] exI [of _ y'] exI [of _ l] exI [of _ "wrapped_eventType (new_eventType E w ?et)"])
      (simp add: post_system_type_def bnd_def lift_def ret_def)
qed

section \<open>NewKit\<close>

lemma mock_inv_not_exists: "mock_inv x \<Longrightarrow> types x \<noteq> [] \<longleftrightarrow> (\<exists>t. mock_has_type x t)"
  by (cases "types x") (auto simp: mock_has_type_def)

text \<open>The two identifiers the start takes, at positions 0 and 16 of the random source, differ.\<close>

lemma start_app:
  assumes idx: "env_idx E = mock_index" and ids: "ident_at E 0 \<noteq> ident_at E 16"
  shows "\<exists>w. NewKit E True makeMockIndices = (Ret None, w) \<and> mock_healthy w \<and>
    names_ok (mock_docs (w_eventTypes w)) \<and> names_unique (mock_docs (w_eventTypes w)) \<and>
    name_taken (mock_docs (w_eventTypes w)) ingestTypeName \<and>
    name_taken (mock_docs (w_eventTypes w)) executeTypeName \<and>
    mock_has_type (w_events w) ingestTypeName \<and> mock_has_type (w_events w) executeTypeName \<and>
    NumEventTypes (w_stats w) = 2 \<and> w_cron w = cron_New"
proof -
  define w0 where "w0 = makeMockIndices\<lparr>w_time := 1, w_stats := zero_stats\<lparr>st_CreatedOn := next_time E makeMockIndices\<rparr>\<rparr>"
  define w1 where "w1 = (started_world w0)\<lparr>w_cron := cron_New\<rparr>"
  have w1: "w_eventTypes w1 = created (fresh_mock ''eventtypes'' EventTypeDBMapping)"
      "w_events w1 = created (fresh_mock ''events'' EventDBMapping)"
      "w_triggers w1 = created (fresh_mock ''triggers'' TriggerDBMapping)"
      "w_alerts w1 = created (fresh_mock ''alerts'' AlertDBMapping)"
      "w_crons w1 = created (fresh_mock ''crons'' CronDBMapping)"
      "w_tests w1 = created (fresh_mock ''testElasticsearch'' TestElasticsearchMapping)"
      "w_rand w1 = 0" "w_cron w1 = cron_New" "NumEventTypes (w_stats w1) = 0"
    by (simp_all add: w1_def w0_def started_world_def makeMockIndices_def zero_stats_def)
  have dbs: "NewDatabases E w0 = (Ret None, started_world w0)"
    by (rule NewDatabases_app [OF idx]) (simp_all add: w0_def makeMockIndices_def created_fresh)
  have poll: "PollFunction poll_ticks (pollingFn E) w1 = (Ret (True, None), w1)"
    by (rule polling_app [OF idx]) (simp_all add: w1 created_fresh)
  have d1: "mock_docs (w_eventTypes w1) = (\<lambda>_ _. None)" by (simp add: w1 created_fresh fun_eq_iff)
  have ne: "ingestTypeName \<noteq> executeTypeName" "ingestTypeName \<noteq> EventDBMapping" "executeTypeName \<noteq> EventDBMapping"
    by (simp_all add: ingestTypeName_def executeTypeName_def EventDBMapping_def)
  have e1: "mock_has_type (w_events w1) = (\<lambda>t. t = EventDBMapping)" by (simp add: w1 created_fresh fun_eq_iff)
  have h1: "mock_inv (w_eventTypes w1)" "mock_inv (w_events w1)" "names_ok (mock_docs (w_eventTypes w1))"
      "mock_has_type (w_eventTypes w1) EventTypeDBMapping" "\<not> mock_has_type (w_events w1) ingestTypeName"
      "\<not> name_taken (mock_docs (w_eventTypes w1)) ingestTypeName"
      "mock_docs (w_eventTypes w1) EventTypeDBMapping (next_ident E w1) = None"
    using ne by (simp_all add: w1 created_fresh e1 d1 names_ok_def name_taken_def)
  have n1: "next_ident E w1 = ident_at E 0" by (simp add: next_ident_at w1)
  from post_system_type_app [OF idx h1 system_mappings_ok(1-3), unfolded d1 e1 n1] obtain x2 y2 l2 et1 where
    p1: "post_system_type E ingestTypeName ingestEventTypeMapping w1 = (Ret (), (drawn w1)\<lparr>w_eventTypes := x2,
      w_events := y2, w_audit := l2, w_stats := IncrEventTypes (w_stats w1)\<rparr>)" "et_Name et1 = ingestTypeName"
    and x2: "mock_inv x2" "mock_inv y2" "mock_has_type x2 = mock_has_type (w_eventTypes w1)"
      "mock_docs x2 = store_put EventTypeDBMapping (ident_at E 0) (Some (wire (enc_eventType et1))) (\<lambda>_ _. None)"
      "mock_has_type y2 = (\<lambda>t. t = EventDBMapping)(ingestTypeName := True)"
    by blast
  let ?w2 = "(drawn w1)\<lparr>w_eventTypes := x2, w_events := y2, w_audit := l2, w_stats := IncrEventTypes (w_stats w1)\<rparr>"
  have nm: "doc_field ''name'' (wire (enc_eventType et1)) = Some ingestTypeName" using p1(2) doc_name [of et1] by simp
  have n2: "next_ident E ?w2 = ident_at E 16" by (simp add: next_ident_at drawn_def w1)
  have free: "\<not> name_taken (mock_docs x2) executeTypeName" using ne nm
    by (auto simp: x2(4) name_taken_def store_put_apply split: if_splits)
  have ok2: "names_ok (mock_docs x2)" unfolding x2(4) by (rule names_ok_put) (simp add: names_ok_def)
  have f2: "mock_docs x2 EventTypeDBMapping (ident_at E 16) = None" using ids by (simp add: x2(4) store_put_apply)
  have h2: "mock_inv (w_eventTypes ?w2)" "mock_inv (w_events ?w2)" "names_ok (mock_docs (w_eventTypes ?w2))"
      "mock_has_type (w_eventTypes ?w2) EventTypeDBMapping" "\<not> mock_has_type (w_events ?w2) executeTypeName"
      "\<not> name_taken (mock_docs (w_eventTypes ?w2)) executeTypeName"
      "mock_docs (w_eventTypes ?w2) EventTypeDBMapping (next_ident E ?w2) = None"
    unfolding n2 using ne x2 free ok2 f2 h1(4) by simp_all
  from post_system_type_app [OF idx h2 system_mappings_ok(4-6), unfolded n2] obtain x3 y3 l3 et2 where
    p2: "post_system_type E executeTypeName executionCompletedTypeMapping ?w2 = (Ret (), (drawn ?w2)\<lparr>w_eventTypes := x3,
      w_events := y3, w_audit := l3, w_stats := IncrEventTypes (w_stats ?w2)\<rparr>)" "et_Name et2 = executeTypeName"
    and x3: "mock_inv x3" "mock_inv y3" "mock_has_type x3 = mock_has_type (w_eventTypes ?w2)"
      "mock_docs x3 = store_put EventTypeDBMapping (ident_at E 16) (Some (wire (enc_eventType et2))) (mock_docs (w_eventTypes ?w2))"
      "mock_has_type y3 = (mock_has_type (w_events ?w2))(executeTypeName := True)"
    by blast
  have d3: "mock_docs x3 = store_put EventTypeDBMapping (ident_at E 16) (Some (wire (enc_eventType et2))) (mock_docs x2)"
    using x3(4) by simp
  let ?w3 = "(drawn ?w2)\<lparr>w_eventTypes := x3, w_events := y3, w_audit := l3, w_stats := IncrEventTypes (w_stats ?w2)\<rparr>"
  have start: "NewTimeStamp E makeMockIndices = (Ret (next_time E makeMockIndices), makeMockIndices\<lparr>w_time := Suc 0\<rparr>)"
    by (simp add: NewTimeStamp_app makeMockIndices_def)
  have st: "upd_stats (st_CreatedOn_update (\<lambda>_. next_time E makeMockIndices)) (makeMockIndices\<lparr>w_time := Suc 0\<rparr>) =
      (Ret (), w0)"
    by (simp add: upd_stats_app makeMockIndices_def w0_def)
  have cr: "w_cron_update (\<lambda>_. cron_New) (started_world w0) = w1" by (simp add: w1_def)
  have "Service_Init E makeMockIndices = (Ret None, ?w3)"
    using dbs poll p1(1) p2(1)
    by (simp add: Service_Init_def recovered_def bnd_def start st cr modify_def ret_def)
  then have kit: "NewKit E True makeMockIndices = (Ret None, ?w3)"
    by (simp add: NewKit_def bnd_def ret_def)
  have u2: "names_unique (mock_docs x2)"
    by (auto simp: x2(4) names_unique_def store_put_apply split: if_splits)
  have u3: "names_unique (mock_docs x3)" unfolding d3
    by (rule names_unique_put [OF u2 free]) (use p2(2) doc_name [of et2] in simp)
  have t2: "name_taken (mock_docs x2) ingestTypeName"
    using name_taken_put [of "ident_at E 0" et1 "\<lambda>_ _. None"] p1(2) unfolding x2(4) by simp
  have t3: "name_taken (mock_docs x3) ingestTypeName" "name_taken (mock_docs x3) executeTypeName"
    using name_taken_put_other [OF f2 t2] name_taken_put [of "ident_at E 16" et2 "mock_docs x2"] p2(2)
    unfolding d3 by simp_all
  have ok3: "names_ok (mock_docs x3)" unfolding d3 by (rule names_ok_put [OF ok2])
  show ?thesis
    by (intro exI [of _ ?w3] conjI kit)
      (use u3 t3 ok3 x2 x3 in \<open>simp_all add: mock_healthy_def w1 created_fresh IncrEventTypes_def incrCounter_def
        wrap64_def\<close>)
qed

end
