(* ===== verification/Runs.thy ===== *)
theory Runs
  imports StartLaws
begin

text \<open>
  A running service as a state machine: it serves requests and its cron runner ticks, in any
  order. A request or tick that never returns is the end of the run.
\<close>

datatype service_event = Served httpRequest "jsonResponse outcome" | Ticked

inductive service_step :: "'x env \<Rightarrow> 'x world \<Rightarrow> service_event \<Rightarrow> 'x world \<Rightarrow> bool"
  for E :: "'x env" where
  step_request: "Server_serve E rq w = (r, w') \<Longrightarrow> r \<noteq> Hang \<Longrightarrow> service_step E w (Served rq r) w'"
| step_tick: "Service_tick E w = (Ret (), w') \<Longrightarrow> service_step E w Ticked w'"

inductive_cases service_step_ServedE: "service_step E w (Served rq r) w'"
inductive_cases service_step_TickedE: "service_step E w Ticked w'"

inductive service_run :: "'x env \<Rightarrow> 'x world \<Rightarrow> service_event list \<Rightarrow> 'x world \<Rightarrow> bool"
  for E :: "'x env" where
  run_none: "service_run E w [] w"
| run_more: "service_step E w ev w' \<Longrightarrow> service_run E w' evs w'' \<Longrightarrow> service_run E w (ev # evs) w''"

inductive_simps service_run_Nil: "service_run E w [] w'"
inductive_simps service_run_Cons: "service_run E w (ev # evs) w'"

text \<open>What a run shows to the clients: every answer is well formed.\<close>

definition ok_event :: "service_event \<Rightarrow> bool" where
  "ok_event ev = (case ev of Served rq (Ret r) \<Rightarrow> ok_response r | _ \<Rightarrow> True)"

context service_order
begin

lemma step_respects:
  assumes "service_step E w ev w'"
  shows "R w w' \<and> ok_event ev"
  using assms
proof cases
  case (step_request rq r)
  then show ?thesis
    using does_state [OF does_serve, of w rq] does_result [OF does_serve, of rq w]
    by (auto simp: ok_event_def split: outcome.split)
next
  case step_tick
  then show ?thesis using does_state [OF does_tick, of w] by (simp add: ok_event_def)
qed

lemma run_respects:
  assumes "service_run E w evs w'"
  shows "R w w' \<and> list_all ok_event evs"
  using assms
proof induction
  case (run_more w ev w' evs w'')
  then show ?case using step_respects [OF run_more(1)] R_trans by auto
qed (simp add: R_refl)

end

end
