(* ===== verification/Interleavings.thy ===== *)
theory Interleavings
  imports FiringLaws
begin

text \<open>
  \<open>PostEvent\<close> starts one goroutine for each matching trigger and waits for all of them. The
  scheduler may finish them in any order: here, any pending trigger may be the next one to run.
  The order in which \<open>fire_triggers\<close> runs them is one of these orders.
\<close>

section \<open>Any order\<close>

definition record_result :: "ident \<Rightarrow> jsonResponse option option \<Rightarrow>
    (ident \<times> jsonResponse option) list \<Rightarrow> (ident \<times> jsonResponse option) list" where
  "record_result i r results = (case r of None \<Rightarrow> results | Some resp \<Rightarrow> AList.update i resp results)"

inductive firing :: "'x env \<Rightarrow> eventType \<Rightarrow> event \<Rightarrow> ident list \<Rightarrow> (ident \<times> jsonResponse option) list \<Rightarrow>
    'x world \<Rightarrow> (ident \<times> jsonResponse option) list \<Rightarrow> 'x world \<Rightarrow> bool"
  for E :: "'x env" and et :: eventType and ev :: event where
  all_done: "firing E et ev [] rs w rs w"
| one_runs: "i \<in> set pending \<Longrightarrow> goroutine (fire_trigger E et ev i) w = (Ret r, w1) \<Longrightarrow>
     firing E et ev (remove1 i pending) (record_result i r rs) w1 rs' w' \<Longrightarrow>
     firing E et ev pending rs w rs' w'"

inductive_cases firing_NilE: "firing E et ev [] rs w rs' w'"

lemma fire_triggers_Cons: "fire_triggers E et ev (i # is) rs =
    bnd (goroutine (fire_trigger E et ev i)) (\<lambda>r. fire_triggers E et ev is (record_result i r rs))"
  by (simp add: record_result_def)

text \<open>A complete run is a run of the triggers in some order.\<close>

lemma firing_permuted:
  assumes "firing E et ev ids rs w rs' w'"
  shows "\<exists>js. mset js = mset ids \<and> fire_triggers E et ev js rs w = (Ret rs', w')"
  using assms
proof induction
  case (one_runs i pending w r w1 rs rs' w')
  then obtain js where js: "mset js = mset (remove1 i pending)"
    "fire_triggers E et ev js (record_result i r rs) w1 = (Ret rs', w')" by blast
  have "mset (i # js) = mset pending" using js(1) one_runs(1) by simp
  moreover have "fire_triggers E et ev (i # js) rs w = (Ret rs', w')"
    unfolding fire_triggers_Cons using one_runs(2) js(2) by (simp add: bnd_def)
  ultimately show ?case by blast
qed (auto intro!: exI [of _ "[]"] simp: ret_def)

lemma fire_triggers_firing:
  assumes "fire_triggers E et ev ids rs w = (Ret rs', w')"
  shows "firing E et ev ids rs w rs' w'"
  using assms
proof (induction ids arbitrary: rs w)
  case (Cons i "is")
  then obtain r w1 where r: "goroutine (fire_trigger E et ev i) w = (Ret r, w1)"
    "fire_triggers E et ev is (record_result i r rs) w1 = (Ret rs', w')"
    unfolding fire_triggers_Cons bnd_eq_Ret_iff by blast
  have rest: "remove1 i (i # is) = is" and i: "i \<in> set (i # is)" by simp_all
  show ?case by (rule firing.one_runs [OF i r(1)]) (unfold rest, rule Cons.IH [OF r(2)])
qed (simp add: ret_def firing.all_done)

section \<open>What every order gives\<close>

lemma mset_fired: "mset js = mset ids \<Longrightarrow> mset (fired et trg js) = mset (fired et trg ids)"
  unfolding fired_def by (metis mset_filter)

lemma set_fired: "mset js = mset ids \<Longrightarrow> set (fired et trg js) = set (fired et trg ids)"
  by (drule mset_fired [of js ids et trg]) (metis set_mset_mset)

context doc_index
begin

lemma firing_result:
  assumes idx: "env_idx E = esi"
    and t: "\<And>i w'. i \<in> set ids \<Longrightarrow> w_triggers w' = w_triggers w \<Longrightarrow>
        TriggerDB_GetOne E i w' = (Ret (Some (trg i), True, None), w')"
    and ok: "access_granted E et"
      "\<And>i. i \<in> set ids \<Longrightarrow> fires et (trg i) \<Longrightarrow> queue_accepts E q (mq_body (job_message q kvs (trg i)))"
    and d: "map_of (entries_of (ev_Data ev)) (et_Name et) = Some (VMap kvs)"
    and inv: "inv (w_alerts w)" "has_type (w_alerts w) AlertDBMapping"
    and fresh: "fresh_idents E (docs (w_alerts w)) (w_rand w) (2 * length ids)"
    and run: "firing E et ev ids [] w rs w'"
  shows "rs = [] \<and> (\<exists>ms. w_mq w' = w_mq w @ ms \<and>
      mset ms = mset (map (\<lambda>i. job_message q kvs (trg i)) (fired et trg ids))) \<and>
    w_stats w' = ((\<lambda>s. IncrAlerts (IncrTriggerJobs s)) ^^ length (fired et trg ids)) (w_stats w) \<and>
    alerts_kept (docs (w_alerts w)) (docs (w_alerts w')) \<and>
    (\<forall>i \<in> set (fired et trg ids). alerted (docs (w_alerts w')) ev i)"
proof -
  from firing_permuted [OF run] obtain js where js: "mset js = mset ids"
    "fire_triggers E et ev js [] w = (Ret rs, w')" by blast
  have eq: "set js = set ids" "length js = length ids"
    using js(1) by (metis set_mset_mset) (metis js(1) size_mset)
  have len: "length (fired et trg js) = length (fired et trg ids)"
    using mset_fired [OF js(1), of et trg] by (metis size_mset)
  from fire_triggers_app [where rs = "[]" and q = q and w = w and trg = trg and ids = js, OF idx _ ok(1) _ d inv]
    t ok(2) fresh eq obtain x' l n where
    "fire_triggers E et ev js [] w = (Ret [], w\<lparr>w_alerts := x', w_audit := l,
      w_mq := w_mq w @ map (\<lambda>i. job_message q kvs (trg i)) (fired et trg js),
      w_stats := ((\<lambda>s. IncrAlerts (IncrTriggerJobs s)) ^^ length (fired et trg js)) (w_stats w),
      w_rand := w_rand w + 32 * n, w_time := w_time w + n\<rparr>)"
    "alerts_kept (docs (w_alerts w)) (docs x')" "\<forall>i \<in> set (fired et trg js). alerted (docs x') ev i"
    by auto
  with js(2) show ?thesis
    using mset_fired [OF js(1), of et trg] set_fired [OF js(1), of et trg] len by auto
qed

end

end
