(* ===== verification/Clients.thy ===== *)
theory Clients
  imports Kits
begin

text \<open>
  The client library (\<open>workflow/Client.go\<close>): each method is one request and the decoding of its
  answer. The transport (\<open>Http.PzGet\<close> and the others of \<open>pz-gocommon\<close>) is a parameter that
  takes a verb, an endpoint and a body. A method returns its output and an error; an output
  that was not decoded is the zero value it was created with.
\<close>

section \<open>Answers\<close>

record pzResponse =
  pz_StatusCode :: int
  pz_Data :: val
  pz_Count :: "int option"
  pz_Message :: string

type_synonym 'w transport = "string \<Rightarrow> string \<Rightarrow> val option \<Rightarrow> ('w, pzResponse) go"

definition pz_IsError :: "pzResponse \<Rightarrow> bool" where
  "pz_IsError r \<longleftrightarrow> pz_StatusCode r < 200 \<or> pz_StatusCode r > 299"

definition pz_ToError :: "pzResponse \<Rightarrow> err" where
  "pz_ToError r = (if \<not> pz_IsError r then None
     else Some (''{'' @ itoa (pz_StatusCode r) @ '': '' @ pz_Message r @ ''}''))"

definition ExtractData :: "(val \<Rightarrow> string + 'a) \<Rightarrow> 'a \<Rightarrow> pzResponse \<Rightarrow> 'a \<times> err" where
  "ExtractData dec out r = (case dec (wire (pz_Data r)) of Inl e \<Rightarrow> (out, Some e) | Inr x \<Rightarrow> (x, None))"

text \<open>A status that is neither an error nor the expected one gives no error and no output.\<close>

definition answer :: "int list \<Rightarrow> (val \<Rightarrow> string + 'a) \<Rightarrow> 'a \<Rightarrow> pzResponse \<Rightarrow> 'a \<times> err" where
  "answer expected dec out r =
     (if pz_IsError r then (out, pz_ToError r)
      else if pz_StatusCode r \<notin> set expected then (out, pz_ToError r)
      else ExtractData dec out r)"

definition getObject :: "'w transport \<Rightarrow> string \<Rightarrow> (val \<Rightarrow> string + 'a) \<Rightarrow> 'a \<Rightarrow> ('w, 'a \<times> err) go" where
  "getObject h endpoint dec out = bnd (h ''GET'' endpoint None) (\<lambda>r. ret (answer [200] dec out r))"

definition postObject ::
    "'w transport \<Rightarrow> val \<Rightarrow> string \<Rightarrow> (val \<Rightarrow> string + 'a) \<Rightarrow> 'a \<Rightarrow> ('w, 'a \<times> err) go" where
  "postObject h obj endpoint dec out =
     bnd (h ''POST'' endpoint (Some obj)) (\<lambda>r. ret (answer [201, 200] dec out r))"

definition putObject ::
    "'w transport \<Rightarrow> val \<Rightarrow> string \<Rightarrow> (val \<Rightarrow> string + 'a) \<Rightarrow> 'a \<Rightarrow> ('w, 'a \<times> err) go" where
  "putObject h obj endpoint dec out =
     bnd (h ''PUT'' endpoint (Some obj)) (\<lambda>r. ret (answer [200] dec out r))"

definition deleteObject :: "'w transport \<Rightarrow> string \<Rightarrow> ('w, err) go" where
  "deleteObject h endpoint = bnd (h ''DELETE'' endpoint None) (\<lambda>r.
     ret (snd (answer [200] (\<lambda>_. Inr ()) () r)))"

definition getObjectCount :: "'w transport \<Rightarrow> string \<Rightarrow> ('w, int \<times> err) go" where
  "getObjectCount h endpoint = bnd (h ''GET'' endpoint None) (\<lambda>r.
     ret (if pz_IsError r then (0, pz_ToError r)
          else if pz_StatusCode r \<noteq> 200 then (0, pz_ToError r)
          else case pz_Count r of None \<Rightarrow> (0, None) | Some n \<Rightarrow> (n, None)))"

section \<open>Decoding lists\<close>

primrec dec_all :: "(val \<Rightarrow> string + 'a) \<Rightarrow> val list \<Rightarrow> string + 'a list" where
  "dec_all dec [] = Inr []"
| "dec_all dec (v # vs) = sbind (dec v) (\<lambda>x. sbind (dec_all dec vs) (\<lambda>xs. Inr (x # xs)))"

definition dec_list :: "(val \<Rightarrow> string + 'a) \<Rightarrow> val \<Rightarrow> string + 'a list" where
  "dec_list dec v = (case v of VArr vs \<Rightarrow> dec_all dec vs | VNil \<Rightarrow> Inr [] | _ \<Rightarrow> Inl json_type_error)"

definition dec_string :: "val \<Rightarrow> string + string" where
  "dec_string v = (case v of VStr s \<Rightarrow> Inr s | VNil \<Rightarrow> Inr [] | _ \<Rightarrow> Inl json_type_error)"

definition dec_version :: "val \<Rightarrow> string + string" where
  "dec_version v = sbind (obj_fields v) (\<lambda>f. str_field f ''Version'')"

definition dec_stats :: "val \<Rightarrow> string + stats" where
  "dec_stats v = sbind (obj_fields v) (\<lambda>f.
     sbind (time_field f ''createdOn'') (\<lambda>t.
     sbind (int_field f ''numEventTypes'') (\<lambda>a.
     sbind (int_field f ''numEvents'') (\<lambda>b.
     sbind (int_field f ''numTriggers'') (\<lambda>c.
     sbind (int_field f ''numAlerts'') (\<lambda>d.
     sbind (int_field f ''numTriggeredJobs'') (\<lambda>e.
     Inr \<lparr>st_CreatedOn = t, NumEventTypes = a, NumEvents = b, NumTriggers = c, NumAlerts = d,
          NumTriggeredJobs = e\<rparr>)))))))"

definition dec_update :: "val \<Rightarrow> string + triggerUpdate" where
  "dec_update v = sbind (obj_fields v) (\<lambda>f. sbind (bool_field f ''enabled'') (\<lambda>b. Inr \<lparr>tu_Enabled = b\<rparr>))"

definition enc_update :: "triggerUpdate \<Rightarrow> val" where
  "enc_update u = VMap [(''enabled'', VBool (tu_Enabled u))]"

definition zero_eventType :: eventType where
  "zero_eventType = \<lparr>et_EventTypeID = [], et_Name = [], et_Mapping = None, et_CreatedBy = [],
     et_CreatedOn = zero_time\<rparr>"

definition zero_alert :: alert where
  "zero_alert = \<lparr>al_AlertID = [], al_TriggerID = [], al_EventID = [], al_JobID = [],
     al_CreatedBy = [], al_CreatedOn = zero_time\<rparr>"

definition zero_testBody :: testElasticsearchBody where
  "zero_testBody = \<lparr>te_ID = [], te_Value = 0\<rparr>"

section \<open>Methods\<close>

definition paged :: "string \<Rightarrow> int \<Rightarrow> int \<Rightarrow> string" where
  "paged path perPage page = path @ ''?perPage='' @ itoa perPage @ ''&page='' @ itoa page"

definition Client_GetVersion :: "'w transport \<Rightarrow> ('w, string \<times> err) go" where
  "Client_GetVersion h = getObject h ''/version'' dec_version []"

definition Client_GetEventType :: "'w transport \<Rightarrow> ident \<Rightarrow> ('w, eventType \<times> err) go" where
  "Client_GetEventType h i = getObject h (''/eventType/'' @ i) dec_eventType zero_eventType"

definition Client_GetEventTypeByName :: "'w transport \<Rightarrow> string \<Rightarrow> ('w, eventType \<times> err) go" where
  "Client_GetEventTypeByName h name = getObject h (''/eventType?name='' @ name) dec_eventType zero_eventType"

definition Client_GetNumEventTypes :: "'w transport \<Rightarrow> ('w, int \<times> err) go" where
  "Client_GetNumEventTypes h = getObjectCount h ''/eventType''"

definition Client_GetAllEventTypes :: "'w transport \<Rightarrow> int \<Rightarrow> int \<Rightarrow> ('w, eventType list \<times> err) go" where
  "Client_GetAllEventTypes h perPage page = getObject h (paged ''/eventType'' perPage page) (dec_list dec_eventType) []"

definition Client_PostEventType :: "'w transport \<Rightarrow> eventType \<Rightarrow> ('w, eventType \<times> err) go" where
  "Client_PostEventType h et = postObject h (enc_eventType et) ''/eventType'' dec_eventType zero_eventType"

definition Client_QueryEventTypes :: "'w transport \<Rightarrow> gomap \<Rightarrow> ('w, eventType list \<times> err) go" where
  "Client_QueryEventTypes h query = postObject h (of_gomap query) ''/eventType/query'' (dec_list dec_eventType) []"

definition Client_PutEventType :: "'w transport \<Rightarrow> eventType \<Rightarrow> ('w, eventType \<times> err) go" where
  "Client_PutEventType h et = putObject h (enc_eventType et) ''/eventType'' dec_eventType zero_eventType"

definition Client_DeleteEventType :: "'w transport \<Rightarrow> ident \<Rightarrow> ('w, err) go" where
  "Client_DeleteEventType h i = deleteObject h (''/eventType/'' @ i)"

definition Client_GetEvent :: "'w transport \<Rightarrow> ident \<Rightarrow> ('w, event \<times> err) go" where
  "Client_GetEvent h i = getObject h (''/event/'' @ i) dec_event zero_event"

definition Client_GetAllEvents :: "'w transport \<Rightarrow> int \<Rightarrow> int \<Rightarrow> ('w, event list \<times> err) go" where
  "Client_GetAllEvents h perPage page = getObject h (paged ''/event'' perPage page) (dec_list dec_event) []"

definition Client_GetNumEvents :: "'w transport \<Rightarrow> ('w, int \<times> err) go" where
  "Client_GetNumEvents h = getObjectCount h ''/event''"

definition Client_GetAllEventsByEventType :: "'w transport \<Rightarrow> ident \<Rightarrow> ('w, event list \<times> err) go" where
  "Client_GetAllEventsByEventType h i = getObject h (''/event?eventTypeId='' @ i) (dec_list dec_event) []"

definition Client_PostEvent :: "'w transport \<Rightarrow> event \<Rightarrow> ('w, event \<times> err) go" where
  "Client_PostEvent h ev = postObject h (enc_event ev) ''/event'' dec_event zero_event"

definition Client_QueryEvents :: "'w transport \<Rightarrow> gomap \<Rightarrow> ('w, event list \<times> err) go" where
  "Client_QueryEvents h query = postObject h (of_gomap query) ''/event/query'' (dec_list dec_event) []"

definition Client_PutEvent :: "'w transport \<Rightarrow> event \<Rightarrow> ('w, event \<times> err) go" where
  "Client_PutEvent h ev = putObject h (enc_event ev) ''/event'' dec_event zero_event"

definition Client_DeleteEvent :: "'w transport \<Rightarrow> ident \<Rightarrow> ('w, err) go" where
  "Client_DeleteEvent h i = deleteObject h (''/event/'' @ i)"

definition Client_GetTrigger :: "'w transport \<Rightarrow> ident \<Rightarrow> ('w, trigger \<times> err) go" where
  "Client_GetTrigger h i = getObject h (''/trigger/'' @ i) dec_trigger zero_trigger"

definition Client_GetNumTriggers :: "'w transport \<Rightarrow> ('w, int \<times> err) go" where
  "Client_GetNumTriggers h = getObjectCount h ''/trigger''"

definition Client_GetAllTriggers :: "'w transport \<Rightarrow> int \<Rightarrow> int \<Rightarrow> ('w, trigger list \<times> err) go" where
  "Client_GetAllTriggers h perPage page = getObject h (paged ''/trigger'' perPage page) (dec_list dec_trigger) []"

definition Client_PostTrigger :: "'w transport \<Rightarrow> trigger \<Rightarrow> ('w, trigger \<times> err) go" where
  "Client_PostTrigger h t = postObject h (enc_trigger t) ''/trigger'' dec_trigger zero_trigger"

definition Client_QueryTriggers :: "'w transport \<Rightarrow> gomap \<Rightarrow> ('w, trigger list \<times> err) go" where
  "Client_QueryTriggers h query = postObject h (of_gomap query) ''/trigger/query'' (dec_list dec_trigger) []"

definition Client_PutTrigger :: "'w transport \<Rightarrow> ident \<Rightarrow> triggerUpdate \<Rightarrow> ('w, err) go" where
  "Client_PutTrigger h i u = bnd (putObject h (enc_update u) (''/trigger/'' @ i) dec_update \<lparr>tu_Enabled = False\<rparr>)
     (\<lambda>(out, err). ret err)"

definition Client_DeleteTrigger :: "'w transport \<Rightarrow> ident \<Rightarrow> ('w, err) go" where
  "Client_DeleteTrigger h i = deleteObject h (''/trigger/'' @ i)"

definition Client_GetAlert :: "'w transport \<Rightarrow> ident \<Rightarrow> ('w, alert \<times> err) go" where
  "Client_GetAlert h i = getObject h (''/alert/'' @ i) dec_alert zero_alert"

definition Client_GetAlertByTrigger :: "'w transport \<Rightarrow> ident \<Rightarrow> ('w, alert list \<times> err) go" where
  "Client_GetAlertByTrigger h i = getObject h (''/alert?triggerId='' @ i) (dec_list dec_alert) []"

definition Client_GetNumAlerts :: "'w transport \<Rightarrow> ('w, int \<times> err) go" where
  "Client_GetNumAlerts h = getObjectCount h ''/alert''"

definition Client_GetAllAlerts :: "'w transport \<Rightarrow> int \<Rightarrow> int \<Rightarrow> ('w, alert list \<times> err) go" where
  "Client_GetAllAlerts h perPage page = getObject h (paged ''/alert'' perPage page) (dec_list dec_alert) []"

definition Client_PostAlert :: "'w transport \<Rightarrow> alert \<Rightarrow> ('w, alert \<times> err) go" where
  "Client_PostAlert h a = postObject h (enc_alert a) ''/alert'' dec_alert zero_alert"

definition Client_QueryAlerts :: "'w transport \<Rightarrow> gomap \<Rightarrow> ('w, alert list \<times> err) go" where
  "Client_QueryAlerts h query = postObject h (of_gomap query) ''/alert/query'' (dec_list dec_alert) []"

definition Client_PutAlert :: "'w transport \<Rightarrow> alert \<Rightarrow> ('w, alert \<times> err) go" where
  "Client_PutAlert h a = putObject h (enc_alert a) ''/alert'' dec_alert zero_alert"

definition Client_DeleteAlert :: "'w transport \<Rightarrow> ident \<Rightarrow> ('w, err) go" where
  "Client_DeleteAlert h i = deleteObject h (''/alert/'' @ i)"

definition Client_TestElasticsearchGetVersion :: "'w transport \<Rightarrow> ('w, string \<times> err) go" where
  "Client_TestElasticsearchGetVersion h = getObject h ''/_test/elasticsearch/version'' dec_string []"

definition Client_TestElasticsearchGetOne :: "'w transport \<Rightarrow> ident \<Rightarrow> ('w, testElasticsearchBody \<times> err) go" where
  "Client_TestElasticsearchGetOne h i =
     getObject h (''/_test/elasticsearch/data/'' @ i) dec_testBody zero_testBody"

definition Client_TestElasticsearchPost ::
    "'w transport \<Rightarrow> testElasticsearchBody \<Rightarrow> ('w, testElasticsearchBody \<times> err) go" where
  "Client_TestElasticsearchPost h b =
     postObject h (enc_testBody b) ''/_test/elasticsearch/data'' dec_testBody zero_testBody"

definition Client_GetStats :: "'w transport \<Rightarrow> ('w, stats \<times> err) go" where
  "Client_GetStats h = getObject h ''/admin/stats'' dec_stats zero_stats"

section \<open>Making a client\<close>

text \<open>
  \<open>NewClient\<close> waits for the service to answer and logs a line; either may fail. The client keeps
  the address and the key that its transport is made of.
\<close>

record client =
  cl_url :: string
  cl_apiKey :: string

definition NewClient :: "(string \<Rightarrow> ('w, bool) go) \<Rightarrow> ('w, err) go \<Rightarrow> string \<Rightarrow> string \<Rightarrow> ('w, string + client) go" where
  "NewClient probe info url apiKey = bnd (WaitForService probe ''pz-workflow'' url) (\<lambda>err. case err of
     Some e \<Rightarrow> ret (Inl e)
   | None \<Rightarrow> bnd info (\<lambda>err. case err of
       Some e \<Rightarrow> ret (Inl e)
     | None \<Rightarrow> ret (Inr \<lparr>cl_url = url, cl_apiKey = apiKey\<rparr>)))"

end
