(* ===== verification/Tools.thy ===== *)
theory Tools
  imports Clients
begin

text \<open>
  The clean-up tool (\<open>src/tools/main.go\<close>): \<open>deleteAllObjects\<close> deletes the objects of one kind
  page by page, ten pages at a time, over the client's methods. The goroutines of a batch are
  run one after the other, in the order they are started.
\<close>

section \<open>Deleting a page\<close>

text \<open>The deletion of an alert may end the page with its error; the others ignore errors.\<close>

primrec delete_each :: "('a \<Rightarrow> ('w, err) go) \<Rightarrow> 'a list \<Rightarrow> ('w, err) go" where
  "delete_each del [] = ret None"
| "delete_each del (x # xs) = bnd (del x) (\<lambda>err. case err of
     Some e \<Rightarrow> ret (Some e) | None \<Rightarrow> delete_each del xs)"

primrec delete_ignoring :: "('a \<Rightarrow> ('w, err) go) \<Rightarrow> 'a list \<Rightarrow> ('w, err) go" where
  "delete_ignoring del [] = ret None"
| "delete_ignoring del (x # xs) = bnd (del x) (\<lambda>_. delete_ignoring del xs)"

definition deletePageOfAlerts :: "'w transport \<Rightarrow> int \<Rightarrow> int \<Rightarrow> ('w, err) go" where
  "deletePageOfAlerts h perPage page = bnd (Client_GetAllAlerts h perPage page) (\<lambda>(alerts, err).
     if err \<noteq> None then ret err
     else delete_each (\<lambda>a. Client_DeleteAlert h (al_AlertID a)) alerts)"

definition deletePageOfEvents :: "'w transport \<Rightarrow> int \<Rightarrow> int \<Rightarrow> ('w, err) go" where
  "deletePageOfEvents h perPage page = bnd (Client_GetAllEvents h perPage page) (\<lambda>(events, err).
     if err \<noteq> None then ret err
     else delete_ignoring (\<lambda>ev. Client_DeleteEvent h (ev_EventID ev)) events)"

definition deletePageOfEventTypes :: "'w transport \<Rightarrow> int \<Rightarrow> int \<Rightarrow> ('w, err) go" where
  "deletePageOfEventTypes h perPage page = bnd (Client_GetAllEventTypes h perPage page) (\<lambda>(eventtypes, err).
     if err \<noteq> None then ret err
     else delete_ignoring (\<lambda>et. Client_DeleteEventType h (et_EventTypeID et)) eventtypes)"

definition deletePageOfTriggers :: "'w transport \<Rightarrow> int \<Rightarrow> int \<Rightarrow> ('w, err) go" where
  "deletePageOfTriggers h perPage page = bnd (Client_GetAllTriggers h perPage page) (\<lambda>(triggers, err).
     if err \<noteq> None then ret err
     else delete_ignoring (\<lambda>t. Client_DeleteTrigger h (tr_TriggerID t)) triggers)"

section \<open>Deleting everything\<close>

definition pageSize :: int where "pageSize = 1000"
definition maxThreads :: int where "maxThreads = 10"

definition num_pages :: "int \<Rightarrow> int" where
  "num_pages cnt = - ((- cnt) div pageSize)"

text \<open>
  The pages of a batch: the loop over the threads breaks at the first page past the last one.
  The wait group counts ten pages whether they were started or not.
\<close>

definition batch :: "int \<Rightarrow> int \<Rightarrow> int list" where
  "batch numPages i = takeWhile (\<lambda>p. p \<le> numPages) (map (\<lambda>j. i + j) [0..maxThreads - 1])"

text \<open>The error of a page is overwritten by the next one and never returned.\<close>

primrec run_pages :: "(int \<Rightarrow> int \<Rightarrow> ('w, err) go) \<Rightarrow> int list \<Rightarrow> ('w, unit) go" where
  "run_pages deletePage [] = ret ()"
| "run_pages deletePage (p # ps) = bnd (deletePage pageSize p) (\<lambda>_. run_pages deletePage ps)"

definition run_batch :: "(int \<Rightarrow> int \<Rightarrow> ('w, err) go) \<Rightarrow> int \<Rightarrow> int \<Rightarrow> ('w, unit) go" where
  "run_batch deletePage numPages i = bnd (run_pages deletePage (batch numPages i)) (\<lambda>_.
     if int (length (batch numPages i)) < maxThreads then lift Hang else ret ())"

function run_batches :: "(int \<Rightarrow> int \<Rightarrow> ('w, err) go) \<Rightarrow> int \<Rightarrow> int \<Rightarrow> ('w, unit) go" where
  "run_batches deletePage numPages i =
     (if i < numPages then bnd (run_batch deletePage numPages i) (\<lambda>_.
        run_batches deletePage numPages (i + maxThreads)) else ret ())"
  by pat_completeness auto
termination
  by (relation "measure (\<lambda>(d, n, i). nat (n - i))") (simp_all add: maxThreads_def)

declare run_batches.simps [simp del]

definition deleteAllObjects ::
    "('w, int \<times> err) go \<Rightarrow> (int \<Rightarrow> int \<Rightarrow> ('w, err) go) \<Rightarrow> ('w, err) go" where
  "deleteAllObjects getNumObjects deletePage = bnd getNumObjects (\<lambda>(cnt, err).
     if err \<noteq> None then ret err
     else if cnt = 0 then ret None
     else bnd (run_batches deletePage (num_pages cnt) 0) (\<lambda>_. ret None))"

text \<open>
  \<open>makeClient\<close> and \<open>main\<close>: the four kinds of objects are deleted by four goroutines, here run in
  the order they are started. An error is \<open>log.Fatal\<close>, which ends the process.
\<close>

definition makeClient :: "string + string \<Rightarrow> (string \<Rightarrow> string + string) \<Rightarrow> (string \<Rightarrow> ('w, bool) go) \<Rightarrow>
    ('w, err) go \<Rightarrow> ('w, string + client) go" where
  "makeClient apiServer getApiKey probe info =
     (case apiServer of Inl e \<Rightarrow> ret (Inl e)
      | Inr server \<Rightarrow> (case getApiKey server of Inl e \<Rightarrow> ret (Inl e)
        | Inr apiKey \<Rightarrow> NewClient probe info ''https://pz-workflow.int.geointservices.io'' apiKey))"

definition tools_main :: "('w, string + client) go \<Rightarrow> (client \<Rightarrow> 'w transport) \<Rightarrow> ('w, err) go" where
  "tools_main client_made http = bnd client_made (\<lambda>r. case r of
     Inl e \<Rightarrow> ret (Some e)
   | Inr c \<Rightarrow> first_error
       [deleteAllObjects (Client_GetNumAlerts (http c)) (deletePageOfAlerts (http c)),
        deleteAllObjects (Client_GetNumTriggers (http c)) (deletePageOfTriggers (http c)),
        deleteAllObjects (Client_GetNumEvents (http c)) (deletePageOfEvents (http c)),
        deleteAllObjects (Client_GetNumEventTypes (http c)) (deletePageOfEventTypes (http c))])"

section \<open>When it ends\<close>

lemma batch_length:
  assumes "0 \<le> i" "i < numPages"
  shows "int (length (batch numPages i)) = min maxThreads (numPages - i + 1)"
proof -
  have "takeWhile (\<lambda>p. p \<le> numPages) (map (\<lambda>j. i + j) [0..9]) = map (\<lambda>j. i + j) [0..min 9 (numPages - i)]"
  proof (cases "9 \<le> numPages - i")
    case True
    then show ?thesis by (simp add: takeWhile_eq_all_conv)
  next
    case False
    have "[0..9] = [0..numPages - i] @ [numPages - i + 1..9]"
      using upto_split1 [of 0 "numPages - i + 1" 9] False assms by simp
    moreover have "[numPages - i + 1..9] = (numPages - i + 1) # [numPages - i + 1 + 1..9]"
      using False by (intro upto_rec1) simp
    ultimately have "map (\<lambda>j. i + j) [0..9] = map (\<lambda>j. i + j) [0..numPages - i] @
        (numPages + 1) # map (\<lambda>j. i + j) [numPages - i + 1 + 1..9]"
      by simp
    then show ?thesis using False by (subst \<open>map _ [0..9] = _\<close>, subst takeWhile_append2) auto
  qed
  then show ?thesis using assms by (simp add: batch_def maxThreads_def)
qed

lemma run_pages_Ret:
  assumes "\<And>p w. \<exists>r w'. deletePage pageSize p w = (Ret r, w')"
  shows "\<exists>w'. run_pages deletePage ps w = (Ret (), w')"
proof (induction ps arbitrary: w)
  case (Cons p ps)
  obtain r w' where "deletePage pageSize p w = (Ret r, w')" using assms by blast
  then show ?case using Cons.IH [of w'] by (simp add: bnd_def)
qed (simp add: ret_def)

text \<open>When every page returns, the batches end exactly if the last one is full.\<close>

lemma run_batches_result:
  assumes "\<And>p w. \<exists>r w'. deletePage pageSize p w = (Ret r, w')" "0 \<le> i"
  shows "fst (run_batches deletePage n i w) =
    (if n \<le> i \<or> (n - i) mod maxThreads \<in> {0, 9} then Ret () else Hang)"
  using assms(2)
proof (induction "nat (n - i)" arbitrary: i w rule: less_induct)
  case less
  show ?case
  proof (cases "i < n")
    case True
    obtain w' where w': "run_pages deletePage (batch n i) w = (Ret (), w')"
      using run_pages_Ret [of deletePage "batch n i" w, OF assms(1)] by blast
    have len: "int (length (batch n i)) = min 10 (n - i + 1)"
      using batch_length [OF less.prems True] by (simp add: maxThreads_def)
    show ?thesis
    proof (cases "9 \<le> n - i")
      case full: True
      have step: "fst (run_batches deletePage n (i + 10) w') =
          (if n \<le> i + 10 \<or> (n - (i + 10)) mod 10 \<in> {0, 9} then Ret () else Hang)"
        using less.hyps [of "i + 10" w'] less.prems True by (simp add: maxThreads_def)
      have "run_batch deletePage n i w = (Ret (), w')"
        using w' len full by (simp add: run_batch_def bnd_def ret_def maxThreads_def)
      then have "run_batches deletePage n i w = run_batches deletePage n (i + 10) w'"
        using True unfolding run_batches.simps [of deletePage n i] by (simp add: bnd_def maxThreads_def)
      moreover have "n \<le> i + 10 \<Longrightarrow> (n - i) mod 10 = 0 \<or> (n - i) mod 10 = 9" using full by presburger
      moreover have "(n - (i + 10)) mod 10 = (n - i) mod 10"
        using mod_add_self2 [of "n - (i + 10)" 10] by (simp add: algebra_simps)
      ultimately show ?thesis using step True by (auto simp: maxThreads_def)
    next
      case False
      then have "run_batch deletePage n i w = (Hang, w')"
        using w' len by (simp add: run_batch_def bnd_def lift_def maxThreads_def)
      then have "run_batches deletePage n i w = (Hang, w')"
        using True unfolding run_batches.simps [of deletePage n i] by (simp add: bnd_def)
      moreover have "(n - i) mod 10 = n - i" using False True by simp
      ultimately show ?thesis using False True by (simp add: maxThreads_def)
    qed
  qed (simp add: run_batches.simps [of deletePage n i] ret_def)
qed

lemma deleteAllObjects_result:
  assumes "getNumObjects w = (Ret (cnt, None), w1)" "0 \<le> cnt"
    "\<And>p w. \<exists>r w'. deletePage pageSize p w = (Ret r, w')"
  shows "fst (deleteAllObjects getNumObjects deletePage w) =
    (if cnt = 0 \<or> num_pages cnt mod maxThreads \<in> {0, 9} then Ret None else Hang)"
proof (cases "cnt = 0")
  case False
  have "\<not> num_pages cnt \<le> 0" using False assms(2) by (simp add: num_pages_def pageSize_def)
  moreover obtain r w2 where "run_batches deletePage (num_pages cnt) 0 w1 = (r, w2)" by fastforce
  moreover have "fst (run_batches deletePage (num_pages cnt) 0 w1) =
      (if num_pages cnt \<le> 0 \<or> (num_pages cnt - 0) mod maxThreads \<in> {0, 9} then Ret () else Hang)"
    by (rule run_batches_result, rule assms(3)) simp
  ultimately show ?thesis using assms(1) False
    by (auto simp: deleteAllObjects_def bnd_def ret_def split: if_splits)
qed (use assms(1) in \<open>simp add: deleteAllObjects_def bnd_def ret_def\<close>)

end
