(* ===== verification/CleanUps.thy ===== *)
theory CleanUps
  imports Tools
begin

text \<open>
  When the clean-up tool ends, over a transport that answers every request: the four kinds of
  objects, with the client method that counts them and the deletion of a page.
\<close>

definition answers :: "'w transport \<Rightarrow> bool" where
  "answers h \<longleftrightarrow> (\<forall>verb endpoint body w. \<exists>r w'. h verb endpoint body w = (Ret r, w'))"

text \<open>A call that returns in every state.\<close>

definition returns :: "('w, 'a) go \<Rightarrow> bool" where
  "returns m \<longleftrightarrow> (\<forall>w. \<exists>x w'. m w = (Ret x, w'))"

named_theorems returning \<open>calls that return\<close>

lemma returns_ret [returning]: "returns (ret x)"
  by (simp add: returns_def ret_def)

lemma returns_bnd [returning]:
  assumes "returns m" "\<And>x. returns (f x)"
  shows "returns (bnd m f)"
  unfolding returns_def
proof
  fix w
  obtain x w1 where "m w = (Ret x, w1)" using assms(1) unfolding returns_def by blast
  moreover obtain y w2 where "f x w1 = (Ret y, w2)" using assms(2) [of x] unfolding returns_def by blast
  ultimately show "\<exists>y w2. bnd m f w = (Ret y, w2)" by (simp add: bnd_def)
qed

lemma returns_transport: "answers h \<Longrightarrow> returns (h v e b)"
  by (simp add: answers_def returns_def)

lemma returns_getObject: "answers h \<Longrightarrow> returns (getObject h e dec out)"
  by (simp add: getObject_def returning returns_transport)

lemma returns_deleteObject: "answers h \<Longrightarrow> returns (deleteObject h e)"
  by (simp add: deleteObject_def returning returns_transport)

lemma returns_delete_each: "(\<And>x. returns (del x)) \<Longrightarrow> returns (delete_each del xs)"
  by (induction xs) (auto intro!: returning split: option.split)

lemma returns_delete_ignoring: "(\<And>x. returns (del x)) \<Longrightarrow> returns (delete_ignoring del xs)"
  by (induction xs) (auto intro!: returning)

lemma returns_if: "returns a \<Longrightarrow> returns b \<Longrightarrow> returns (if c then a else b)"
  by simp

lemma returns_prod: "(\<And>x y. returns (f x y)) \<Longrightarrow> returns (case p of (x, y) \<Rightarrow> f x y)"
  by (cases p) simp

lemmas page_defs = deletePageOfAlerts_def deletePageOfEvents_def deletePageOfEventTypes_def
  deletePageOfTriggers_def Client_GetAllAlerts_def Client_GetAllEvents_def Client_GetAllEventTypes_def
  Client_GetAllTriggers_def Client_DeleteAlert_def Client_DeleteEvent_def Client_DeleteEventType_def
  Client_DeleteTrigger_def

lemma returns_pages:
  assumes "answers h"
  shows "returns (deletePageOfAlerts h n p)" "returns (deletePageOfEvents h n p)"
    "returns (deletePageOfEventTypes h n p)" "returns (deletePageOfTriggers h n p)"
  using assms unfolding page_defs
  by (auto intro!: returning returns_prod returns_if returns_getObject returns_deleteObject
      returns_delete_each returns_delete_ignoring)

text \<open>The kinds of objects, as the tool pairs them.\<close>

definition kinds :: "'w transport \<Rightarrow> (('w, int \<times> err) go \<times> (int \<Rightarrow> int \<Rightarrow> ('w, err) go)) list" where
  "kinds h = [(Client_GetNumAlerts h, deletePageOfAlerts h), (Client_GetNumTriggers h, deletePageOfTriggers h),
     (Client_GetNumEvents h, deletePageOfEvents h), (Client_GetNumEventTypes h, deletePageOfEventTypes h)]"

lemma returns_kinds: "answers h \<Longrightarrow> (num, page) \<in> set (kinds h) \<Longrightarrow> returns (page n p)"
  by (auto simp: kinds_def returns_pages)

lemma clean_up_result:
  assumes "answers h" "(num, page) \<in> set (kinds h)" "num w = (Ret (cnt, None), w1)" "0 \<le> cnt"
  shows "fst (deleteAllObjects num page w) =
    (if cnt = 0 \<or> num_pages cnt mod maxThreads \<in> {0, 9} then Ret None else Hang)"
  by (rule deleteAllObjects_result, rule assms(3), rule assms(4))
     (use returns_kinds [OF assms(1,2)] in \<open>auto simp: returns_def\<close>)

lemma few_objects_hang:
  assumes "answers h" "(num, page) \<in> set (kinds h)" "num w = (Ret (cnt, None), w1)" "0 < cnt" "cnt \<le> 8000"
  shows "fst (deleteAllObjects num page w) = Hang"
proof -
  have "1 \<le> num_pages cnt" "num_pages cnt \<le> 8" using assms(4,5) by (simp_all add: num_pages_def pageSize_def)
  then have "num_pages cnt mod maxThreads \<notin> {0, 9}" by (simp add: maxThreads_def)
  with clean_up_result [OF assms(1-3)] assms(4) show ?thesis by simp
qed

text \<open>So with at most 8000 alerts the tool never gets past them.\<close>

lemma tools_main_hangs:
  assumes "made w = (Ret (Inr c), w1)" "answers (http c)" "Client_GetNumAlerts (http c) w1 = (Ret (cnt, None), w2)"
    "0 < cnt" "cnt \<le> 8000"
  shows "fst (tools_main made http w) = Hang"
proof -
  have "(Client_GetNumAlerts (http c), deletePageOfAlerts (http c)) \<in> set (kinds (http c))"
    by (simp add: kinds_def)
  from few_objects_hang [OF assms(2) this assms(3-5)] show ?thesis
    by (cases "deleteAllObjects (Client_GetNumAlerts (http c)) (deletePageOfAlerts (http c)) w1")
       (simp add: tools_main_def bnd_def assms(1))
qed

end
