(* ===== verification/CronNext.thy ===== *)
theory CronNext
  imports CronRun
begin

text \<open>
  What the scheduler relies on: the calendar's two conversions are inverse, and \<open>Next\<close> of a
  cron specification always returns a later time, which matches every field of the
  specification or is the zero time.
\<close>

section \<open>Years and months\<close>

text \<open>
  Days are counted from the first of March, in cycles of 400 years: where a year of the cycle
  and a month of a year begin.
\<close>

definition year_start :: "int \<Rightarrow> int" where
  "year_start y = 365 * y + y div 4 - y div 100 + y div 400"

definition month_start :: "int \<Rightarrow> int" where
  "month_start mp = (153 * mp + 2) div 5"

definition year_index :: "int \<Rightarrow> int" where
  "year_index doe = doe - doe div 1460 + doe div 36524 - doe div 146096"

lemma div_Suc: "0 < k \<Longrightarrow> ((n::int) + 1) div k = n div k + (if k dvd n + 1 then 1 else 0)"
proof -
  assume k: "0 < k"
  have "n + 1 = k * (n div k) + (n mod k + 1)" by simp
  moreover have "0 \<le> n mod k" "n mod k < k" using k by simp_all
  ultimately show ?thesis
  proof (cases "n mod k + 1 = k")
    case True
    then have "n + 1 = k * (n div k + 1)" using \<open>n + 1 = _\<close> by (simp add: algebra_simps)
    then show ?thesis using k by simp
  next
    case False
    then have r: "0 \<le> n mod k + 1" "n mod k + 1 < k"
      using \<open>0 \<le> n mod k\<close> \<open>n mod k < k\<close> by simp_all
    have m: "(n + 1) div k = n div k" by (rule int_div_pos_eq [OF \<open>n + 1 = _\<close> r])
    have "(n + 1) mod k = n mod k + 1" by (rule int_mod_pos_eq [OF \<open>n + 1 = _\<close> r])
    then have "\<not> k dvd n + 1" using \<open>0 \<le> n mod k\<close> by (simp add: dvd_eq_mod_eq_0)
    with m show ?thesis by simp
  qed
qed

lemma year_index_step: "year_index n \<le> year_index (n + 1)"
proof -
  have "(146096::int) dvd n + 1 \<Longrightarrow> 36524 dvd n + 1"
    by (rule dvd_trans [of "36524::int" 146096]) simp_all
  then show ?thesis by (auto simp: year_index_def div_Suc)
qed

lemma year_index_mono: "m \<le> n \<Longrightarrow> year_index m \<le> year_index n"
proof (induction "nat (n - m)" arbitrary: n)
  case (Suc k)
  then have "year_index m \<le> year_index (n - 1)" by (intro Suc.hyps(1)) simp_all
  with year_index_step [of "n - 1"] show ?case by simp
qed simp

lemma year_index_table:
  "list_all (\<lambda>y. year_index (year_start y) div 365 = y \<and> year_index (year_start (y + 1) - 1) div 365 = y \<and>
     year_start y + 365 \<le> year_start (y + 1) \<and> year_start (y + 1) \<le> year_start y + 366) [0..399]"
  by code_simp

lemma year_index_ends:
  assumes "0 \<le> y" "y \<le> 399"
  shows "year_index (year_start y) div 365 = y" "year_index (year_start (y + 1) - 1) div 365 = y"
    "year_start y + 365 \<le> year_start (y + 1)" "year_start (y + 1) \<le> year_start y + 366"
  using year_index_table assms by (auto simp: list_all_iff)

lemma year_index_in:
  assumes "0 \<le> y" "y \<le> 399" "year_start y \<le> d" "d < year_start (y + 1)"
  shows "year_index d div 365 = y"
proof -
  have "year_index (year_start y) div 365 \<le> year_index d div 365"
    "year_index d div 365 \<le> year_index (year_start (y + 1) - 1) div 365"
    using assms(3,4) by (auto intro!: zdiv_mono1 year_index_mono)
  with year_index_ends [OF assms(1,2)] show ?thesis by simp
qed

lemma year_index_of:
  assumes "0 \<le> d" "d < 146097"
  defines "y \<equiv> year_index d div 365"
  shows "0 \<le> y" "y \<le> 399" "year_start y \<le> d" "d < year_start (y + 1)"
proof -
  have "year_index 0 \<le> year_index d" "year_index d \<le> year_index 146096"
    using assms(1,2) by (auto intro: year_index_mono)
  then have i: "0 \<le> year_index d" "year_index d \<le> 145999" by (simp_all add: year_index_def)
  have "145999 div 365 = (399::int)" by simp
  with i zdiv_mono1 [OF i(2), of 365] show y: "0 \<le> y" "y \<le> 399" by (simp_all add: y_def pos_imp_zdiv_nonneg_iff)
  show "year_start y \<le> d"
  proof (rule ccontr)
    assume less: "\<not> year_start y \<le> d"
    then have pos: "1 \<le> y" using y(1) assms(1) by (cases "y = 0") (simp_all add: year_start_def)
    have "year_index d \<le> year_index (year_start (y - 1 + 1) - 1)" using less by (intro year_index_mono) simp
    from zdiv_mono1 [OF this, of 365] year_index_ends(2) [of "y - 1"] pos y(2) show False by (simp add: y_def)
  qed
  show "d < year_start (y + 1)"
  proof (rule ccontr)
    assume ge: "\<not> d < year_start (y + 1)"
    then have le: "y + 1 \<le> 399" using y(2) assms(2) by (cases "y = 399") (simp_all add: year_start_def)
    have "year_index (year_start (y + 1)) \<le> year_index d" using ge by (intro year_index_mono) simp
    from zdiv_mono1 [OF this, of 365] year_index_ends(1) [of "y + 1"] le y(1) show False by (simp add: y_def)
  qed
qed

lemma month_table:
  "list_all (\<lambda>doy. let mp = (5 * doy + 2) div 153 in
     0 \<le> mp \<and> mp \<le> 11 \<and> month_start mp \<le> doy \<and> (mp = 11 \<or> doy < month_start (mp + 1)) \<and> doy - month_start mp \<le> 30) [0..365]"
  by code_simp

lemma month_of_start: "0 \<le> mp \<Longrightarrow> mp \<le> 11 \<Longrightarrow> (5 * month_start mp + 2) div 153 = mp"
proof -
  have "list_all (\<lambda>mp. (5 * month_start mp + 2) div 153 = mp) [0..11]" by code_simp
  then show "0 \<le> mp \<Longrightarrow> mp \<le> 11 \<Longrightarrow> ?thesis" by (auto simp: list_all_iff)
qed

lemma month_of_day:
  assumes "0 \<le> doy" "doy \<le> 365"
  defines "mp \<equiv> (5 * doy + 2) div 153"
  shows "0 \<le> mp" "mp \<le> 11" "month_start mp \<le> doy" "mp \<noteq> 11 \<Longrightarrow> doy < month_start (mp + 1)"
    "doy - month_start mp \<le> 30"
  using month_table assms by (auto simp: list_all_iff Let_def)

section \<open>The two conversions\<close>

text \<open>A day as cycle, year of the cycle, month counted from March, and day of that month.\<close>

definition shown :: "int \<Rightarrow> int \<Rightarrow> int \<Rightarrow> int \<Rightarrow> int \<times> int \<times> int" where
  "shown era y mp d = (let m = (if mp < 10 then mp + 3 else mp - 9)
     in (y + era * 400 + (if m \<le> 2 then 1 else 0), m, d))"

definition day_number :: "int \<Rightarrow> int \<Rightarrow> int \<Rightarrow> int \<Rightarrow> int" where
  "day_number era y mp d = era * 146097 + year_start y + month_start mp + (d - 1) - 719468"

definition in_calendar :: "int \<Rightarrow> int \<Rightarrow> int \<Rightarrow> bool" where
  "in_calendar y mp d \<longleftrightarrow> 0 \<le> y \<and> y \<le> 399 \<and> 0 \<le> mp \<and> mp \<le> 11 \<and> 1 \<le> d \<and> d \<le> 31 \<and>
     (mp \<noteq> 11 \<longrightarrow> month_start mp + (d - 1) < month_start (mp + 1)) \<and>
     year_start y + month_start mp + (d - 1) < year_start (y + 1)"

lemma civil_shown:
  obtains era y mp d where "in_calendar y mp d" "n = day_number era y mp d" "civil_from_days n = shown era y mp d"
proof -
  let ?z = "n + 719468"
  define doe where "doe = ?z mod 146097"
  define y where "y = year_index doe div 365"
  define doy where "doy = doe - year_start y"
  define mp where "mp = (5 * doy + 2) div 153"
  have doe: "0 \<le> doe" "doe < 146097" by (simp_all add: doe_def)
  note y = year_index_of [OF doe, folded y_def]
  have doy: "0 \<le> doy" "doy \<le> 365" using y year_index_ends(4) [of y] by (simp_all add: doy_def)
  note mp = month_of_day [OF doy, folded mp_def]
  have "y div 400 = 0" using y by simp
  then have yoe: "365 * y + y div 4 - y div 100 = year_start y" by (simp add: year_start_def)
  have cal: "in_calendar y mp (doy - month_start mp + 1)"
    using y mp doy by (auto simp: in_calendar_def doy_def)
  have yoe_eq: "(doe - doe div 1460 + doe div 36524 - doe div 146096) div 365 = y"
    by (simp add: y_def year_index_def)
  have doy_eq: "doe - (365 * y + y div 4 - y div 100) = doy" by (simp only: doy_def yoe)
  have "?z = ?z div 146097 * 146097 + doe" by (simp add: doe_def)
  then have "n = day_number (?z div 146097) y mp (doy - month_start mp + 1)"
    by (simp add: day_number_def doy_def)
  moreover have "civil_from_days n = shown (?z div 146097) y mp (doy - month_start mp + 1)"
    unfolding civil_from_days_def Let_def doe_def [symmetric] yoe_eq doy_eq mp_def [symmetric]
      month_start_def [symmetric] shown_def by (rule refl)
  ultimately show thesis by (rule that [OF cal])
qed

lemma month_start_mono: "a \<le> b \<Longrightarrow> month_start a \<le> month_start b"
  by (simp add: month_start_def zdiv_mono1)

lemma month_lengths:
  "list_all (\<lambda>mp. month_start mp + 30 \<le> month_start (mp + 1) \<and> month_start (mp + 1) \<le> month_start mp + 31) [0..10]"
  by code_simp

lemma month_length:
  "0 \<le> mp \<Longrightarrow> mp \<noteq> 11 \<Longrightarrow> mp \<le> 11 \<Longrightarrow> month_start mp + 30 \<le> month_start (mp + 1) \<and> month_start (mp + 1) \<le> month_start mp + 31"
  using month_lengths by (auto simp: list_all_iff)

lemma month_start_ends [simp]: "month_start 0 = 0" "month_start 11 = 337"
  by (simp_all add: month_start_def)

lemma month_start_bounds: "0 \<le> mp \<Longrightarrow> mp \<le> 11 \<Longrightarrow> 0 \<le> month_start mp \<and> month_start mp \<le> 337"
  using month_start_mono [of 0 mp] month_start_mono [of mp 11] by simp

lemma month_index_in:
  assumes "0 \<le> mp" "mp \<le> 11" "month_start mp \<le> doy" "mp \<noteq> 11 \<Longrightarrow> doy < month_start (mp + 1)" "doy \<le> 365"
  shows "(5 * doy + 2) div 153 = mp"
proof -
  have "0 \<le> doy" using assms(3) month_start_bounds [OF assms(1,2)] by simp
  note m = month_of_day [OF this assms(5)]
  let ?mp = "(5 * doy + 2) div 153"
  have "\<not> ?mp < mp"
  proof
    assume "?mp < mp"
    with m assms(2) month_start_mono [of "?mp + 1" mp] assms(3) show False by simp
  qed
  moreover have "\<not> mp < ?mp"
  proof
    assume "mp < ?mp"
    with m assms(2,4) month_start_mono [of "mp + 1" ?mp] show False by simp
  qed
  ultimately show ?thesis by simp
qed

lemma civil_day_number:
  assumes c: "in_calendar y mp d"
  shows "civil_from_days (day_number era y mp d) = shown era y mp d"
proof -
  define doy where "doy = month_start mp + (d - 1)"
  let ?doe = "year_start y + doy"
  have y: "0 \<le> y" "y \<le> 399" and mp: "0 \<le> mp" "mp \<le> 11" using c by (simp_all add: in_calendar_def)
  have doy: "0 \<le> doy" "?doe < year_start (y + 1)"
    using c month_start_bounds [OF mp] by (auto simp: in_calendar_def doy_def)
  have start: "0 \<le> year_start y" "year_start (y + 1) \<le> 146097"
    using y zdiv_mono1 [of "y + 1" 400 100] zdiv_mono1 [of "y + 1" 400 4]
    by (auto simp: year_start_def)
  have z: "(day_number era y mp d + 719468) mod 146097 = ?doe" "(day_number era y mp d + 719468) div 146097 = era"
  proof -
    have e: "day_number era y mp d + 719468 = 146097 * era + ?doe" by (simp add: day_number_def doy_def)
    have r: "0 \<le> ?doe" "?doe < 146097" using doy start by simp_all
    show "(day_number era y mp d + 719468) mod 146097 = ?doe" by (rule int_mod_pos_eq [OF e r])
    show "(day_number era y mp d + 719468) div 146097 = era" by (rule int_div_pos_eq [OF e r])
  qed
  have yoe: "(?doe - ?doe div 1460 + ?doe div 36524 - ?doe div 146096) div 365 = y"
    using year_index_in [OF y, of ?doe] doy by (simp add: year_index_def)
  have "y div 400 = 0" using y by simp
  then have doy_eq: "?doe - (365 * y + y div 4 - y div 100) = doy" by (simp add: year_start_def)
  have "doy \<le> 365" using doy year_index_ends(4) [OF y] by simp
  then have mp_eq: "(5 * doy + 2) div 153 = mp"
    using c mp by (intro month_index_in) (auto simp: in_calendar_def doy_def)
  have d: "doy - month_start mp + 1 = d" by (simp add: doy_def)
  show ?thesis
    unfolding civil_from_days_def Let_def z yoe doy_eq mp_eq month_start_def [symmetric] d shown_def
    by (rule refl)
qed

lemma days_from_civil_eq:
  "days_from_civil y0 m0 d =
    (let y1 = y0 + (m0 - 1) div 12; m = (m0 - 1) mod 12 + 1; y = (if m \<le> 2 then y1 - 1 else y1)
     in day_number (y div 400) (y mod 400) (if m > 2 then m - 3 else m + 9) d)"
  by (simp add: days_from_civil_def day_number_def year_start_def month_start_def Let_def)

lemma shown_sel:
  assumes "0 \<le> y" "y \<le> 399" "0 \<le> mp" "mp \<le> 11" "shown era y mp d = (yy, m, d')"
  shows "d' = d" "1 \<le> m" "m \<le> 12" "m = (if mp < 10 then mp + 3 else mp - 9)"
    "yy = y + era * 400 + (if mp < 10 then 0 else 1)"
  using assms by (auto simp: shown_def Let_def split: if_splits)

lemma days_from_shown:
  assumes "0 \<le> y" "y \<le> 399" "0 \<le> mp" "mp \<le> 11" "shown era y mp d = (yy, m, d')"
  shows "days_from_civil yy m e = day_number era y mp e"
proof -
  note s = shown_sel [OF assms]
  have "(m - 1) div 12 = 0" "(m - 1) mod 12 = m - 1" using s(2,3) by simp_all
  moreover have "(y + era * 400) div 400 = era" "(y + era * 400) mod 400 = y" using assms(1,2) by simp_all
  ultimately show ?thesis using s assms(3,4) by (auto simp: days_from_civil_eq Let_def)
qed

text \<open>The month after a month.\<close>

definition next_month :: "int \<Rightarrow> int \<Rightarrow> int \<Rightarrow> int \<times> int \<times> int" where
  "next_month era y mp = (if mp < 11 then (era, y, mp + 1) else if y < 399 then (era, y + 1, 0) else (era + 1, 0, 0))"

lemma days_from_next_month:
  assumes "0 \<le> y" "y \<le> 399" "0 \<le> mp" "mp \<le> 11" "shown era y mp d = (yy, m, d')"
    "next_month era y mp = (era1, y1, mp1)"
  shows "days_from_civil yy (m + 1) e = day_number era1 y1 mp1 e"
proof -
  note s = shown_sel [OF assms(1-5)]
  consider "mp < 9" | "mp = 9" | "mp = 10" | "mp = 11" "y < 399" | "mp = 11" "y = 399" using assms(2,4) by linarith
  then show ?thesis
  proof cases
    case 1
    then have "m div 12 = 0" "m mod 12 = m" using s(2-4) by simp_all
    with 1 show ?thesis using s assms(1-4,6) by (auto simp: days_from_civil_eq Let_def next_month_def add.commute)
  next
    case 4
    have "y + era * 400 + 1 = 400 * era + (y + 1)" by simp
    then have "(y + era * 400 + 1) div 400 = era" "(y + era * 400 + 1) mod 400 = y + 1"
      using 4 assms(1) by (auto intro: int_div_pos_eq int_mod_pos_eq)
    with 4 show ?thesis using s assms(1-4,6) by (auto simp: days_from_civil_eq Let_def next_month_def)
  qed (use s assms(1-4,6) in \<open>auto simp: days_from_civil_eq Let_def next_month_def add.commute\<close>)
qed

lemma next_month_in:
  assumes "0 \<le> y" "y \<le> 399" "0 \<le> mp" "mp \<le> 11" "next_month era y mp = (era1, y1, mp1)"
  shows "in_calendar y1 mp1 1"
proof -
  have first: "in_calendar y mp 1" if "0 \<le> y" "y \<le> 399" "0 \<le> mp" "mp \<le> 11" for y mp
    using that month_start_bounds [OF that(3,4)] year_index_ends(3) [OF that(1,2)] month_length [OF that(3) _ that(4)]
    by (auto simp: in_calendar_def)
  from assms show ?thesis by (intro first) (auto simp: next_month_def split: if_splits)
qed

text \<open>The day after a day: in the same month, or the first of the next one.\<close>

lemma year_start_400: "year_start 400 = 146097" "year_start 0 = 0" "year_start (399 + 1) = 146097"
  by (simp_all add: year_start_def)

lemma in_calendar_end:
  assumes "in_calendar y mp d" "next_month era y mp = (era1, y1, mp1)"
  shows "day_number era y mp d < day_number era1 y1 mp1 1"
    "\<not> in_calendar y mp (d + 1) \<Longrightarrow> day_number era y mp d + 1 = day_number era1 y1 mp1 1"
proof -
  have r: "0 \<le> y" "y \<le> 399" "0 \<le> mp" "mp \<le> 11" using assms(1) by (simp_all add: in_calendar_def)
  note l = month_length [OF r(3) _ r(4)] month_start_bounds [OF r(3,4)] year_index_ends(3,4) [OF r(1,2)]
  show "day_number era y mp d < day_number era1 y1 mp1 1"
    using assms l r year_start_400 by (auto simp: in_calendar_def next_month_def day_number_def split: if_splits)
  show "day_number era y mp d + 1 = day_number era1 y1 mp1 1" if "\<not> in_calendar y mp (d + 1)"
  proof (cases "mp = 11")
    case True
    then have "year_start y + 337 + d = year_start (y + 1)"
      using assms(1) that l by (auto simp: in_calendar_def)
    with True assms(2) r year_start_400 show ?thesis
      by (auto simp: next_month_def day_number_def split: if_splits)
  next
    case False
    then have lt: "mp < 11" using r by simp
    have m1: "month_start (mp + 1) \<le> 337" using month_start_bounds [of "mp + 1"] lt r by simp
    have "month_start mp + d = month_start (mp + 1)"
    proof -
      have "month_start mp + d \<le> month_start (mp + 1)" using assms(1) False by (simp add: in_calendar_def)
      moreover have "year_start y + month_start mp + d < year_start (y + 1)"
        using calculation m1 l(3) by simp
      ultimately show ?thesis using that assms(1) r False l(1) by (auto simp: in_calendar_def)
    qed
    with lt assms(2) show ?thesis by (simp add: next_month_def day_number_def)
  qed
qed

lemma next_day:
  assumes "civil_from_days n = (y, m, d)" "civil_from_days (n + 1) = (y', m', d')"
  shows "d' = 1 \<or> (y' = y \<and> m' = m)"
proof -
  obtain era u mp e where c: "in_calendar u mp e" "n = day_number era u mp e" "civil_from_days n = shown era u mp e"
    by (rule civil_shown)
  have r: "0 \<le> u" "u \<le> 399" "0 \<le> mp" "mp \<le> 11" using c(1) by (simp_all add: in_calendar_def)
  have succ: "day_number era u mp e + 1 = day_number era u mp (e + 1)" by (simp add: day_number_def)
  show ?thesis
  proof (cases "in_calendar u mp (e + 1)")
    case True
    with succ c(2) have "civil_from_days (n + 1) = shown era u mp (e + 1)" by (simp add: civil_day_number)
    with assms c(3) show ?thesis by (auto simp: shown_def Let_def)
  next
    case False
    obtain era1 y1 mp1 where nx: "next_month era u mp = (era1, y1, mp1)" by (metis prod_cases3)
    with in_calendar_end(2) [OF c(1) nx False] c(2) next_month_in [OF r nx]
    have "civil_from_days (n + 1) = shown era1 y1 mp1 1" by (simp add: civil_day_number)
    with assms(2) show ?thesis by (auto simp: shown_def Let_def)
  qed
qed

text \<open>The first of the next month.\<close>

lemma days_from_civil_inverse:
  assumes "civil_from_days n = (y, m, d)"
  shows "days_from_civil y m d = n" "days_from_civil y m (d + e) = n + e" "1 \<le> m" "m \<le> 12" "1 \<le> d" "d \<le> 31"
proof -
  obtain era u mp e where c: "in_calendar u mp e" "n = day_number era u mp e" "civil_from_days n = shown era u mp e"
    by (rule civil_shown)
  have r: "0 \<le> u" "u \<le> 399" "0 \<le> mp" "mp \<le> 11" using c(1) by (simp_all add: in_calendar_def)
  have sh: "shown era u mp e = (y, m, d)" using c(3) assms by simp
  note s = shown_sel [OF r sh]
  show "1 \<le> m" "m \<le> 12" "1 \<le> d" "d \<le> 31" using s c(1) by (simp_all add: in_calendar_def)
  show "days_from_civil y m d = n" using days_from_shown [OF r sh, of d] s(1) c(2) by simp
  show "days_from_civil y m (d + e) = n + e" for e
    using days_from_shown [OF r sh, of "d + e"] s(1) c(2) by (simp add: day_number_def)
qed

lemma first_of_next_month:
  assumes "civil_from_days n = (y, m, d)"
  shows "n < days_from_civil y (m + 1) 1"
    "\<exists>y' m'. civil_from_days (days_from_civil y (m + 1) 1) = (y', m', 1) \<and> (m' = 1 \<or> y' = y)"
    "civil_from_days (days_from_civil y m 1) = (y, m, 1)"
proof -
  obtain era u mp e where c: "in_calendar u mp e" "n = day_number era u mp e" "civil_from_days n = shown era u mp e"
    by (rule civil_shown)
  have r: "0 \<le> u" "u \<le> 399" "0 \<le> mp" "mp \<le> 11" using c(1) by (simp_all add: in_calendar_def)
  have sh: "shown era u mp e = (y, m, d)" using c(3) assms by simp
  obtain era1 y1 mp1 where nx: "next_month era u mp = (era1, y1, mp1)" by (metis prod_cases3)
  note dn = days_from_next_month [OF r sh nx, of 1]
  show "n < days_from_civil y (m + 1) 1" using in_calendar_end(1) [OF c(1) nx] c(2) dn by simp
  have "civil_from_days (days_from_civil y (m + 1) 1) = shown era1 y1 mp1 1"
    using civil_day_number [OF next_month_in [OF r nx]] dn by simp
  moreover have "shown era1 y1 mp1 1 = (y', m', d') \<Longrightarrow> d' = 1 \<and> (m' = 1 \<or> y' = y)" for y' m' d'
    using sh nx r by (auto simp: shown_def next_month_def Let_def split: if_splits)
  ultimately show "\<exists>y' m'. civil_from_days (days_from_civil y (m + 1) 1) = (y', m', 1) \<and> (m' = 1 \<or> y' = y)"
    by (metis prod_cases3)
  have "in_calendar u mp 1" using c(1) by (auto simp: in_calendar_def)
  from civil_day_number [OF this] days_from_shown [OF r sh, of 1]
  have "civil_from_days (days_from_civil y m 1) = shown era u mp 1" by simp
  also have "\<dots> = (y, m, 1)" using sh by (auto simp: shown_def Let_def)
  finally show "civil_from_days (days_from_civil y m 1) = (y, m, 1)" .
qed

lemma year_bound: "civil_from_days n = (y, m, d) \<Longrightarrow> n + 719468 < 146097 * (y div 400 + 1)"
proof -
  assume a: "civil_from_days n = (y, m, d)"
  obtain era u mp e where c: "in_calendar u mp e" "n = day_number era u mp e" "civil_from_days n = shown era u mp e"
    by (rule civil_shown)
  have r: "0 \<le> u" "u \<le> 399" "0 \<le> mp" "mp \<le> 11" using c(1) by (simp_all add: in_calendar_def)
  have sh: "shown era u mp e = (y, m, d)" using c(3) a by simp
  have y: "era * 400 \<le> y" using shown_sel(5) [OF r sh] r(1) by auto
  then have era: "era \<le> y div 400" by simp
  have "year_start (u + 1) \<le> 146097"
    using r(1,2) zdiv_mono1 [of "u + 1" 400 100] zdiv_mono1 [of "u + 1" 400 4] by (auto simp: year_start_def)
  then have "n + 719468 < 146097 * (era + 1)" using c(1,2) by (simp add: in_calendar_def day_number_def)
  with era show ?thesis by simp
qed

section \<open>The clock\<close>

abbreviation local_day :: "int \<Rightarrow> int \<Rightarrow> int" where
  "local_day zone t \<equiv> local_nanos zone t div nanos_per_day"

lemma nps_pos [simp]: "0 < nanos_per_second" "0 \<le> nanos_per_second" "nanos_per_second \<noteq> 0"
  by (simp_all add: nanos_per_second_def)

lemma local_nanos_diff: "local_nanos zone t' - local_nanos zone t = t' - t"
  by (simp add: local_nanos_def)

lemma later_day:
  assumes "local_day zone t < local_day zone t'"
  shows "t < t'"
proof (rule ccontr)
  assume "\<not> t < t'"
  then have "local_nanos zone t' \<le> local_nanos zone t" using local_nanos_diff [of zone t' t] by simp
  then have "local_day zone t' \<le> local_day zone t" by (rule zdiv_mono1) simp
  with assms show False by simp
qed

text \<open>A step of at most one unit that does not end in the first unit stays in the same period.\<close>

lemma same_period:
  assumes "0 < u" "0 < k" "a < b" "b \<le> a + u" "b mod (k * u) div u \<noteq> (0::int)"
  shows "a div (k * u) = b div (k * u)"
proof -
  have "0 < k * u" using assms(1,2) by simp
  then have m: "0 \<le> b mod (k * u)" "b mod (k * u) < k * u" by simp_all
  then have "u \<le> b mod (k * u)" using assms(1,5) by (metis div_pos_pos_trivial not_le)
  then have "0 \<le> b mod (k * u) - (b - a)" "b mod (k * u) - (b - a) < k * u" using assms(3,4) m by simp_all
  moreover have "a = k * u * (b div (k * u)) + (b mod (k * u) - (b - a))"
    using mult_div_mod_eq [of "k * u" b] by linarith
  ultimately show ?thesis by (intro int_div_pos_eq)
qed

lemma div_mod_unit:
  assumes "0 < u" "0 < k"
  shows "a mod (k * u) div u = a div u mod (k::int)"
proof -
  have "a mod (u * k) = u * (a div u mod k) + a mod u" using assms by (intro zmod_zmult2_eq) simp
  then have "a mod (u * k) div u = a div u mod k" using assms by simp
  then show ?thesis by (simp add: mult.commute)
qed

lemma t_Hour_eq: "t_Hour zone t = local_nanos zone t div (3600 * nanos_per_second) mod 24"
  using div_mod_unit [of "3600 * nanos_per_second" 24 "local_nanos zone t"] by (simp add: t_Hour_def)

lemma t_Minute_eq: "t_Minute zone t = local_nanos zone t div (60 * nanos_per_second) mod 60"
  using div_mod_unit [of "60 * nanos_per_second" 60 "local_nanos zone t"] by (simp add: t_Minute_def)

lemma day_of_hour: "local_day zone t = local_nanos zone t div (3600 * nanos_per_second) div 24"
  by (simp add: nanos_per_second_def flip: zdiv_zmult2_eq)

lemma hour_of_minute:
  "local_nanos zone t div (3600 * nanos_per_second) = local_nanos zone t div (60 * nanos_per_second) div 60"
  by (simp add: nanos_per_second_def flip: zdiv_zmult2_eq)

text \<open>The fields that depend on the day alone.\<close>

lemma same_day:
  assumes "local_day zone t' = local_day zone t"
  shows "t_Date zone t' = t_Date zone t" "t_Year zone t' = t_Year zone t" "t_Month zone t' = t_Month zone t"
    "t_Day zone t' = t_Day zone t" "t_Weekday zone t' = t_Weekday zone t"
  using assms by (simp_all add: t_Date_def t_Year_def t_Month_def t_Day_def t_Weekday_def)

lemma near_day:
  assumes "t \<le> t'" "t' \<le> t + nanos_per_day"
  shows "local_day zone t' = local_day zone t \<or> local_day zone t' = local_day zone t + 1"
proof -
  have "local_nanos zone t' = local_nanos zone t + (t' - t)" using local_nanos_diff [of zone t' t] by simp
  moreover have p: "0 < nanos_per_day" by simp
  ultimately have "local_day zone t \<le> local_day zone t'" "local_day zone t' \<le> (local_nanos zone t + nanos_per_day) div nanos_per_day"
    using assms by (auto intro: zdiv_mono1)
  moreover have "(local_nanos zone t + nanos_per_day) div nanos_per_day = local_day zone t + 1"
    by (rule div_add_self2) simp
  ultimately show ?thesis by linarith
qed

lemma day_after:
  assumes "t \<le> t'" "t' \<le> t + nanos_per_day"
  shows "t_Day zone t' = 1 \<or> (t_Year zone t' = t_Year zone t \<and> t_Month zone t' = t_Month zone t)"
  using near_day [OF assms, of zone]
proof
  assume n: "local_day zone t' = local_day zone t + 1"
  obtain y m d y' m' d' where "t_Date zone t = (y, m, d)" "t_Date zone t' = (y', m', d')" by (metis prod_cases3)
  with next_day [of "local_day zone t"] n show ?thesis by (auto simp: t_Date_def t_Day_def t_Year_def t_Month_def)
qed (use same_day [of zone t' t] in simp)

section \<open>One step of the search\<close>

text \<open>The start of a local day.\<close>

lemma local_day_midnight:
  "local_day zone (midnight_of zone y m d) = days_from_civil y m d"
  "local_nanos zone (midnight_of zone y m d) mod nanos_per_day = 0"
  by (simp_all add: midnight_of_def local_nanos_def)

lemma local_split: "local_nanos zone t = local_day zone t * nanos_per_day + local_nanos zone t mod nanos_per_day"
  by (rule div_mult_mod_eq [symmetric])

lemma AddDate_month:
  assumes "t_Date zone t = (y, m, 1)"
  defines "t' \<equiv> AddDate zone 0 1 0 t"
  shows "local_day zone t' = days_from_civil y (m + 1) 1" "t < t'"
    "local_nanos zone t' mod nanos_per_day = local_nanos zone t mod nanos_per_day"
proof -
  let ?r = "local_nanos zone t mod nanos_per_day"
  have r: "0 \<le> ?r" "?r < nanos_per_day" by simp_all
  have "t' = midnight_of zone y (m + 1) 1 + ?r" using assms by (simp add: AddDate_def)
  then have l: "local_nanos zone t' = nanos_per_day * days_from_civil y (m + 1) 1 + ?r"
    by (simp add: midnight_of_def local_nanos_def)
  show d: "local_day zone t' = days_from_civil y (m + 1) 1" by (rule int_div_pos_eq [OF l r])
  show m: "local_nanos zone t' mod nanos_per_day = ?r" by (rule int_mod_pos_eq [OF l r])
  have "local_day zone t < local_day zone t'"
    using first_of_next_month(1) [of "local_day zone t" y m 1] assms(1) d by (simp add: t_Date_def)
  then show "t < t'" by (rule later_day)
qed

lemma AddDate_day: "AddDate zone 0 0 1 t = t + nanos_per_day"
proof -
  obtain y m d where ymd: "t_Date zone t = (y, m, d)" by (metis prod_cases3)
  with days_from_civil_inverse(2) [of "local_day zone t" y m d 1]
  have "days_from_civil y m (d + 1) = local_day zone t + 1" by (simp add: t_Date_def)
  with ymd have "AddDate zone 0 0 1 t = (local_day zone t + 1) * nanos_per_day - zone * nanos_per_second +
      local_nanos zone t mod nanos_per_day" by (simp add: AddDate_def midnight_of_def)
  with local_split [of zone t] show ?thesis by (simp add: local_nanos_def algebra_simps)
qed

lemma Truncate_next: "0 < u \<Longrightarrow> t < Truncate u t + u \<and> Truncate u t + u \<le> t + u"
  by (simp add: Truncate_def)

definition stepped :: "int \<Rightarrow> stage \<Rightarrow> bool \<Rightarrow> int \<Rightarrow> int" where
  "stepped zone st added t = advance zone st (if added then t else reset_to zone st t)"

definition unit_of :: "stage \<Rightarrow> int" where
  "unit_of st = (case st of DayLoop \<Rightarrow> nanos_per_day | HourLoop \<Rightarrow> 3600 * nanos_per_second
     | MinuteLoop \<Rightarrow> 60 * nanos_per_second | _ \<Rightarrow> nanos_per_second)"

lemma stepped_unit:
  assumes "st \<in> {DayLoop, HourLoop, MinuteLoop, SecondLoop}"
  shows "t < stepped zone st added t \<and> stepped zone st added t \<le> t + unit_of st"
proof (cases "st = DayLoop")
  case True
  obtain y m d where ymd: "t_Date zone t = (y, m, d)" by (metis prod_cases3)
  with days_from_civil_inverse(1) [of "local_day zone t" y m d]
  have "days_from_civil y m d = local_day zone t" by (simp add: t_Date_def)
  with ymd local_split [of zone t] have "reset_to zone DayLoop t = t - local_nanos zone t mod nanos_per_day"
    by (simp add: reset_to_def t_Year_def t_Month_def t_Day_def midnight_of_def local_nanos_def)
  moreover have "0 \<le> local_nanos zone t mod nanos_per_day" "local_nanos zone t mod nanos_per_day < nanos_per_day"
    by simp_all
  ultimately show ?thesis using True by (simp add: stepped_def advance_def AddDate_day unit_of_def)
next
  case False
  then show ?thesis
    using assms Truncate_next [of "3600 * nanos_per_second" t] Truncate_next [of "60 * nanos_per_second" t]
      Truncate_next [of nanos_per_second t]
    by (auto simp: stepped_def advance_def reset_to_def unit_of_def)
qed

lemma stepped_month:
  assumes "added \<Longrightarrow> t_Day zone t = 1"
  defines "t' \<equiv> stepped zone MonthLoop added t"
  shows "t < t' \<and> t_Day zone t' = 1 \<and> (t_Month zone t' = 1 \<or> t_Year zone t' = t_Year zone t)"
proof -
  obtain y m d where ymd: "t_Date zone t = (y, m, d)" by (metis prod_cases3)
  define r where "r = (if added then t else reset_to zone MonthLoop t)"
  have r: "t_Date zone r = (y, m, 1)"
  proof (cases added)
    case True
    then show ?thesis using assms(1) ymd by (simp add: r_def t_Day_def)
  next
    case False
    then have "r = midnight_of zone y m 1" using ymd by (simp add: r_def reset_to_def t_Year_def t_Month_def)
    with first_of_next_month(3) [of "local_day zone t" y m d] ymd show ?thesis
      by (simp add: t_Date_def local_day_midnight)
  qed
  have t': "t' = AddDate zone 0 1 0 r" by (simp add: t'_def stepped_def advance_def r_def)
  note a = AddDate_month [of zone r y m] 
  have later: "t < t'"
  proof (cases added)
    case True
    then show ?thesis using a r t' by (simp add: r_def)
  next
    case False
    then have "local_day zone t < local_day zone t'"
      using first_of_next_month(1) [of "local_day zone t" y m d] ymd a r t' by (simp add: t_Date_def)
    then show ?thesis by (rule later_day)
  qed
  from a(1) r t' have "t_Date zone t' = civil_from_days (days_from_civil y (m + 1) 1)" by (simp add: t_Date_def)
  with first_of_next_month(2) [of "local_day zone t" y m d] ymd later show ?thesis
    by (auto simp: t_Day_def t_Month_def t_Year_def t_Date_def [of zone t])
qed

text \<open>Whole seconds stay whole seconds.\<close>

lemma dvd_midnight: "nanos_per_second dvd midnight_of zone y m d"
  by (simp add: midnight_of_def)

lemma dvd_AddDate: "nanos_per_second dvd t \<Longrightarrow> nanos_per_second dvd AddDate zone ys ms ds t"
  by (auto simp: AddDate_def local_nanos_def intro!: dvd_add dvd_midnight dvd_mod split: prod.split)

lemma dvd_stepped: "nanos_per_second dvd t \<Longrightarrow> nanos_per_second dvd stepped zone st added t"
  by (cases st)
     (auto simp: stepped_def advance_def reset_to_def Truncate_def
       intro!: dvd_AddDate dvd_midnight dvd_add dvd_diff dvd_mod)

section \<open>The search\<close>

text \<open>
  At a place in the code the fields handled before it match; and at the month loop, once the
  time was moved, the day is the first or the month matches.
\<close>

definition fits :: "int \<Rightarrow> specSchedule \<Rightarrow> stage \<Rightarrow> bool \<Rightarrow> int \<Rightarrow> bool" where
  "fits zone s st added t \<longleftrightarrow>
     (st \<notin> {Wrap, MonthLoop} \<longrightarrow> field_ok zone s MonthLoop t) \<and>
     (st \<in> {HourLoop, MinuteLoop, SecondLoop} \<longrightarrow> field_ok zone s DayLoop t) \<and>
     (st \<in> {MinuteLoop, SecondLoop} \<longrightarrow> field_ok zone s HourLoop t) \<and>
     (st = SecondLoop \<longrightarrow> field_ok zone s MinuteLoop t) \<and>
     (st \<in> {Wrap, MonthLoop} \<longrightarrow> added \<longrightarrow> t_Day zone t = 1 \<or> field_ok zone s MonthLoop t)"

lemma fits_next: "fits zone s st added t \<Longrightarrow> field_ok zone s st t \<Longrightarrow> next_stage st = Some st' \<Longrightarrow> fits zone s st' added t"
  by (cases st) (auto simp: fits_def next_stage_def)

lemma same_month_ok: "t_Month zone t' = t_Month zone t \<Longrightarrow> field_ok zone s MonthLoop t' = field_ok zone s MonthLoop t"
  by (simp add: field_ok_def)

lemma same_day_ok: "local_day zone t' = local_day zone t \<Longrightarrow> field_ok zone s MonthLoop t' = field_ok zone s MonthLoop t \<and>
    field_ok zone s DayLoop t' = field_ok zone s DayLoop t"
  using same_day [of zone t' t] by (simp add: field_ok_def dayMatches_def)

text \<open>A step that does not wrap around leaves the coarser fields as they are.\<close>

lemma unwrapped_hour:
  assumes "\<not> wrapped zone HourLoop t'" "t < t'" "t' \<le> t + unit_of HourLoop"
  shows "local_day zone t = local_day zone t'"
  using same_period [of "3600 * nanos_per_second" 24 "local_nanos zone t" "local_nanos zone t'"] assms
    local_nanos_diff [of zone t' t]
  by (simp add: wrapped_def t_Hour_def unit_of_def)

lemma unwrapped_minute:
  assumes "\<not> wrapped zone MinuteLoop t'" "t < t'" "t' \<le> t + unit_of MinuteLoop"
  shows "local_nanos zone t div (3600 * nanos_per_second) = local_nanos zone t' div (3600 * nanos_per_second)"
  using same_period [of "60 * nanos_per_second" 60 "local_nanos zone t" "local_nanos zone t'"] assms
    local_nanos_diff [of zone t' t]
  by (simp add: wrapped_def t_Minute_def unit_of_def)

lemma unwrapped_second:
  assumes "\<not> wrapped zone SecondLoop t'" "t < t'" "t' \<le> t + unit_of SecondLoop"
  shows "local_nanos zone t div (60 * nanos_per_second) = local_nanos zone t' div (60 * nanos_per_second)"
  using same_period [of nanos_per_second 60 "local_nanos zone t" "local_nanos zone t'"] assms
    local_nanos_diff [of zone t' t]
  by (simp add: wrapped_def t_Second_def unit_of_def)

lemma fits_stepped:
  assumes fits: "fits zone s st added t" and st: "st \<noteq> Wrap" "\<not> field_ok zone s st t"
  defines "t' \<equiv> stepped zone st added t"
  shows "t < t'" "fits zone s Wrap True t'"
    "\<not> wrapped zone st t' \<Longrightarrow> fits zone s st True t' \<and> t_Year zone t' = t_Year zone t"
proof -
  have "t < t' \<and> fits zone s Wrap True t' \<and>
    (\<not> wrapped zone st t' \<longrightarrow> fits zone s st True t' \<and> t_Year zone t' = t_Year zone t)"
  proof (cases "st = MonthLoop")
    case True
    then have "added \<Longrightarrow> t_Day zone t = 1" using fits st(2) by (simp add: fits_def)
    from stepped_month [OF this] True show ?thesis by (auto simp: t'_def fits_def wrapped_def)
  next
    case False
    then have "st \<in> {DayLoop, HourLoop, MinuteLoop, SecondLoop}" using st(1) by (cases st) auto
    from stepped_unit [OF this, of t zone added]
    have r: "t < t'" "t' \<le> t + unit_of st" by (simp_all add: t'_def)
    have "unit_of st \<le> nanos_per_day" by (cases st) (simp_all add: unit_of_def nanos_per_second_def)
    with r have near: "t_Day zone t' = 1 \<or> (t_Year zone t' = t_Year zone t \<and> t_Month zone t' = t_Month zone t)"
      by (intro day_after) simp_all
    have m: "field_ok zone s MonthLoop t" using fits False st(1) by (cases st) (auto simp: fits_def)
    then have w: "fits zone s Wrap True t'" using near same_month_ok [of zone t' t s] by (auto simp: fits_def)
    have "fits zone s st True t' \<and> t_Year zone t' = t_Year zone t" if nw: "\<not> wrapped zone st t'"
    proof (cases st)
      case DayLoop
      then show ?thesis using nw near m same_month_ok [of zone t' t s] by (auto simp: fits_def wrapped_def)
    next
      case HourLoop
      with unwrapped_hour [of zone t' t] nw r have "local_day zone t' = local_day zone t" by simp
      with same_day_ok [OF this] same_day(2) [OF this] fits HourLoop show ?thesis by (simp add: fits_def)
    next
      case MinuteLoop
      with unwrapped_minute [of zone t' t] nw r
      have h: "local_nanos zone t' div (3600 * nanos_per_second) = local_nanos zone t div (3600 * nanos_per_second)" by simp
      then have d: "local_day zone t' = local_day zone t" by (simp only: day_of_hour)
      have "field_ok zone s HourLoop t' = field_ok zone s HourLoop t" using h by (simp add: field_ok_def t_Hour_eq)
      with same_day_ok [OF d] same_day(2) [OF d] fits MinuteLoop show ?thesis by (simp add: fits_def)
    next
      case SecondLoop
      with unwrapped_second [of zone t' t] nw r
      have mi: "local_nanos zone t' div (60 * nanos_per_second) = local_nanos zone t div (60 * nanos_per_second)" by simp
      then have h: "local_nanos zone t' div (3600 * nanos_per_second) = local_nanos zone t div (3600 * nanos_per_second)"
        by (simp only: hour_of_minute)
      then have d: "local_day zone t' = local_day zone t" by (simp only: day_of_hour)
      have "field_ok zone s HourLoop t' = field_ok zone s HourLoop t" "field_ok zone s MinuteLoop t' = field_ok zone s MinuteLoop t"
        using h mi by (simp_all add: field_ok_def t_Hour_eq t_Minute_eq)
      with same_day_ok [OF d] same_day(2) [OF d] fits SecondLoop show ?thesis by (simp add: fits_def)
    qed (use False st in simp_all)
    with r w show ?thesis by blast
  qed
  then show "t < t'" "fits zone s Wrap True t'"
    "\<not> wrapped zone st t' \<Longrightarrow> fits zone s st True t' \<and> t_Year zone t' = t_Year zone t" by blast+
qed

text \<open>Times of a year are bounded, so the search ends.\<close>

definition search_end :: "int \<Rightarrow> int \<Rightarrow> int" where
  "search_end zone yearLimit = (146097 * (yearLimit div 400 + 1) - 719468) * nanos_per_day - zone * nanos_per_second"

lemma search_end: "t_Year zone t \<le> yearLimit \<Longrightarrow> t < search_end zone yearLimit"
proof -
  assume y: "t_Year zone t \<le> yearLimit"
  obtain yy m d where ymd: "t_Date zone t = (yy, m, d)" by (metis prod_cases3)
  with y have "yy div 400 \<le> yearLimit div 400" by (intro zdiv_mono1) (simp_all add: t_Year_def)
  with year_bound [of "local_day zone t" yy m d] ymd
  have "local_day zone t + 1 \<le> 146097 * (yearLimit div 400 + 1) - 719468" by (simp add: t_Date_def)
  then have "(local_day zone t + 1) * nanos_per_day \<le> (146097 * (yearLimit div 400 + 1) - 719468) * nanos_per_day"
    by (intro mult_right_mono) simp_all
  moreover have "local_nanos zone t < (local_day zone t + 1) * nanos_per_day"
  proof -
    have "local_nanos zone t mod nanos_per_day < nanos_per_day" by simp
    with local_split [of zone t] show ?thesis unfolding distrib_right by linarith
  qed
  ultimately have "local_nanos zone t < (146097 * (yearLimit div 400 + 1) - 719468) * nanos_per_day" by (rule order_less_le_trans [rotated])
  then show ?thesis unfolding search_end_def local_nanos_def by linarith
qed

definition rank :: "stage \<Rightarrow> nat" where
  "rank st = (case st of Wrap \<Rightarrow> 5 | MonthLoop \<Rightarrow> 4 | DayLoop \<Rightarrow> 3 | HourLoop \<Rightarrow> 2 | MinuteLoop \<Rightarrow> 1 | SecondLoop \<Rightarrow> 0)"

text \<open>A time that every field of the specification matches.\<close>

definition due :: "int \<Rightarrow> specSchedule \<Rightarrow> int \<Rightarrow> bool" where
  "due zone s t \<longleftrightarrow> bit (Month s) (nat (t_Month zone t)) \<and> dayMatches zone s t \<and>
     bit (Hour s) (nat (t_Hour zone t)) \<and> bit (Minute s) (nat (t_Minute zone t)) \<and>
     bit (Second s) (nat (t_Second zone t))"

lemma fits_due: "fits zone s SecondLoop added t \<Longrightarrow> field_ok zone s SecondLoop t \<Longrightarrow> due zone s t"
  by (simp add: fits_def due_def field_ok_def)

lemma next_loop_returns:
  assumes "fits zone s st added t" "nanos_per_second dvd t" "st \<noteq> Wrap \<longrightarrow> t_Year zone t \<le> yearLimit"
  shows "\<exists>r. next_loop zone s yearLimit st added t = Some r \<and>
    (r = ZeroTime \<or> (\<exists>t'. r = At t' \<and> t \<le> t' \<and> nanos_per_second dvd t' \<and> t_Year zone t' \<le> yearLimit \<and> due zone s t'))"
  using assms
proof (induction "nat (search_end zone yearLimit - t) * 6 + rank st" arbitrary: st added t rule: less_induct)
  case less
  show ?case
  proof (cases "t_Year zone t \<le> yearLimit")
    case False
    with less.prems(3) show ?thesis by (subst next_loop.simps) auto
  next
    case year: True
    show ?thesis
    proof (cases "field_ok zone s st t")
      case ok: True
      show ?thesis
      proof (cases "next_stage st")
        case None
        then have "st = SecondLoop" by (cases st) (simp_all add: next_stage_def)
        with None ok year less.prems fits_due show ?thesis by (subst next_loop.simps) auto
      next
        case (Some st')
        then have "rank st' < rank st" by (cases st) (auto simp: next_stage_def rank_def)
        with less.hyps [of t st' added] fits_next [OF less.prems(1) ok Some] less.prems(2) year
        show ?thesis using ok Some year by (subst next_loop.simps) auto
      qed
    next
      case fails: False
      then have st: "st \<noteq> Wrap" by (auto simp: field_ok_def)
      let ?t = "stepped zone st added t"
      note f = fits_stepped [OF less.prems(1) st fails]
      note d = dvd_stepped [OF less.prems(2), of zone st added]
      have "nat (search_end zone yearLimit - ?t) < nat (search_end zone yearLimit - t)"
        using f(1) search_end [OF year] by simp
      then have smaller: "nat (search_end zone yearLimit - ?t) * 6 + rank st' < nat (search_end zone yearLimit - t) * 6 + rank st"
        for st'
      proof -
        have "rank st' \<le> 5" by (cases st') (simp_all add: rank_def)
        with \<open>nat _ < nat _\<close> show ?thesis by linarith
      qed
      have eq: "next_loop zone s yearLimit st added t =
          next_loop zone s yearLimit (if wrapped zone st ?t then Wrap else st) True ?t"
        using fails st by (subst next_loop.simps) (simp add: stepped_def)
      have "\<exists>r. next_loop zone s yearLimit (if wrapped zone st ?t then Wrap else st) True ?t = Some r \<and>
          (r = ZeroTime \<or> (\<exists>t'. r = At t' \<and> ?t \<le> t' \<and> nanos_per_second dvd t' \<and> t_Year zone t' \<le> yearLimit \<and> due zone s t'))"
        by (rule less.hyps) (use smaller f d year st in auto)
      with f(1) eq show ?thesis by force
    qed
  qed
qed

text \<open>
  \<open>Next\<close> of a specification returns, whatever the bits of the specification: the zero time, or
  a later time on a whole second that matches, in a year at most five years on.
\<close>

theorem spec_Next_returns:
  "\<exists>r. spec_Next zone s t0 = Some r \<and> (r = ZeroTime \<or> (\<exists>t. r = At t \<and> t0 < t \<and>
     nanos_per_second dvd t \<and> due zone s t))"
proof -
  let ?t = "t0 + (nanos_per_second - t_Nanosecond t0)"
  have "t0 < ?t" by (simp add: t_Nanosecond_def)
  moreover have "nanos_per_second dvd ?t"
    using minus_mod_eq_mult_div [of t0 nanos_per_second] by (simp add: t_Nanosecond_def) (metis add_diff_eq add.commute dvd_add dvd_refl dvd_minus_mod)
  moreover have "fits zone s Wrap False ?t" by (simp add: fits_def)
  ultimately show ?thesis
    using next_loop_returns [of zone s Wrap False ?t "t_Year zone ?t + 5"] by (force simp: spec_Next_def Let_def)
qed

text \<open>So no schedule keeps the runner waiting.\<close>

corollary schedule_Next_returns: "\<exists>t k sch'. schedule_Next zone sch t0 = Ret (t, k, sch')"
  using spec_Next_returns [of zone _ t0] by (cases sch) (auto simp: schedule_Next_def split: option.split)

end
