(* ===== verification/CronLeast.thy ===== *)
theory CronLeast
  imports CronNext
begin

text \<open>
  In a zone of whole hours, \<open>Next\<close> of a cron specification skips nothing: its result is the
  least later second that the specification matches, and the zero time means that none of the
  next five years does.
\<close>

section \<open>Months and years do not go back\<close>

lemma civil_next:
  assumes "civil_from_days n = (y, m, d)" "civil_from_days (n + 1) = (y', m', d')"
  shows "y \<le> y'"
proof -
  obtain era u mp e where c: "in_calendar u mp e" "n = day_number era u mp e" "civil_from_days n = shown era u mp e"
    by (rule civil_shown)
  have r: "0 \<le> u" "u \<le> 399" "0 \<le> mp" "mp \<le> 11" using c(1) by (simp_all add: in_calendar_def)
  show ?thesis
  proof (cases "in_calendar u mp (e + 1)")
    case True
    have "day_number era u mp e + 1 = day_number era u mp (e + 1)" by (simp add: day_number_def)
    with True c(2) have "civil_from_days (n + 1) = shown era u mp (e + 1)" by (simp add: civil_day_number)
    with assms c(3) show ?thesis by (auto simp: shown_def Let_def)
  next
    case False
    obtain era1 y1 mp1 where nx: "next_month era u mp = (era1, y1, mp1)" by (metis prod_cases3)
    with in_calendar_end(2) [OF c(1) nx False] c(2) next_month_in [OF r nx]
    have "civil_from_days (n + 1) = shown era1 y1 mp1 1" by (simp add: civil_day_number)
    with assms c(3) nx r show ?thesis by (auto simp: shown_def next_month_def Let_def split: if_splits)
  qed
qed

lemma year_mono: "n \<le> n' \<Longrightarrow> fst (civil_from_days n) \<le> fst (civil_from_days n')"
proof (induction "nat (n' - n)" arbitrary: n')
  case (Suc k)
  then have "fst (civil_from_days n) \<le> fst (civil_from_days (n' - 1))" by (intro Suc.hyps(1)) simp_all
  moreover obtain y m d y' m' d' where "civil_from_days (n' - 1) = (y, m, d)" "civil_from_days n' = (y', m', d')"
    by (metis prod_cases3)
  ultimately show ?case using civil_next [of "n' - 1" y m d y' m' d'] by simp
qed simp

lemma t_Year_mono: "t \<le> t' \<Longrightarrow> t_Year zone t \<le> t_Year zone t'"
  by (simp add: t_Year_def t_Date_def local_nanos_def year_mono zdiv_mono1)

text \<open>The days before the first of the next month are days of this month.\<close>

lemma rest_of_month:
  assumes "civil_from_days n = (y, m, d)" "n \<le> n'" "n' < days_from_civil y (m + 1) 1"
  shows "fst (snd (civil_from_days n')) = m"
proof -
  obtain era u mp e where c: "in_calendar u mp e" "n = day_number era u mp e" "civil_from_days n = shown era u mp e"
    by (rule civil_shown)
  have r: "0 \<le> u" "u \<le> 399" "0 \<le> mp" "mp \<le> 11" using c(1) by (simp_all add: in_calendar_def)
  have sh: "shown era u mp e = (y, m, d)" using c(3) assms(1) by simp
  obtain era1 y1 mp1 where nx: "next_month era u mp = (era1, y1, mp1)" by (metis prod_cases3)
  define k where "k = n' - n"
  have n': "n' = day_number era u mp (e + k)" using c(2) by (simp add: day_number_def k_def)
  have before: "day_number era u mp (e + k) < day_number era1 y1 mp1 1"
    using assms(3) days_from_next_month [OF r sh nx, of 1] n' by simp
  have "in_calendar u mp (e + k)"
  proof (cases "mp = 11")
    case True
    then have "month_start mp + (e + k - 1) < year_start (u + 1) - year_start u"
      using before nx r year_start_400 by (auto simp: next_month_def day_number_def split: if_splits)
    with True r c(1) assms(2) year_index_ends(4) [OF r(1,2)] show ?thesis by (auto simp: in_calendar_def k_def)
  next
    case False
    then have "month_start mp + (e + k - 1) < month_start (mp + 1)"
      using before nx r by (auto simp: next_month_def day_number_def split: if_splits)
    moreover have "month_start (mp + 1) \<le> 337" using month_start_bounds [of "mp + 1"] False r by simp
    ultimately show ?thesis
      using False r c(1) assms(2) month_length [OF r(3) False r(4)] year_index_ends(3) [OF r(1,2)]
      by (auto simp: in_calendar_def k_def)
  qed
  then have "civil_from_days n' = shown era u mp (e + k)" using n' by (simp add: civil_day_number)
  with sh show ?thesis by (auto simp: shown_def Let_def)
qed

section \<open>Periods\<close>

lemma div_less_int: "(x::int) < n * p \<Longrightarrow> 0 < p \<Longrightarrow> x div p < n"
proof (rule ccontr)
  assume a: "x < n * p" "0 < p" "\<not> x div p < n"
  then have "n * p \<le> x div p * p" by (intro mult_right_mono) simp_all
  moreover have "x div p * p \<le> x" using a(2) div_mult_mod_eq [of x p] pos_mod_sign [of p x] by linarith
  ultimately show False using a(1) by simp
qed


text \<open>
  A field is constant over a period: a month, a day, an hour, a minute or a second of the local
  clock. The start of the period after the one a time is in, and whether a time starts one.
\<close>

definition period :: "stage \<Rightarrow> int" where
  "period st = (case st of DayLoop \<Rightarrow> nanos_per_day | HourLoop \<Rightarrow> 3600 * nanos_per_second
     | MinuteLoop \<Rightarrow> 60 * nanos_per_second | _ \<Rightarrow> nanos_per_second)"

definition starts :: "int \<Rightarrow> stage \<Rightarrow> int \<Rightarrow> bool" where
  "starts zone st t \<longleftrightarrow> (if st = MonthLoop then t_Day zone t = 1 \<and> local_nanos zone t mod nanos_per_day = 0
     else local_nanos zone t mod period st = 0)"

definition timed :: "stage set" where "timed = {DayLoop, HourLoop, MinuteLoop, SecondLoop}"

lemma period_pos [simp]: "0 < period st"
  by (cases st) (simp_all add: period_def)

lemma field_period:
  assumes "st \<in> timed" "local_nanos zone t' div period st = local_nanos zone t div period st"
  shows "field_ok zone s st t' = field_ok zone s st t"
proof -
  have "t_Second zone t = local_nanos zone t div nanos_per_second mod 60" for t
    using div_mod_unit [of nanos_per_second 60 "local_nanos zone t"] by (simp add: t_Second_def)
  with assms show ?thesis
    using same_day_ok [of zone t' t s]
    by (auto simp: timed_def period_def field_ok_def t_Hour_eq t_Minute_eq)
qed

section \<open>A step goes to the next period\<close>

lemma local_mod_period:
  assumes "zone mod 3600 = 0" "st \<in> {HourLoop, MinuteLoop, SecondLoop}"
  shows "t mod period st = local_nanos zone t mod period st"
proof -
  from assms(1) obtain k where "zone = 3600 * k" by auto
  then have "period st dvd zone * nanos_per_second" using assms(2) by (auto simp: period_def dvd_def)
  then show ?thesis by (simp add: local_nanos_def mod_add_right_eq mod_add_cong [of _ _ t "zone * nanos_per_second" 0] dvd_imp_mod_0)
qed

lemma stepped_timed:
  assumes "zone mod 3600 = 0" "st \<in> timed" "added \<Longrightarrow> starts zone st t"
  shows "local_nanos zone (stepped zone st added t) = (local_nanos zone t div period st + 1) * period st"
proof -
  let ?r = "local_nanos zone t mod period st"
  have "stepped zone st added t = t - ?r + period st"
  proof (cases "st = DayLoop")
    case True
    obtain y m d where ymd: "t_Date zone t = (y, m, d)" by (metis prod_cases3)
    with days_from_civil_inverse(1) [of "local_day zone t" y m d]
    have "days_from_civil y m d = local_day zone t" by (simp add: t_Date_def)
    with ymd local_split [of zone t] have "reset_to zone DayLoop t = t - local_nanos zone t mod nanos_per_day"
      by (simp add: reset_to_def t_Year_def t_Month_def t_Day_def midnight_of_def local_nanos_def)
    with True assms(3) show ?thesis by (simp add: stepped_def advance_def AddDate_day starts_def period_def)
  next
    case False
    then have st: "st \<in> {HourLoop, MinuteLoop, SecondLoop}" using assms(2) by (auto simp: timed_def)
    from local_mod_period [OF assms(1) st, of t]
    have "reset_to zone st t = t - ?r" using st by (auto simp: reset_to_def Truncate_def period_def)
    moreover have "added \<Longrightarrow> ?r = 0" using assms(3) st by (auto simp: starts_def)
    moreover have "advance zone st u = u + period st" for u using st by (auto simp: advance_def period_def)
    ultimately show ?thesis by (cases added) (simp_all add: stepped_def)
  qed
  moreover have "local_nanos zone t = local_nanos zone t div period st * period st + ?r"
    by (rule div_mult_mod_eq [symmetric])
  ultimately show ?thesis
    using local_nanos_diff [of zone "stepped zone st added t" t] unfolding distrib_right by linarith
qed

lemma stepped_first:
  assumes "added \<Longrightarrow> starts zone MonthLoop t" "t_Date zone t = (y, m, d)"
  shows "local_nanos zone (stepped zone MonthLoop added t) = days_from_civil y (m + 1) 1 * nanos_per_day"
proof -
  define r where "r = (if added then t else reset_to zone MonthLoop t)"
  have r: "t_Date zone r = (y, m, 1) \<and> local_nanos zone r mod nanos_per_day = 0"
  proof (cases added)
    case True
    with assms show ?thesis by (simp add: r_def starts_def t_Day_def)
  next
    case False
    then have "r = midnight_of zone y m 1" using assms(2) by (simp add: r_def reset_to_def t_Year_def t_Month_def)
    with first_of_next_month(3) [of "local_day zone t" y m d] assms(2) show ?thesis
      by (simp add: t_Date_def local_day_midnight)
  qed
  note a = AddDate_month [of zone r y m]
  have "stepped zone MonthLoop added t = AddDate zone 0 1 0 r" by (simp add: stepped_def advance_def r_def)
  with a(1,3) r local_split [of zone "AddDate zone 0 1 0 r"] show ?thesis by simp
qed

text \<open>The times a step passes over do not match the field.\<close>

lemma passed_over:
  assumes "zone mod 3600 = 0" "st \<noteq> Wrap" "\<not> field_ok zone s st t" "added \<Longrightarrow> starts zone st t"
    "t \<le> v" "v < stepped zone st added t"
  shows "\<not> field_ok zone s st v"
proof (cases "st = MonthLoop")
  case True
  obtain y m d where ymd: "t_Date zone t = (y, m, d)" by (metis prod_cases3)
  have "local_nanos zone v < days_from_civil y (m + 1) 1 * nanos_per_day"
    using stepped_first [OF assms(4) [unfolded True] ymd] assms(6) True
      local_nanos_diff [of zone "stepped zone MonthLoop added t" v] by simp
  then have "local_day zone v < days_from_civil y (m + 1) 1" by (rule div_less_int) simp
  moreover have "local_day zone t \<le> local_day zone v"
    using assms(5) by (intro zdiv_mono1) (simp_all add: local_nanos_def)
  ultimately have "t_Month zone v = t_Month zone t"
    using rest_of_month [of "local_day zone t" y m d "local_day zone v"] ymd by (simp add: t_Date_def t_Month_def)
  with True assms(3) show ?thesis by (simp add: field_ok_def)
next
  case False
  then have st: "st \<in> timed" using assms(2) by (cases st) (auto simp: timed_def)
  let ?q = "local_nanos zone t div period st"
  have "local_nanos zone v < (?q + 1) * period st"
    using stepped_timed [OF assms(1) st assms(4)] assms(6) local_nanos_diff [of zone "stepped zone st added t" v] by simp
  then have "local_nanos zone v div period st < ?q + 1" by (rule div_less_int) simp
  moreover have "?q \<le> local_nanos zone v div period st"
    using assms(5) by (intro zdiv_mono1) (simp_all add: local_nanos_def)
  ultimately have "local_nanos zone v div period st = ?q" by simp
  from field_period [OF st this] assms(3) show ?thesis by simp
qed

section \<open>What the search keeps\<close>

text \<open>Once the time was moved, each field matches or begins a period.\<close>

definition settled :: "int \<Rightarrow> specSchedule \<Rightarrow> int \<Rightarrow> bool" where
  "settled zone s t \<longleftrightarrow> (\<forall>st. st \<noteq> Wrap \<longrightarrow> field_ok zone s st t \<or> starts zone st t)"

text \<open>Moving to the next period of one field either begins a longer period or stays in it.\<close>

lemma longer_period:
  assumes "p dvd (q::int)" "0 < p" "0 < q" "b = (a div p + 1) * p"
  shows "b mod q = 0 \<or> b div q = a div q"
proof -
  from assms(1) obtain k where k: "q = p * k" by (auto elim: dvdE)
  then have k0: "0 < k" using assms(2,3) by (simp add: zero_less_mult_iff)
  have d: "b div q = (a div p + 1) div k" "a div q = a div p div k"
    using assms(2,4) k zdiv_zmult2_eq [of k _ p] k0 by simp_all
  show ?thesis
  proof (cases "k dvd a div p + 1")
    case True
    then have "q dvd b" using k assms(4) by (simp add: mult.commute)
    then show ?thesis by simp
  next
    case False
    with d div_Suc [OF k0, of "a div p"] show ?thesis by simp
  qed
qed

lemma period_dvd:
  "period SecondLoop dvd period st" "period MinuteLoop dvd period HourLoop" "period MinuteLoop dvd period DayLoop"
  "period HourLoop dvd period DayLoop"
  by (cases st; simp add: period_def) (auto simp: period_def dvd_def intro: exI [of _ "60 * 24 :: int"] exI [of _ "24 :: int"])

lemma settled_stepped:
  assumes zone: "zone mod 3600 = 0" and st: "st \<noteq> Wrap" "\<not> field_ok zone s st t"
    and fits: "fits zone s st added t" and added: "added \<Longrightarrow> settled zone s t"
  shows "settled zone s (stepped zone st added t)"
proof -
  let ?t = "stepped zone st added t"
  have start: "added \<Longrightarrow> starts zone st t" using added st by (auto simp: settled_def)
  show ?thesis
  proof (cases "st = MonthLoop")
    case True
    obtain y m d where ymd: "t_Date zone t = (y, m, d)" by (metis prod_cases3)
    note l = stepped_first [OF start [unfolded True] ymd]
    have "t_Day zone ?t = 1" using stepped_month [of added zone t] start True by (simp add: starts_def)
    with l True have m: "starts zone MonthLoop ?t" by (simp add: starts_def)
    have "starts zone x ?t" if "x \<in> timed" for x
    proof -
      have "period x dvd nanos_per_day"
        using that by (auto simp: timed_def period_def nanos_per_second_def)
      then show ?thesis using l True that by (auto simp: starts_def timed_def)
    qed
    moreover have "x = MonthLoop \<or> x \<in> timed" if "x \<noteq> Wrap" for x using that by (cases x) (auto simp: timed_def)
    ultimately show ?thesis using m unfolding settled_def by metis
  next
    case False
    then have timed: "st \<in> timed" using st(1) by (cases st) (auto simp: timed_def)
    note l = stepped_timed [OF zone timed start]
    have same: "starts zone x ?t \<or> (field_ok zone s x ?t = field_ok zone s x t \<and>
        local_nanos zone ?t div period x = local_nanos zone t div period x)"
      if "x \<in> timed" "period st dvd period x" for x
      using longer_period [OF that(2) _ _ l] field_period [OF that(1), of zone ?t t s] that(1)
      by (auto simp: starts_def timed_def)
    have finer: "starts zone x ?t" if "x \<in> timed" "period x dvd period st" for x
      using that l by (auto simp: starts_def timed_def)
    have comparable: "period st dvd period x \<and> (x \<noteq> st \<longrightarrow> field_ok zone s x t) \<or> period x dvd period st"
      if "x \<in> timed" for x
      using that timed fits by (cases x; cases st; simp add: timed_def fits_def period_def nanos_per_second_def)
    have day: "starts zone x ?t \<or> field_ok zone s x ?t" if "x \<in> timed" for x
    proof (cases "period x dvd period st")
      case True
      with finer that show ?thesis by blast
    next
      case not_finer: False
      then have "x \<noteq> st" by auto
      with comparable [OF that] not_finer same [OF that] show ?thesis by blast
    qed
    have month: "starts zone MonthLoop ?t \<or> field_ok zone s MonthLoop ?t"
    proof (cases "local_day zone ?t = local_day zone t")
      case True
      have "field_ok zone s MonthLoop t" using fits False st(1) by (cases st) (auto simp: fits_def)
      with same_day_ok [OF True] show ?thesis by blast
    next
      case other: False
      have "period st dvd period DayLoop" using timed by (auto simp: timed_def period_def nanos_per_second_def)
      with same [of DayLoop] other have d: "starts zone DayLoop ?t" by (auto simp: timed_def period_def)
      have "unit_of st \<le> nanos_per_day" by (cases st) (simp_all add: unit_of_def nanos_per_second_def)
      with stepped_unit [of st t zone added] timed
      have "t_Day zone ?t = 1 \<or> t_Month zone ?t = t_Month zone t"
        using day_after [of t ?t zone] by (auto simp: timed_def)
      moreover have "field_ok zone s MonthLoop t" using fits False st(1) by (cases st) (auto simp: fits_def)
      ultimately show ?thesis using d by (auto simp: starts_def field_ok_def period_def)
    qed
    have "x = MonthLoop \<or> x \<in> timed" if "x \<noteq> Wrap" for x using that by (cases x) (auto simp: timed_def)
    with month day show ?thesis unfolding settled_def by metis
  qed
qed

section \<open>The result is the least\<close>

lemma due_fields: "due zone s t \<Longrightarrow> st \<noteq> Wrap \<Longrightarrow> field_ok zone s st t"
  by (cases st) (simp_all add: due_def field_ok_def)

lemma next_loop_least:
  assumes "next_loop zone s yearLimit st added t = Some r"
  shows "zone mod 3600 = 0 \<longrightarrow> fits zone s st added t \<longrightarrow> (added \<longrightarrow> settled zone s t) \<longrightarrow>
    (st \<noteq> Wrap \<longrightarrow> t_Year zone t \<le> yearLimit) \<longrightarrow>
    (\<forall>v. t \<le> v \<longrightarrow> At v < r \<longrightarrow> t_Year zone v \<le> yearLimit \<longrightarrow> \<not> due zone s v)"
  using assms
proof (rule next_loop.raw_induct [where P = "\<lambda>zone s yearLimit st added t r. zone mod 3600 = 0 \<longrightarrow>
    fits zone s st added t \<longrightarrow> (added \<longrightarrow> settled zone s t) \<longrightarrow> (st \<noteq> Wrap \<longrightarrow> t_Year zone t \<le> yearLimit) \<longrightarrow>
    (\<forall>v. t \<le> v \<longrightarrow> At v < r \<longrightarrow> t_Year zone v \<le> yearLimit \<longrightarrow> \<not> due zone s v)", rotated])
  fix loop zone s yearLimit st added t r
  assume IH: "\<And>zone s yearLimit st added t r. loop zone s yearLimit st added t = Some r \<Longrightarrow>
      zone mod 3600 = 0 \<longrightarrow> fits zone s st added t \<longrightarrow> (added \<longrightarrow> settled zone s t) \<longrightarrow>
      (st \<noteq> Wrap \<longrightarrow> t_Year zone t \<le> yearLimit) \<longrightarrow>
      (\<forall>v. t \<le> v \<longrightarrow> At v < r \<longrightarrow> t_Year zone v \<le> yearLimit \<longrightarrow> \<not> due zone s v)"
    and body: "(if st = Wrap \<and> t_Year zone t > yearLimit then Some ZeroTime
      else if field_ok zone s st t
      then (case next_stage st of None \<Rightarrow> Some (At t) | Some st' \<Rightarrow> loop zone s yearLimit st' added t)
      else (if wrapped zone st (advance zone st (if added then t else reset_to zone st t))
            then loop zone s yearLimit Wrap True (advance zone st (if added then t else reset_to zone st t))
            else loop zone s yearLimit st True (advance zone st (if added then t else reset_to zone st t)))) = Some r"
  show "zone mod 3600 = 0 \<longrightarrow> fits zone s st added t \<longrightarrow> (added \<longrightarrow> settled zone s t) \<longrightarrow>
      (st \<noteq> Wrap \<longrightarrow> t_Year zone t \<le> yearLimit) \<longrightarrow>
      (\<forall>v. t \<le> v \<longrightarrow> At v < r \<longrightarrow> t_Year zone v \<le> yearLimit \<longrightarrow> \<not> due zone s v)"
  proof (intro impI allI)
    fix v assume zone: "zone mod 3600 = 0" and fits: "fits zone s st added t"
      and settled: "added \<longrightarrow> settled zone s t" and year: "st \<noteq> Wrap \<longrightarrow> t_Year zone t \<le> yearLimit"
      and v: "t \<le> v" "At v < r" "t_Year zone v \<le> yearLimit"
    have yt: "t_Year zone t \<le> yearLimit" using t_Year_mono [OF v(1), of zone] v(3) by simp
    show "\<not> due zone s v"
    proof (cases "field_ok zone s st t")
      case ok: True
      show ?thesis
      proof (cases "next_stage st")
        case None
        with ok yt body v(1,2) have "r = At t" by simp
        with v(1,2) show ?thesis by (simp add: less_gtime_def)
      next
        case (Some st')
        with ok yt body have "loop zone s yearLimit st' added t = Some r" by simp
        with IH [of zone s yearLimit st' added t r] fits_next [OF fits ok Some] zone settled yt v show ?thesis by blast
      qed
    next
      case fails: False
      then have st: "st \<noteq> Wrap" by (auto simp: field_ok_def)
      let ?t = "stepped zone st added t"
      note f = fits_stepped [OF fits st fails]
      have start: "added \<Longrightarrow> starts zone st t" using settled st fails by (auto simp: settled_def)
      show ?thesis
      proof (cases "v < ?t")
        case True
        from passed_over [OF zone st fails start v(1) True] due_fields [OF _ st] show ?thesis by blast
      next
        case False
        have "loop zone s yearLimit (if wrapped zone st ?t then Wrap else st) True ?t = Some r"
          using body fails st by (auto simp: stepped_def)
        moreover have "fits zone s (if wrapped zone st ?t then Wrap else st) True ?t" using f by auto
        moreover have "settled zone s ?t" by (rule settled_stepped [OF zone st fails fits]) (use settled in blast)
        moreover have "(if wrapped zone st ?t then Wrap else st) \<noteq> Wrap \<longrightarrow> t_Year zone ?t \<le> yearLimit"
          using f(3) yt by auto
        ultimately show ?thesis using IH [of zone s yearLimit _ True ?t r] zone v False by (auto simp: not_less)
      qed
    qed
  qed
qed

text \<open>
  The activation time is the least later whole second that matches, among those of the current
  and the next five years.
\<close>

theorem spec_Next_least:
  assumes "zone mod 3600 = 0" "spec_Next zone s t0 = Some r" "t0 < v" "nanos_per_second dvd v" "At v < r"
    "t_Year zone v \<le> t_Year zone t0 + 5"
  shows "\<not> due zone s v"
proof -
  let ?t = "t0 + (nanos_per_second - t_Nanosecond t0)"
  have "?t = (t0 div nanos_per_second + 1) * nanos_per_second"
    using minus_mod_eq_div_mult [of t0 nanos_per_second] unfolding t_Nanosecond_def distrib_right by linarith
  moreover from assms(4) obtain k where k: "v = k * nanos_per_second" by (auto elim: dvdE simp: mult.commute)
  moreover have "t0 div nanos_per_second < k" using assms(3) k by (intro div_less_int) simp_all
  ultimately have "?t \<le> v" by (simp add: mult_right_mono)
  moreover have "t_Year zone t0 \<le> t_Year zone ?t" by (rule t_Year_mono) (simp add: t_Nanosecond_def less_imp_le)
  ultimately show ?thesis
    using next_loop_least [of zone s "t_Year zone ?t + 5" Wrap False ?t r] assms by (simp add: spec_Next_def Let_def fits_def)
qed

end
