(* ===== verification/CronLegal.thy ===== *)
theory CronLegal
  imports CronLeast
begin

text \<open>
  What the parser of cron specifications guarantees: the schedules it returns are legal, it
  never panics, and it hangs only on a step that reads as zero.
\<close>

definition within :: "u64 \<Rightarrow> bounds \<Rightarrow> bool" where
  "within b r \<longleftrightarrow> (\<forall>n < 63. bit b n \<longrightarrow> unat (b_min r) \<le> n \<and> n \<le> unat (b_max r))"

definition legal_schedule :: "schedule \<Rightarrow> bool" where
  "legal_schedule sch = (case sch of
     SpecSchedule s \<Rightarrow> within (Second s) seconds \<and> within (Minute s) minutes \<and> within (Hour s) hours \<and>
       within (Dom s) dom_bounds \<and> within (Month s) months \<and> within (Dow s) dow_bounds
   | ConstantDelaySchedule d \<Rightarrow> nanos_per_second \<le> d \<and> nanos_per_second dvd d
   | NowSchedule b \<Rightarrow> \<not> b)"

text \<open>The text of a step that reads as zero, somewhere in a field.\<close>

definition zero_step :: "string \<Rightarrow> bool" where
  "zero_step field \<longleftrightarrow> (\<exists>e \<in> set (fieldsFunc (\<lambda>c. c = CHR '','') field).
     \<exists>s. step_text e = Some s \<and> atoi s = Some 0)"

lemma getField_within: "getField field r = Ret b \<Longrightarrow> unat (b_max r) < 63 \<Longrightarrow> within b r"
  using getField_in_bounds [of field r b] by (auto simp: within_def)

lemma getField_zero_step: "getField field r = Hang \<Longrightarrow> unat (b_max r) < 63 \<Longrightarrow> zero_step field"
  unfolding zero_step_def by (rule getField_Hang)

lemma only_within: "only r = Ret b \<Longrightarrow> unat (b_min r) \<le> unat (b_max r) \<Longrightarrow> within b r"
  by (auto simp: only_def within_def bit_exp_iff)

lemma all_bits_within:
  assumes "all_bits r = Ret b" "unat (b_max r) < 63"
  shows "within b r"
proof -
  from getBits_spec [of "b_max r" 1 "b_min r"] assms(2) obtain b0 where
    b0: "getBits (b_min r) (b_max r) 1 = Ret b0"
    "\<forall>n < 64. bit b0 n \<longleftrightarrow> unat (b_min r) \<le> n \<and> n \<le> unat (b_max r)" by auto
  with assms(1) have "b = (b0 OR starBit)" by (simp add: all_bits_def)
  with b0(2) show ?thesis by (auto simp: within_def bit_or_iff bit_starBit)
qed

lemma bounds_order [simp]:
  "unat (b_min seconds) \<le> unat (b_max seconds)" "unat (b_min minutes) \<le> unat (b_max minutes)"
  "unat (b_min hours) \<le> unat (b_max hours)" "unat (b_min dom_bounds) \<le> unat (b_max dom_bounds)"
  "unat (b_min months) \<le> unat (b_max months)" "unat (b_min dow_bounds) \<le> unat (b_max dow_bounds)"
  by (simp_all add: bounds_defs)

lemma spec_of_Ret:
  "spec_of [a, b, c, d, e, f] = Ret sch \<Longrightarrow> \<exists>s. sch = SpecSchedule s \<and> a = Ret (Second s) \<and> b = Ret (Minute s) \<and>
     c = Ret (Hour s) \<and> d = Ret (Dom s) \<and> e = Ret (Month s) \<and> f = Ret (Dow s)"
  by (auto simp: spec_of_def)

lemma spec_of_Hang: "spec_of [a, b, c, d, e, f] = Hang \<Longrightarrow> Hang \<in> {a, b, c, d, e, f}"
  by (auto simp: spec_of_def)

lemma Every_legal: "legal_schedule (Every d)"
proof -
  let ?d = "if d < nanos_per_second then nanos_per_second else d"
  have d: "nanos_per_second \<le> ?d" "0 \<le> ?d" by (simp_all add: nanos_per_second_def)
  then have r: "remainder ?d nanos_per_second = ?d mod nanos_per_second" by (intro remainder_nonneg) (simp_all add: d(2))
  have "?d - ?d mod nanos_per_second = ?d div nanos_per_second * nanos_per_second" by (rule minus_mod_eq_div_mult)
  moreover have "1 \<le> ?d div nanos_per_second" using zdiv_mono1 [OF d(1), of nanos_per_second] by simp
  then have "1 * nanos_per_second \<le> ?d div nanos_per_second * nanos_per_second" by (rule mult_right_mono) simp
  ultimately show ?thesis by (simp add: Every_def Let_def legal_schedule_def r)
qed

lemmas withins = bounds_max [THEN getField_within [rotated]] bounds_max [THEN all_bits_within [rotated]]
  bounds_order [THEN only_within [rotated]]

lemma spec_of_legal:
  assumes "spec_of [a, b, c, d, e, f] = Ret sch" "\<And>x. a = Ret x \<Longrightarrow> within x seconds"
    "\<And>x. b = Ret x \<Longrightarrow> within x minutes" "\<And>x. c = Ret x \<Longrightarrow> within x hours"
    "\<And>x. d = Ret x \<Longrightarrow> within x dom_bounds" "\<And>x. e = Ret x \<Longrightarrow> within x months"
    "\<And>x. f = Ret x \<Longrightarrow> within x dow_bounds"
  shows "legal_schedule sch"
  using spec_of_Ret [OF assms(1)] assms(2-7) by (auto simp: legal_schedule_def)

text \<open>A descriptor is a specification of first or all values, a delay, the present, or a panic.\<close>

definition descriptor_shape :: "schedule outcome \<Rightarrow> bool" where
  "descriptor_shape r \<longleftrightarrow> (\<exists>c \<in> {only hours, all_bits hours}. \<exists>d \<in> {only dom_bounds, all_bits dom_bounds}.
     \<exists>e \<in> {only months, all_bits months}. \<exists>f \<in> {only dow_bounds, all_bits dow_bounds}.
       r = spec_of [only seconds, only minutes, c, d, e, f]) \<or>
     r = Ret (NowSchedule False) \<or> (\<exists>n. r = Ret (Every n)) \<or> (\<exists>e. r = Panic e)"

lemma if_intro: "P a \<Longrightarrow> P b \<Longrightarrow> P (if c then a else b)"
  by simp

lemma parseDescriptor_shape: "descriptor_shape (parseDescriptor spec)"
  unfolding parseDescriptor_def
  by (intro if_intro [where P = descriptor_shape]; unfold descriptor_shape_def; force split: sum.split)

lemma parseDescriptor_cases:
  obtains a b c d e f where "parseDescriptor spec = spec_of [a, b, c, d, e, f]" "a = only seconds" "b = only minutes"
      "c \<in> {only hours, all_bits hours}" "d \<in> {only dom_bounds, all_bits dom_bounds}"
      "e \<in> {only months, all_bits months}" "f \<in> {only dow_bounds, all_bits dow_bounds}"
  | "parseDescriptor spec = Ret (NowSchedule False)"
  | n where "parseDescriptor spec = Ret (Every n)"
  | e where "parseDescriptor spec = Panic e"
  using parseDescriptor_shape [of spec] unfolding descriptor_shape_def by blast

lemma parseDescriptor_legal:
  assumes "parseDescriptor spec = Ret sch"
  shows "legal_schedule sch"
  using assms
proof (cases rule: parseDescriptor_cases [of spec])
  case (1 a b c d e f)
  with assms have "spec_of [a, b, c, d, e, f] = Ret sch" by simp
  then show ?thesis by (rule spec_of_legal) (use 1(2-7) withins in auto)
qed (auto simp: Every_legal legal_schedule_def [of "NowSchedule _"])

lemma all_bits_not_Hang: "unat (b_max r) < 63 \<Longrightarrow> all_bits r \<noteq> Hang"
  using getBits_spec [of "b_max r" 1 "b_min r"] by (auto simp: all_bits_def)

lemma parseDescriptor_not_Hang: "parseDescriptor spec \<noteq> Hang"
proof (cases rule: parseDescriptor_cases [of spec])
  case (1 a b c d e f)
  have "Hang \<notin> {a, b, c, d, e, f}"
    using 1(2-7) bounds_max [THEN all_bits_not_Hang] by (auto simp: only_def)
  with 1(1) spec_of_Hang [of a b c d e f] show ?thesis by auto
qed simp_all

lemma cron_Parse_legal:
  assumes "cron_Parse spec = Ret (Inr sch)"
  shows "legal_schedule sch"
proof -
  have body: "parse_body spec = Ret sch" using assms by (simp add: cron_Parse_def split: outcome.splits)
  show ?thesis
  proof (cases "hd spec = CHR ''@''")
    case True
    with body parseDescriptor_legal show ?thesis by (auto simp: parse_body_def split: if_splits)
  next
    case False
    with body obtain f0 f1 f2 f3 f4 f5 where "spec_of [getField f0 seconds, getField f1 minutes,
        getField f2 hours, getField f3 dom_bounds, getField f4 months, getField f5 dow_bounds] = Ret sch"
      by (auto simp: parse_body_def Let_def split: if_splits)
    then show ?thesis by (rule spec_of_legal) (use withins in auto)
  qed
qed

lemma cron_Parse_Hang:
  assumes "cron_Parse spec = Hang"
  shows "\<exists>field \<in> set (strings_Fields spec @ [''*'']). zero_step field"
proof -
  have body: "parse_body spec = Hang" using assms by (simp add: cron_Parse_def split: outcome.splits)
  then have spec: "spec \<noteq> []" "hd spec \<noteq> CHR ''@''"
    using parseDescriptor_not_Hang [of spec] by (auto simp: parse_body_def simp del: obind_eq_Hang_iff split: if_splits)
  define fs where "fs = (if length (strings_Fields spec) = 5 then strings_Fields spec @ [''*''] else strings_Fields spec)"
  have len: "length fs = 6" "set fs \<subseteq> set (strings_Fields spec @ [''*''])"
    using body spec by (auto simp: parse_body_def fs_def Let_def split: if_splits)
  have "spec_of [getField (fs ! 0) seconds, getField (fs ! 1) minutes,
        getField (fs ! 2) hours, getField (fs ! 3) dom_bounds, getField (fs ! 4) months, getField (fs ! 5) dow_bounds] = Hang"
    using body spec by (auto simp: parse_body_def fs_def Let_def split: if_splits)
  from spec_of_Hang [OF this] have "\<exists>x \<in> {fs ! 0, fs ! 1, fs ! 2, fs ! 3, fs ! 4, fs ! 5}. zero_step x"
    by (auto dest!: sym [of Hang] getField_zero_step)
  moreover have "{fs ! 0, fs ! 1, fs ! 2, fs ! 3, fs ! 4, fs ! 5} \<subseteq> set fs" using len(1) by auto
  ultimately show ?thesis using len(2) by blast
qed

section \<open>The runner never waits for a schedule\<close>

lemma set_Next_returns: "\<exists>e'. set_Next zone t e = Ret e'"
  using schedule_Next_returns [of zone "Schedule e" t] by (auto simp: set_Next_def)

lemma tick_ref_returns: "\<exists>r. tick_ref zone key_of eff rem es = Ret r"
proof (induction es arbitrary: rem)
  case (Cons e es)
  obtain n k sch where n: "schedule_Next zone (Schedule e) eff = Ret (n, k, sch)"
    using schedule_Next_returns by blast
  obtain a b c where "tick_ref zone key_of eff rem es = Ret (a, b, c)"
    using Cons.IH [of rem] by (metis prod_cases3)
  with n Cons.IH [of "rem - {key_of (Job e)}"] show ?case by auto
qed simp

lemma effective_At: "\<exists>eff. effective zone c = At eff"
proof (cases "entries c")
  case (Cons e es)
  then show ?thesis by (cases "Next e") (simp_all add: effective_def)
qed (simp add: effective_def)

lemma recv_tick_returns: "\<exists>st c'. recv_tick zone key_of t c = Ret (st, c')"
proof -
  obtain eff where eff: "effective zone c = At eff" using effective_At by blast
  obtain a b d where "tick_ref zone key_of eff (removes c) (entries c) = Ret (a, b, d)"
    using tick_ref_returns by (metis prod_cases3)
  then show ?thesis by (simp add: recv_tick_ref [OF eff])
qed

lemma cron_Start_returns: "\<exists>c'. cron_Start zone t c = Ret c'"
proof -
  have "\<exists>es'. omap (set_Next zone t) es = Ret es'" for es
  proof (induction es)
    case (Cons e es)
    then show ?case using set_Next_returns [of zone t e] by auto
  qed simp
  then show ?thesis by (auto simp: cron_Start_def)
qed

lemma cron_AddJob_Hang: "cron_AddJob zone t spec cmd c = Hang \<longleftrightarrow> cron_Parse spec = Hang"
proof -
  have "cron_Schedule zone t sch cmd c \<noteq> Hang" for sch
    using set_Next_returns [of zone t "new_entry sch cmd"] by (auto simp: cron_Schedule_def recv_add_def)
  then show ?thesis
    by (cases "cron_Parse spec") (auto simp: cron_AddJob_def split: sum.split)
qed

end
