(* ===== verification/IdentLaws.thy ===== *)
theory IdentLaws
  imports FiringLaws
begin

text \<open>
  What identifiers look like and when two of them are equal: the version and variant digits of
  the text, and the random bytes behind it.
\<close>

unbundle bit_operations_syntax

section \<open>Version and variant in the text\<close>

lemma version_nibble: "unat (((x AND 0x0f) OR 0x40) :: byte) div 16 = 4"
proof -
  have "drop_bit 4 ((x AND 0x0f) OR 0x40) = (4 :: byte)"
  proof (rule bit_word_eqI)
    fix n assume "n < LENGTH(8)"
    then have "n \<in> {0, 1, 2, 3, 4, 5, 6, 7}" by (intro less_8_cases) simp
    then show "bit (drop_bit 4 ((x AND 0x0f) OR 0x40)) n \<longleftrightarrow> bit (4 :: byte) n"
      by (auto simp: bit_drop_bit_eq bit_and_iff bit_or_iff)
  qed
  from arg_cong [where f = unat, OF this] show ?thesis by (simp add: drop_bit_eq_div unat_div)
qed

lemma variant_nibble: "unat (((x AND 0x3f) OR 0x80) :: byte) div 16 \<in> {8, 9, 10, 11}"
proof -
  have "drop_bit 6 ((x AND 0x3f) OR 0x80) = (2 :: byte)"
  proof (rule bit_word_eqI)
    fix n assume "n < LENGTH(8)"
    then have "n \<in> {0, 1, 2, 3, 4, 5, 6, 7}" by (intro less_8_cases) simp
    then show "bit (drop_bit 6 ((x AND 0x3f) OR 0x80)) n \<longleftrightarrow> bit (2 :: byte) n"
      by (auto simp: bit_drop_bit_eq bit_and_iff bit_or_iff)
  qed
  from arg_cong [where f = unat, OF this]
  have "unat (((x AND 0x3f) OR 0x80) :: byte) div 64 = 2" by (simp add: drop_bit_eq_div unat_div)
  then have "unat (((x AND 0x3f) OR 0x80) :: byte) div 16 \<ge> 8" "unat (((x AND 0x3f) OR 0x80) :: byte) div 16 \<le> 11"
    by linarith+
  then show ?thesis by auto
qed

lemma encodeHex_digits:
  assumes "length u = 16"
  shows "encodeHex u ! 14 = hex_digit (unat (u ! 6) div 16)" "encodeHex u ! 19 = hex_digit (unat (u ! 8) div 16)"
proof -
  have "take 2 (drop 6 u) = [u ! 6, u ! 7]" "take 2 (drop 8 u) = [u ! 8, u ! 9]"
    using assms by (simp_all add: numeral_2_eq_2 take_Suc hd_drop_conv_nth drop_Suc [symmetric] tl_drop)
  moreover have "hex_Encode [a, b] = [hex_digit (unat a div 16), hex_digit (unat a mod 16),
      hex_digit (unat b div 16), hex_digit (unat b mod 16)]" for a b
    by (simp add: hex_Encode_def hex_byte_def)
  ultimately show "encodeHex u ! 14 = hex_digit (unat (u ! 6) div 16)" "encodeHex u ! 19 = hex_digit (unat (u ! 8) div 16)"
    using assms by (simp_all add: encodeHex_def nth_append)
qed

lemma NewUuid_nth:
  assumes "length bs = 16"
  shows "NewUuid bs ! 6 = ((bs ! 6) AND 0x0f) OR 0x40" "NewUuid bs ! 8 = ((bs ! 8) AND 0x3f) OR 0x80"
    "i < 16 \<Longrightarrow> i \<noteq> 6 \<Longrightarrow> i \<noteq> 8 \<Longrightarrow> NewUuid bs ! i = bs ! i"
  using assms by (simp_all add: NewUuid_def nth_list_update)

lemma hex_digits: "hex_digit 4 = CHR ''4''" "hex_digit 8 = CHR ''8''" "hex_digit 9 = CHR ''9''"
  "hex_digit 10 = CHR ''a''" "hex_digit 11 = CHR ''b''"
  by code_simp+

lemma ident_version: "ident_at E p ! 14 = CHR ''4''"
  using version_nibble [of "random_bytes (env_rand E) p ! 6"]
  by (simp add: ident_at_def encodeHex_digits NewUuid_nth hex_digits)

lemma hex_digit_variant: "n \<in> {8, 9, 10, 11} \<Longrightarrow> hex_digit n \<in> {CHR ''8'', CHR ''9'', CHR ''a'', CHR ''b''}"
  by (auto simp: hex_digits)

lemma ident_variant: "ident_at E p ! 19 \<in> {CHR ''8'', CHR ''9'', CHR ''a'', CHR ''b''}"
  using hex_digit_variant [OF variant_nibble [of "random_bytes (env_rand E) p ! 8"]]
  by (simp add: ident_at_def encodeHex_digits NewUuid_nth)

section \<open>Equal identifiers\<close>

text \<open>The random bits of a byte that reach the identifier.\<close>

definition kept_bits :: "nat \<Rightarrow> byte" where
  "kept_bits i = (if i = 6 then 0x0f else if i = 8 then 0x3f else 0xff)"

lemma kept_version: "((x AND 0x0f) OR 0x40 = ((y AND 0x0f) OR 0x40 :: byte)) \<longleftrightarrow> x AND 0x0f = y AND 0x0f"
proof
  have drop: "((z AND 0x0f) OR 0x40) AND 0x0f = (z AND 0x0f :: byte)" for z
    by (simp add: bit.conj_disj_distrib2 and.assoc)
  assume "(x AND 0x0f) OR 0x40 = ((y AND 0x0f) OR 0x40 :: byte)"
  from arg_cong [where f = "\<lambda>z. z AND 0x0f", OF this] show "x AND 0x0f = y AND 0x0f" by (simp only: drop)
qed simp

lemma kept_variant: "((x AND 0x3f) OR 0x80 = ((y AND 0x3f) OR 0x80 :: byte)) \<longleftrightarrow> x AND 0x3f = y AND 0x3f"
proof
  have drop: "((z AND 0x3f) OR 0x80) AND 0x3f = (z AND 0x3f :: byte)" for z
    by (simp add: bit.conj_disj_distrib2 and.assoc)
  assume "(x AND 0x3f) OR 0x80 = ((y AND 0x3f) OR 0x80 :: byte)"
  from arg_cong [where f = "\<lambda>z. z AND 0x3f", OF this] show "x AND 0x3f = y AND 0x3f" by (simp only: drop)
qed simp

lemma all_bits: "x AND 0xff = (x :: byte)"
proof -
  have "(0xff :: byte) = -1" by simp
  then show ?thesis by (metis and.right_neutral)
qed

lemma NewUuid_eq_iff:
  assumes "length as = 16" "length bs = 16"
  shows "NewUuid as = NewUuid bs \<longleftrightarrow> (\<forall>i < 16. as ! i AND kept_bits i = bs ! i AND kept_bits i)"
proof -
  have "NewUuid as ! i = NewUuid bs ! i \<longleftrightarrow> as ! i AND kept_bits i = bs ! i AND kept_bits i" if "i < 16" for i
    using that NewUuid_nth [OF assms(1)] NewUuid_nth [OF assms(2)]
    by (auto simp: kept_bits_def kept_version kept_variant all_bits)
  then show ?thesis using assms by (simp add: list_eq_iff_nth_eq)
qed

lemma ident_at_eq_iff:
  "ident_at E p = ident_at E q \<longleftrightarrow>
     (\<forall>i < 16. env_rand E (p + i) AND kept_bits i = env_rand E (q + i) AND kept_bits i)"
proof -
  let ?b = "\<lambda>p. random_bytes (env_rand E) p"
  have "ident_at E p = ident_at E q \<longleftrightarrow> NewUuid (?b p) = NewUuid (?b q)"
    using encodeHex_inj [of "NewUuid (?b p)" "NewUuid (?b q)"] by (auto simp: ident_at_def)
  also have "\<dots> \<longleftrightarrow> (\<forall>i < 16. ?b p ! i AND kept_bits i = ?b q ! i AND kept_bits i)"
    by (rule NewUuid_eq_iff) simp_all
  finally show ?thesis by (simp add: random_bytes_def)
qed

end
