(* ===== verification/Listings.thy ===== *)
theory Listings
  imports AlertLaws
begin

text \<open>
  Paged lists over the mock index: one page is a slice of the documents of a type, sorted by
  identifier; the pages together list every document once. A negative page panics.
\<close>

section \<open>A page of the mock index\<close>

lemma page_of_take:
  assumes "0 \<le> lo" "0 \<le> n" "in_int64 (lo + n)"
  shows "page_of hs lo n = Ret (take (nat n) (drop (nat lo) hs))"
proof -
  have "nat (lo + n) - nat lo = nat n" using assms(1,2) by (simp add: nat_add_distrib)
  moreover have "int (length hs) \<le> lo + n \<Longrightarrow> length hs - nat lo \<le> nat n" using assms(1) by linarith
  ultimately show ?thesis using assms by (auto simp: page_of_def go_slice_def)
qed

text \<open>All hits of a type, in the order of their identifiers.\<close>

definition all_hits :: "mockIndex \<Rightarrow> string \<Rightarrow> searchResultHit list" where
  "all_hits x t = srhSortMatches (map hit_of (all_objs x t))"

lemma all_objs_typed: "mock_inv x \<Longrightarrow> t \<noteq> [] \<Longrightarrow> map_of (types x) t = Some ty \<Longrightarrow> all_objs x t = items ty"
  using mock_inv_items [of x t ty] by (simp add: all_objs_def)

lemma set_all_hits:
  assumes "mock_inv x" "t \<noteq> []" "mock_has_type x t"
  shows "set (all_hits x t) = {\<lparr>hit_ID = i, hit_Source = Some d\<rparr> |i d. mock_docs x t i = Some d}"
    "distinct (map hit_ID (all_hits x t))" "sorted (map hit_ID (all_hits x t))"
proof -
  from assms(3) obtain ty where ty: "map_of (types x) t = Some ty" by (auto simp: mock_has_type_def)
  note o = all_objs_typed [OF assms(1,2) ty]
  have d: "distinct (map fst (items ty))" by (rule mock_inv_items [OF assms(1) ty])
  show "set (all_hits x t) = {\<lparr>hit_ID = i, hit_Source = Some d\<rparr> |i d. mock_docs x t i = Some d}"
    using d by (auto simp: all_hits_def srhSortMatches_def o hit_of_def mock_docs_def ty map_of_eq_Some_iff image_iff)
      (metis fst_conv snd_conv)
  have "mset (map hit_ID (all_hits x t)) = mset (map fst (items ty))"
    by (simp add: all_hits_def srhSortMatches_def o multiset.map_comp comp_def hit_of_def)
  with d show "distinct (map hit_ID (all_hits x t))" by (metis mset_eq_imp_distinct_iff)
  show "sorted (map hit_ID (all_hits x t))" by (simp add: all_hits_def srhSortMatches_def)
qed

lemma FilterByMatchAll_page:
  assumes "0 \<le> Page p" "0 \<le> PerPage p" "in_int64 (Page p * PerPage p + PerPage p)"
  shows "mock_FilterByMatchAll t (Some p) x = (Ret (Some \<lparr>totalHits = int (length (all_objs x t)),
     hits = take (nat (PerPage p)) (drop (nat (Page p * PerPage p)) (all_hits x t)), sr_Found = False\<rparr>, None), x)"
proof -
  have nn: "0 \<le> Page p * PerPage p" using assms(1,2) by simp
  then have "in_int64 (Page p * PerPage p)" using assms(2,3) by (simp add: in_int64_def)
  then show ?thesis using page_of_take [OF nn assms(2,3)]
    by (simp add: mock_FilterByMatchAll_def bnd_def lift_def gets_def ret_def Let_def NewQueryFormat_def all_hits_def)
qed

lemma length_all_hits: "length (all_hits x t) = length (all_objs x t)"
  by (simp add: all_hits_def srhSortMatches_def)

text \<open>A page before the first one is outside the bounds of the slice.\<close>

lemma page_of_negative: "lo < 0 \<Longrightarrow> \<exists>e. page_of hs lo n = Panic e"
  by (simp add: page_of_def go_slice_def)

lemma FilterByMatchAll_negative:
  assumes "Page p < 0" "0 < PerPage p" "in_int64 (Page p * PerPage p)"
  shows "\<exists>e. fst (mock_FilterByMatchAll t (Some p) x) = Panic e"
proof -
  have "Page p * PerPage p < 0" using assms(1,2) by (simp add: mult_neg_pos)
  from page_of_negative [OF this, of "all_hits x t" "PerPage p"] assms(3) show ?thesis
    by (auto simp: mock_FilterByMatchAll_def bnd_def lift_def gets_def Let_def NewQueryFormat_def all_hits_def)
qed

section \<open>Pages together\<close>

lemma concat_pages: "concat (map (\<lambda>k. take n (drop (k * n) xs)) [0..<m]) = take (m * n) xs"
proof (induction m)
  case (Suc m)
  have "take (m * n + n) xs = take (m * n) xs @ take n (drop (m * n) xs)" by (rule take_add)
  with Suc show ?case by (simp add: add.commute)
qed simp

section \<open>Decoded pages\<close>

definition decoded :: "(val \<Rightarrow> string + 'a) \<Rightarrow> searchResultHit \<Rightarrow> 'a" where
  "decoded dec h = projr (dec (the (hit_Source h)))"

lemma decode_hits_all:
  assumes "\<And>h. h \<in> set hs \<Longrightarrow> \<exists>d a. hit_Source h = Some d \<and> dec d = Inr a"
  shows "decode_hits dec hs = Ret (Inr (map (decoded dec) hs))"
  using assms
proof (induction hs)
  case (Cons h hs)
  obtain d a where "hit_Source h = Some d" "dec d = Inr a" using Cons.prems [of h] by auto
  then show ?case using Cons by (simp add: decode_source_def decoded_def)
qed simp

text \<open>Every document of the type decodes.\<close>

definition all_decode :: "(val \<Rightarrow> string + 'a) \<Rightarrow> mockIndex \<Rightarrow> string \<Rightarrow> bool" where
  "all_decode dec x t \<longleftrightarrow> (\<forall>i d. mock_docs x t i = Some d \<longrightarrow> (\<exists>a. dec d = Inr a))"

text \<open>The decoded documents, in the order of their identifiers.\<close>

definition listed :: "(val \<Rightarrow> string + 'a) \<Rightarrow> mockIndex \<Rightarrow> string \<Rightarrow> 'a list" where
  "listed dec x t = map (decoded dec) (all_hits x t)"

lemma set_listed:
  assumes "mock_inv x" "t \<noteq> []" "mock_has_type x t"
  shows "set (listed dec x t) = {projr (dec d) |d. \<exists>i. mock_docs x t i = Some d}"
  unfolding listed_def set_map set_all_hits(1) [OF assms] by (auto simp: image_def decoded_def) (metis option.sel searchResultHit.select_convs(2))

lemma list_page:
  assumes "mock_inv x" "t \<noteq> []" "mock_has_type x t" "all_decode dec x t" "0 < n" "in_int64 (int ((k + 1) * n))"
    "env_idx E = mock_index" "p = \<lparr>Count = 0, Page = int k, PerPage = int n, SortBy = by, Order = ord\<rparr>"
  shows "list_typed E t (bnd (ix_FilterByMatchAll (env_idx E) t (Some p)) (\<lambda>r. lift (list_result name dec r))) x =
    (Ret (Some (take n (drop (k * n) (listed dec x t))), int (length (listed dec x t)), None), x)"
proof -
  have "int k * int n + int n = int ((k + 1) * n)" by (simp add: algebra_simps)
  then have "in_int64 (Page p * PerPage p + PerPage p)" using assms(6,8) by (simp only: jsonPagination.simps)
  from FilterByMatchAll_page [OF _ _ this, of t x]
  have f: "mock_FilterByMatchAll t (Some p) x = (Ret (Some \<lparr>totalHits = int (length (all_objs x t)),
      hits = take n (drop (k * n) (all_hits x t)), sr_Found = False\<rparr>, None), x)"
    using assms(8) by (simp add: nat_mult_distrib)
  have "decode_hits dec (take n (drop (k * n) (all_hits x t))) =
      Ret (Inr (map (decoded dec) (take n (drop (k * n) (all_hits x t)))))"
  proof (rule decode_hits_all)
    fix h assume "h \<in> set (take n (drop (k * n) (all_hits x t)))"
    then have "h \<in> set (all_hits x t)" by (meson in_set_dropD in_set_takeD)
    then show "\<exists>d a. hit_Source h = Some d \<and> dec d = Inr a"
      using set_all_hits(1) [OF assms(1-3)] assms(4) by (auto simp: all_decode_def)
  qed
  then show ?thesis
    using f mock_TypeExists_app [OF mock_inv_exists [OF assms(1)], of t] assms(3,7)
    by (simp add: list_typed_def bnd_def lift_def list_result_def GetHits_def TotalHits_def mock_index_def
        listed_def length_all_hits take_map drop_map)
qed

text \<open>As many as there are documents of the type.\<close>

lemma length_listed:
  assumes "mock_inv x" "t \<noteq> []" "mock_has_type x t"
  shows "length (listed dec x t) = card {i. mock_docs x t i \<noteq> None}"
proof -
  have "set (map hit_ID (all_hits x t)) = {i. mock_docs x t i \<noteq> None}"
    unfolding set_map set_all_hits(1) [OF assms]
    by (auto simp: image_iff) (metis searchResultHit.select_convs(1))
  with distinct_card [OF set_all_hits(2) [OF assms]] show ?thesis by (simp add: listed_def)
qed

section \<open>Lists of the service\<close>

text \<open>The parameters of the \<open>k\<close>-th page.\<close>

definition page_params :: "nat \<Rightarrow> nat \<Rightarrow> httpQueryParams" where
  "page_params n k = \<lparr>raw = [(''perPage'', itoa (int n)), (''page'', itoa (int k))]\<rparr>"

definition page_format :: "nat \<Rightarrow> nat \<Rightarrow> jsonPagination" where
  "page_format n k = \<lparr>Count = 0, Page = int k, PerPage = int n, SortBy = ''createdOn'',
     Order = SortOrderDescending\<rparr>"

lemma itoa_not_Nil [simp]: "itoa i \<noteq> []"
  by (simp add: itoa_def)

lemma page_params_format:
  assumes "in_int64 (int n)" "in_int64 (int k)"
  shows "NewJsonPagination (page_params n k) = Inr (page_format n k)"
    "GetAsID (page_params n k) ''triggerId'' [] = Inr []" "getInflateParam (page_params n k) = False"
    "GetAsString (page_params n k) ''name'' [] = Inr []"
  using assms by (simp_all add: NewJsonPagination_def page_params_def page_format_def GetPerPage_def GetPage_def
      GetSortBy_def GetSortOrder_def GetAsInt_def GetAsString_def GetAsSortOrder_def raw_value_def atoi_itoa
      defaultJsonPagination_def GetAsID_def getInflateParam_def parseBool_def)

text \<open>The answer with one page.\<close>

definition page_response :: "nat \<Rightarrow> nat \<Rightarrow> nat \<Rightarrow> payload \<Rightarrow> jsonResponse" where
  "page_response n k cnt obj = (typed_response 200 obj)\<lparr>Pagination := Some ((page_format n k)\<lparr>Count := int cnt\<rparr>)\<rparr>"

lemma GetAllAlerts_page:
  assumes "env_idx E = mock_index" "mock_inv (w_alerts w)" "mock_has_type (w_alerts w) AlertDBMapping"
    "all_decode dec_alert (w_alerts w) AlertDBMapping" "0 < n" "in_int64 (int ((k + 1) * n))"
  shows "fst (Service_GetAllAlerts E (page_params n k) w) =
    Ret (Some (page_response n k (length (listed dec_alert (w_alerts w) AlertDBMapping))
      (PAlerts (take n (drop (k * n) (listed dec_alert (w_alerts w) AlertDBMapping))))))"
proof -
  have "(k + 1) * 1 \<le> (k + 1) * n" "1 * n \<le> (k + 1) * n" using assms(5) by (intro mult_le_mono; simp)+
  then have "k \<le> (k + 1) * n" "n \<le> (k + 1) * n" by simp_all
  then have "int k \<le> int ((k + 1) * n)" "int n \<le> int ((k + 1) * n)" by (simp_all only: of_nat_le_iff)
  then have 64: "in_int64 (int n)" "in_int64 (int k)" using assms(6) unfolding in_int64_def by linarith+
  let ?w = "audited the_user ''gettingAllAlerts'' AlertDBMapping w"
  have "AlertDB_GetAll E (Some (page_format n k)) ?w =
      (Ret (Some (take n (drop (k * n) (listed dec_alert (w_alerts w) AlertDBMapping))),
        int (length (listed dec_alert (w_alerts w) AlertDBMapping)), None), ?w)"
    using list_page [OF assms(2) _ assms(3-6,1) page_format_def, of "''AlertDB.GetAll''"]
    by (simp add: AlertDB_GetAll_def on_alerts_def zoom_def AlertDBMapping_def)
  then show ?thesis
    by (simp add: Service_GetAllAlerts_def recovered_def page_params_format [OF 64] bnd_def audit_audited
        answer_alerts_def statusOK_app lift_def with_pagination_def page_response_def)
qed

lemma GetAllAlerts_negative:
  assumes "env_idx E = mock_index" "mock_inv (w_alerts w)" "mock_has_type (w_alerts w) AlertDBMapping"
    "p < 0" "in_int64 (p * 10)"
  shows "fst (Service_GetAllAlerts E \<lparr>raw = [(''page'', itoa p)]\<rparr> w) = Ret None"
proof -
  have 64: "in_int64 p" using assms(4,5) by (simp add: in_int64_def)
  let ?f = "\<lparr>Count = 0, Page = p, PerPage = 10, SortBy = ''createdOn'', Order = SortOrderDescending\<rparr>"
  have f: "NewJsonPagination \<lparr>raw = [(''page'', itoa p)]\<rparr> = Inr ?f"
    "GetAsID \<lparr>raw = [(''page'', itoa p)]\<rparr> ''triggerId'' [] = Inr []"
    using 64 by (simp_all add: NewJsonPagination_def GetPerPage_def GetPage_def GetAsID_def
      GetSortBy_def GetSortOrder_def GetAsInt_def GetAsString_def GetAsSortOrder_def raw_value_def atoi_itoa
      defaultJsonPagination_def)
  obtain e where e: "fst (mock_FilterByMatchAll AlertDBMapping (Some ?f) (w_alerts w)) = Panic e"
    using FilterByMatchAll_negative [of ?f AlertDBMapping "w_alerts w"] assms(4,5) by auto
  then obtain x where "mock_FilterByMatchAll AlertDBMapping (Some ?f) (w_alerts w) = (Panic e, x)"
    by (cases "mock_FilterByMatchAll AlertDBMapping (Some ?f) (w_alerts w)") auto
  then show ?thesis
    using mock_TypeExists_app [OF mock_inv_exists [OF assms(2)], of AlertDBMapping] assms(1,3)
    by (simp add: Service_GetAllAlerts_def recovered_def f bnd_def audit_audited AlertDB_GetAll_def on_alerts_def
        zoom_def list_typed_def mock_index_def)
qed

end
