(* ===== verification/Templates.thy ===== *)
theory Templates
  imports EventHandlers
begin

text \<open>
  The text of a job is a template: literal text without a dollar sign, and variables \<open>$key\<close>.
  \<open>PostEvent\<close> puts the event's data into it by one textual replacement per key, in the order of
  Go's map. When no name is a prefix of another and no value has a dollar sign, the result is
  the template with its variables filled in, whatever the order; otherwise the order matters.
\<close>

datatype piece = Lit string | Var string

type_synonym "template" = "piece list"

fun render_piece :: "piece \<Rightarrow> string" where
  "render_piece (Lit l) = l"
| "render_piece (Var k) = CHR ''$'' # k"

definition render :: "template \<Rightarrow> string" where
  "render tpl = concat (map render_piece tpl)"

text \<open>Filling in the variables of the data; others stay as they are.\<close>

fun fill_piece :: "(string \<Rightarrow> string option) \<Rightarrow> piece \<Rightarrow> piece" where
  "fill_piece env (Lit l) = Lit l"
| "fill_piece env (Var k) = (case env k of None \<Rightarrow> Var k | Some v \<Rightarrow> Lit v)"

definition fill :: "(string \<Rightarrow> string option) \<Rightarrow> template \<Rightarrow> template" where
  "fill env tpl = map (fill_piece env) tpl"

text \<open>Names none of which is a prefix of another, all without a dollar sign.\<close>

definition separate :: "string set \<Rightarrow> bool" where
  "separate K \<longleftrightarrow> (\<forall>k \<in> K. CHR ''$'' \<notin> set k) \<and> (\<forall>k \<in> K. \<forall>k' \<in> K. \<forall>r. k' = k @ r \<longrightarrow> r = [])"

fun piece_ok :: "string set \<Rightarrow> piece \<Rightarrow> bool" where
  "piece_ok K (Lit l) \<longleftrightarrow> CHR ''$'' \<notin> set l"
| "piece_ok K (Var k) \<longleftrightarrow> k \<in> K"

definition template_ok :: "string set \<Rightarrow> template \<Rightarrow> bool" where
  "template_ok K tpl \<longleftrightarrow> list_all (piece_ok K) tpl"

lemma render_simps [simp]: "render [] = []" "render (p # tpl) = render_piece p @ render tpl"
  by (simp_all add: render_def)

lemma fill_simps [simp]: "fill env [] = []" "fill env (p # tpl) = fill_piece env p # fill env tpl"
  by (simp_all add: fill_def)

lemma template_ok_simps [simp]: "template_ok K []" "template_ok K (p # tpl) \<longleftrightarrow> piece_ok K p \<and> template_ok K tpl"
  by (simp_all add: template_ok_def)

lemma separateD: "separate K \<Longrightarrow> k \<in> K \<Longrightarrow> k' \<in> K \<Longrightarrow> k \<noteq> k' \<Longrightarrow> \<not> hasPrefix (k' @ s) k"
proof
  assume s: "separate K" "k \<in> K" "k' \<in> K" "k \<noteq> k'" and "hasPrefix (k' @ s) k"
  then obtain r where "k' @ s = k @ r" by (auto simp: hasPrefix_iff)
  then consider t where "k' = k @ t" | t where "k = k' @ t" by (auto simp: append_eq_append_conv2)
  with s show False unfolding separate_def by (metis append_Nil2)
qed

section \<open>One replacement\<close>

text \<open>Every negative count means all occurrences.\<close>

lemma Replace_all: "n < 0 \<Longrightarrow> m < 0 \<Longrightarrow> strings_Replace s old new n = strings_Replace s old new m"
proof (induction s old new n arbitrary: m rule: strings_Replace.induct)
  case (2 c s old new n)
  show ?case
  proof (cases "old \<noteq> [] \<and> hasPrefix (c # s) old")
    case True
    have "strings_Replace (drop (length old) (c # s)) old new (n - 1) =
        strings_Replace (drop (length old) (c # s)) old new (m - 1)"
      by (rule 2(1)) (use True 2(3,4) in simp_all)
    with True 2(3,4) show ?thesis by simp
  next
    case False
    have "strings_Replace s old new n = strings_Replace s old new m"
      by (rule 2(2)) (use False 2(3,4) in simp_all)
    with False 2(3,4) show ?thesis by auto
  qed
qed simp

lemma Replace_2: "strings_Replace s old new (- 2) = strings_Replace s old new (- 1)"
  by (rule Replace_all) simp_all

text \<open>Text without a dollar sign is passed over.\<close>

lemma Replace_pass: "CHR ''$'' \<notin> set l \<Longrightarrow>
    strings_Replace (l @ s) (CHR ''$'' # k) v (-1) = l @ strings_Replace s (CHR ''$'' # k) v (-1)"
proof (induction l)
  case (Cons c l)
  then have "c \<noteq> CHR ''$''" by auto
  then have "\<not> hasPrefix (c # l @ s) (CHR ''$'' # k)" by (simp add: hasPrefix_def)
  with Cons show ?case by auto
qed simp

lemma Replace_here:
    "strings_Replace ((CHR ''$'' # k) @ s) (CHR ''$'' # k) v (-1) = v @ strings_Replace s (CHR ''$'' # k) v (-1)"
  by (simp add: hasPrefix_def Replace_2)

lemma Replace_other:
  assumes "CHR ''$'' \<notin> set k'" "\<not> hasPrefix (k' @ s) k"
  shows "strings_Replace ((CHR ''$'' # k') @ s) (CHR ''$'' # k) v (-1) =
    (CHR ''$'' # k') @ strings_Replace s (CHR ''$'' # k) v (-1)"
proof -
  have "\<not> hasPrefix (CHR ''$'' # k' @ s) (CHR ''$'' # k)" using assms(2) by (simp add: hasPrefix_def)
  with Replace_pass [OF assms(1)] show ?thesis by simp
qed

lemma Replace_render:
  assumes "separate K" "k \<in> K" "template_ok K tpl"
  shows "strings_Replace (render tpl) (CHR ''$'' # k) v (-1) = render (fill [k \<mapsto> v] tpl)"
  using assms(3)
proof (induction tpl)
  case (Cons p tpl)
  show ?case
  proof (cases p)
    case (Lit l)
    with Cons Replace_pass [of l "render tpl" k v] show ?thesis by simp
  next
    case (Var k')
    with Cons have k': "k' \<in> K" by simp
    then have "CHR ''$'' \<notin> set k'" using assms(1) by (auto simp: separate_def)
    with Cons Var Replace_here [of k "render tpl" v] Replace_other [of k' "render tpl" k v]
      separateD [OF assms(1,2) k'] show ?thesis by (cases "k = k'") auto
  qed
qed simp

section \<open>All of them\<close>

lemma fill_ok: "template_ok K tpl \<Longrightarrow> (\<And>k v. env k = Some v \<Longrightarrow> CHR ''$'' \<notin> set v) \<Longrightarrow> template_ok K (fill env tpl)"
proof (induction tpl)
  case (Cons p tpl)
  then show ?case by (cases p) (auto split: option.split)
qed simp

lemma fill_fill: "fill env (fill [k \<mapsto> v] tpl) = fill (env(k \<mapsto> v)) tpl"
proof (induction tpl)
  case (Cons p tpl)
  then show ?case by (cases p) (auto split: option.split)
qed simp

lemma fill_cong: "(\<And>k. env k = env' k) \<Longrightarrow> fill env tpl = fill env' tpl"
  by (metis ext)

lemma substitute_render:
  assumes "separate K" "fst ` set kvs \<subseteq> K" "template_ok K tpl" "distinct (map fst kvs)"
    "\<forall>v \<in> snd ` set kvs. CHR ''$'' \<notin> set (sprint v)"
  shows "substitute kvs (render tpl) = render (fill (\<lambda>k. map_option sprint (map_of kvs k)) tpl)"
  using assms(2-5)
proof (induction kvs arbitrary: tpl)
  case Nil
  have "fill (\<lambda>k. None) tpl = tpl" by (induction tpl) (auto elim: fill_piece.elims, metis fill_piece.simps option.simps(4) piece.exhaust)
  then show ?case by (simp add: substitute_def)
next
  case (Cons kv kvs)
  obtain k v where kv: "kv = (k, v)" by (cases kv)
  let ?tpl = "fill [k \<mapsto> sprint v] tpl"
  have "substitute (kv # kvs) (render tpl) = substitute kvs (render ?tpl)"
    using Replace_render [OF assms(1), of k tpl "sprint v"] Cons.prems kv by (simp add: substitute_def)
  also have "\<dots> = render (fill (\<lambda>k. map_option sprint (map_of kvs k)) ?tpl)"
  proof (rule Cons.IH)
    show "template_ok K ?tpl"
      by (rule fill_ok) (use Cons.prems kv in \<open>auto split: if_splits\<close>)
  qed (use Cons.prems kv in auto)
  also have "\<dots> = render (fill (\<lambda>x. map_option sprint (map_of (kv # kvs) x)) tpl)"
    using Cons.prems(3) kv by (simp add: fill_fill) (intro arg_cong [where f = render] fill_cong, auto)
  finally show ?case .
qed

end
