(* ===== verification/Refusals.thy ===== *)
theory Refusals
  imports FiringLaws
begin

text \<open>
  Events that are refused: one that does not fit its type is not stored; one whose type's owner
  may not create jobs is stored, but sends nothing and leaves no alert.
\<close>

section \<open>Events that do not fit\<close>

context trigger_index
begin

lemma PostEvent_invalid:
  assumes "env_idx E = esi" "inv (w_eventTypes w)"
    "docs (w_eventTypes w) EventTypeDBMapping (ev_EventTypeID ev) = Some (wire (enc_eventType (wrapped_eventType et)))"
    "et_Mapping et = Some m" "json_entries m" "ev_Data ev = Some kvs" "event_check m kvs = Some e"
  shows "\<exists>l. Service_PostEvent E ev w =
    (Ret (Some (message_response 400 [] e (env_Name E))), (drawn w)\<lparr>w_audit := l\<rparr>)"
proof -
  let ?n = "et_Name et" and ?ev = "new_event E w ev"
  let ?w1 = "audited (ev_CreatedBy ev) ''creatingEvent'' (next_ident E w) (drawn w)"
  from GetOne_wrapped [OF assms(1-3)] obtain et' where et':
    "EventTypeDB_GetOne E (ev_EventTypeID ev) w = (Ret (Some et', True, None), w)" "et_Name et' = ?n" by blast
  have ver: "EventDB_verifyEventReadyToPost E (wrapped_event ?n ?ev) ?w1 = (Ret (Some e),
      audited (ev_CreatedBy ev) ''gotEventType'' (ev_EventTypeID ev)
        (audited (ev_CreatedBy ev) ''gettingEventType'' (ev_EventTypeID ev) ?w1))"
    using verify_app [of E ?w1 ?ev et m kvs] assms by simp
  have "Service_PostEvent E ev w = (Ret (Some (message_response 400 [] e (env_Name E))),
      audited (ev_CreatedBy ev) ''creatingEventFailure'' (next_ident E w)
        (audited (ev_CreatedBy ev) ''gotEventType'' (ev_EventTypeID ev)
          (audited (ev_CreatedBy ev) ''gettingEventType'' (ev_EventTypeID ev) ?w1)))"
    by (simp add: Service_PostEvent_unfold [OF et'(1)] et'(2) recovered_def Let_def bnd_def audit_audited
        EventDB_PostData_def ver ret_def fail_with_def statusBadRequest_def statusError_Some)
  then show ?thesis unfolding audited_def by auto
qed

end

section \<open>Jobs that may not be created\<close>

definition access_denied :: "'x env \<Rightarrow> eventType \<Rightarrow> bool" where
  "access_denied E et \<longleftrightarrow> (case env_GetURL E of Inl e \<Rightarrow> False
     | Inr url \<Rightarrow> RequestAuthZAccess E url (et_CreatedBy et) = (False, None))"

definition denial :: "'x env \<Rightarrow> jsonResponse" where
  "denial E = message_response 403 [] ''Access to create job denied'' (env_Name E)"

lemma check_access_denied:
  assumes "access_denied E et"
  shows "\<exists>l. check_access E et w = (Ret (Some (Some (denial E))), w\<lparr>w_audit := l\<rparr>)"
proof (cases "env_GetURL E")
  case (Inl e)
  with assms show ?thesis by (simp add: access_denied_def)
next
  case (Inr url)
  with assms show ?thesis
    by (intro exI [of _ "w_audit (audited the_user ''createJobRequestAccessDenied'' ''pz-idam''
        (audited the_user ''createJobRequestAccess'' ''pz-idam'' w))"])
      (simp add: check_access_def access_denied_def bnd_def audit_app ret_def audited_def denial_def
        statusForbidden_def statusError_Some)
qed

text \<open>Only the log and the position in the random source change.\<close>

definition only_logs :: "'x world \<Rightarrow> 'x world \<Rightarrow> bool" where
  "only_logs w w' \<longleftrightarrow> (\<exists>l n. w' = w\<lparr>w_audit := l, w_rand := n\<rparr>)"

lemma only_logs_refl: "only_logs w w"
  unfolding only_logs_def by (intro exI [of _ "w_audit w"] exI [of _ "w_rand w"]) simp

lemma only_logs_trans: "only_logs w w' \<Longrightarrow> only_logs w' w'' \<Longrightarrow> only_logs w w''"
  by (fastforce simp: only_logs_def)

lemma only_logs_sel:
  assumes "only_logs w w'"
  shows "w_triggers w' = w_triggers w" "w_mq w' = w_mq w" "w_alerts w' = w_alerts w" "w_events w' = w_events w"
    "w_stats w' = w_stats w"
  using assms by (auto simp: only_logs_def)

lemma fire_trigger_denied:
  assumes "TriggerDB_GetOne E i w = (Ret (Some t, True, None), w)" "fires et t" "access_denied E et"
  shows "\<exists>w'. fire_trigger E et ev i w = (Ret (Some (Some (denial E))), w') \<and> only_logs w w'"
proof -
  let ?w = "w\<lparr>w_rand := w_rand w + 16\<rparr>"
  from check_access_denied [OF assms(3), of ?w] obtain l where
    "check_access E et ?w = (Ret (Some (Some (denial E))), ?w\<lparr>w_audit := l\<rparr>)" by blast
  then have "fire_trigger E et ev i w = (Ret (Some (Some (denial E))), ?w\<lparr>w_audit := l\<rparr>)"
    using assms(1,2) by (simp add: fire_trigger_def fires_def bnd_def lift_def ret_def newIdent_app Let_def)
  moreover have "only_logs w (?w\<lparr>w_audit := l\<rparr>)"
    unfolding only_logs_def by (intro exI [of _ l] exI [of _ "w_rand w + 16"]) (cases w, simp)
  ultimately show ?thesis by blast
qed

definition denials :: "'x env \<Rightarrow> (ident \<times> jsonResponse option) list \<Rightarrow> bool" where
  "denials E rs \<longleftrightarrow> (\<forall>p \<in> set rs. snd p = Some (denial E))"

lemma denials_update: "denials E rs \<Longrightarrow> denials E (AList.update i (Some (denial E)) rs)"
  by (induction rs) (auto simp: denials_def)

lemma first_failure_denials: "denials E rs \<Longrightarrow> rs \<noteq> [] \<Longrightarrow> first_failure rs = Some (denial E)"
  by (cases rs) (auto simp: denials_def first_failure_def)

context doc_index
begin

lemma fire_triggers_denied:
  assumes "access_denied E et" "denials E rs"
    and t: "\<And>i w'. i \<in> set ids \<Longrightarrow> w_triggers w' = w_triggers w \<Longrightarrow>
        TriggerDB_GetOne E i w' = (Ret (Some (trg i), True, None), w')"
  shows "\<exists>rs' w'. fire_triggers E et ev ids rs w = (Ret rs', w') \<and> only_logs w w' \<and> denials E rs' \<and>
    (rs \<noteq> [] \<or> fired et trg ids \<noteq> [] \<longrightarrow> rs' \<noteq> [])"
  using assms(2) t
proof (induction ids arbitrary: rs w)
  case Nil
  then show ?case by (auto simp: ret_def fired_def only_logs_refl)
next
  case (Cons i "is")
  note get = Cons.prems(2) [OF list.set_intros(1) refl]
  show ?case
  proof (cases "fires et (trg i)")
    case False
    have idle: "goroutine (fire_trigger E et ev i) w = (Ret None, w)"
      using fire_trigger_idle [OF get False, of ev] by (simp add: goroutine_def)
    from Cons.IH [OF Cons.prems] show ?thesis using False by (simp add: bnd_def idle fired_Cons)
  next
    case True
    from fire_trigger_denied [OF get True assms(1), of ev] obtain w1 where
      w1: "fire_trigger E et ev i w = (Ret (Some (Some (denial E))), w1)" "only_logs w w1" by blast
    let ?rs = "AList.update i (Some (denial E)) rs"
    have "\<exists>rs' w'. fire_triggers E et ev is ?rs w1 = (Ret rs', w') \<and> only_logs w1 w' \<and> denials E rs' \<and>
        (?rs \<noteq> [] \<or> fired et trg is \<noteq> [] \<longrightarrow> rs' \<noteq> [])"
      by (rule Cons.IH [OF denials_update [OF Cons.prems(1)]])
        (use Cons.prems(2) only_logs_sel(1) [OF w1(2)] in simp)
    moreover have "?rs \<noteq> []" by (cases rs) auto
    moreover have "goroutine (fire_trigger E et ev i) w = (Ret (Some (Some (denial E))), w1)"
      using w1 by (simp add: goroutine_def)
    ultimately show ?thesis using only_logs_trans [OF w1(2)] by (fastforce simp: bnd_def)
  qed
qed

end

context trigger_index
begin

lemma PostEvent_denied:
  assumes idx: "env_idx E = esi" and inv: "inv (w_eventTypes w)" "inv (w_events w)" "inv (w_triggers w)"
    and et: "docs (w_eventTypes w) EventTypeDBMapping (ev_EventTypeID ev) = Some (wire (enc_eventType (wrapped_eventType et)))"
      "et_Mapping et = Some m" "json_entries m" "has_type (w_events w) (et_Name et)"
    and ev: "ev_Data ev = Some kvs" "event_check m kvs = None"
    and fresh: "docs (w_events w) (et_Name et) (next_ident E w) = None"
    and ids: "\<And>x. matches x (et_Name et) (VMap [(''data'', of_gomap (addUniqueParams (et_Name et) (ev_Data ev)))]) = ids"
      "\<And>i. i \<in> set ids \<Longrightarrow> stored_trigger (docs (w_triggers w)) i = Some (trg i)"
    and deny: "access_denied E et" "fired et trg ids \<noteq> []"
  shows "\<exists>w'. Service_PostEvent E ev w = (Ret (Some (denial E)), w') \<and> w_mq w' = w_mq w \<and>
    w_alerts w' = w_alerts w \<and> w_stats w' = w_stats w \<and>
    (et_Name et \<noteq> percolateTypeName \<longrightarrow> docs (w_events w') (et_Name et) (next_ident E w) =
       Some (wire (enc_event (wrapped_event (et_Name et) (new_event E w ev)))))"
proof -
  let ?n = "et_Name et" and ?ev = "new_event E w ev"
  from PostEvent_stored [OF idx inv(1,2) et ev fresh, unfolded ids(1)] obtain x1 x2 l et' where p:
    "Service_PostEvent E ev w = recovered None (
      bnd (fire_triggers E et' (wrapped_event ?n ?ev) ids []) (\<lambda>results.
      case first_failure results of
        Some v \<Rightarrow> ret (Some v)
      | None \<Rightarrow> bnd (upd_stats IncrEvents) (\<lambda>_. statusCreated E (PEvent ?ev))))
      ((drawn w)\<lparr>w_events := x2, w_audit := l\<rparr>)"
    and e: "et_Name et' = ?n" "et_EventTypeID et' = et_EventTypeID et" "et_CreatedBy et' = et_CreatedBy et"
    and x: "docs x1 = store_put ?n (next_ident E w) (Some (wire (enc_event (wrapped_event ?n ?ev)))) (docs (w_events w))"
      "\<forall>t' i. t' \<noteq> percolateTypeName \<or> i \<noteq> ''0'' \<longrightarrow> docs x2 t' i = docs x1 t' i"
    by (elim exE conjE) (rule that; assumption)
  let ?w1 = "(drawn w)\<lparr>w_events := x2, w_audit := l\<rparr>"
  have f: "fired et' = fired et" by (simp add: fires_def e(2) fired_def fun_eq_iff)
  have acc: "access_denied E et'" using deny(1) unfolding access_denied_def e(3) .
  have get: "TriggerDB_GetOne E i w' = (Ret (Some (trg i), True, None), w')"
    if "i \<in> set ids" "w_triggers w' = w_triggers ?w1" for i w'
    using TriggerDB_GetOne_stored [OF idx, of w' i] inv(3) ids(2) that by simp
  from fire_triggers_denied [where rs = "[]" and ids = ids and ev = "wrapped_event ?n ?ev" and w = ?w1, OF acc _ get] deny(2) f
  obtain rs w' where
    w': "fire_triggers E et' (wrapped_event ?n ?ev) ids [] ?w1 = (Ret rs, w')" "only_logs ?w1 w'" "denials E rs" "rs \<noteq> []"
    by (auto simp: denials_def)
  have "Service_PostEvent E ev w = (Ret (Some (denial E)), w')"
    using p w'(1) first_failure_denials [OF w'(3,4)] by (simp add: recovered_def bnd_def ret_def)
  with only_logs_sel [OF w'(2)] x show ?thesis by (auto simp: store_put_apply)
qed

end

end
