(* ===== verification/AlertStore.thy ===== *)
theory AlertStore
  imports FiringLaws
begin

text \<open>
  The alerts of the service as an abstract store: a finite map that answers creations, lookups
  and removals. Over any healthy index that reports the removal of a missing document without an
  error, as the mock index does, every sequence of requests is answered as the map answers it.
\<close>

section \<open>The abstract store\<close>

datatype alertRequest = CreateAlert alert | ReadAlert ident | RemoveAlert ident

datatype alertReply = AlertCreated alert | AlertRead alert | AlertRemoved | AlertMissing

text \<open>The alerts it knows, and how much of the random source and of the clock was used.\<close>

record alertStore =
  known :: "ident \<Rightarrow> alert option"
  randoms :: nat
  readings :: nat

definition made_alert :: "'x env \<Rightarrow> alertStore \<Rightarrow> alert \<Rightarrow> alert" where
  "made_alert E s a = a\<lparr>al_AlertID := ident_at E (randoms s),
     al_CreatedOn := time_text (round_milli (env_clock E (readings s)))\<rparr>"

fun answer_of :: "'x env \<Rightarrow> alertRequest \<Rightarrow> alertStore \<Rightarrow> alertReply \<times> alertStore" where
  "answer_of E (CreateAlert a) s = (AlertCreated (made_alert E s a),
     s\<lparr>known := (known s)(ident_at E (randoms s) \<mapsto> made_alert E s a),
       randoms := randoms s + 16, readings := Suc (readings s)\<rparr>)"
| "answer_of E (ReadAlert i) s = ((case known s i of None \<Rightarrow> AlertMissing | Some a \<Rightarrow> AlertRead a), s)"
| "answer_of E (RemoveAlert i) s =
     (if known s i = None then (AlertMissing, s) else (AlertRemoved, s\<lparr>known := (known s)(i := None)\<rparr>))"

fun answers_of :: "'x env \<Rightarrow> alertRequest list \<Rightarrow> alertStore \<Rightarrow> alertReply list \<times> alertStore" where
  "answers_of E [] s = ([], s)"
| "answers_of E (rq # rqs) s = (case answer_of E rq s of (r, s') \<Rightarrow>
     case answers_of E rqs s' of (rs, s'') \<Rightarrow> (r # rs, s''))"

text \<open>Every alert that is created gets an identifier that is not taken.\<close>

fun new_idents :: "'x env \<Rightarrow> alertRequest list \<Rightarrow> alertStore \<Rightarrow> bool" where
  "new_idents E [] s = True"
| "new_idents E (rq # rqs) s \<longleftrightarrow> (case rq of CreateAlert a \<Rightarrow> known s (ident_at E (randoms s)) = None | _ \<Rightarrow> True) \<and>
     new_idents E rqs (snd (answer_of E rq s))"

section \<open>The service\<close>

fun serve_alert :: "'x env \<Rightarrow> alertRequest \<Rightarrow> ('x world, jsonResponse option) go" where
  "serve_alert E (CreateAlert a) = Service_PostAlert E a"
| "serve_alert E (ReadAlert i) = Service_GetAlert E i"
| "serve_alert E (RemoveAlert i) = Service_DeleteAlert E i"

text \<open>The response that carries an answer of the store.\<close>

fun conveys :: "alertReply \<Rightarrow> jsonResponse option \<Rightarrow> bool" where
  "conveys (AlertCreated a) p \<longleftrightarrow> p = Some (typed_response 201 (PAlert a))"
| "conveys (AlertRead a) p \<longleftrightarrow> p = Some (typed_response 200 (PAlert a))"
| "conveys AlertRemoved p \<longleftrightarrow> p = Some (typed_response 200 PNil)"
| "conveys AlertMissing p \<longleftrightarrow> (case p of None \<Rightarrow> False | Some r \<Rightarrow> StatusCode r = 404)"

text \<open>The state of the service that stands for a state of the store.\<close>

definition represents :: "('x \<Rightarrow> store) \<Rightarrow> 'x world \<Rightarrow> alertStore \<Rightarrow> bool" where
  "represents docs w s \<longleftrightarrow>
     docs (w_alerts w) AlertDBMapping = (\<lambda>i. map_option (\<lambda>a. wire (enc_alert a)) (known s i)) \<and>
     w_rand w = randoms s \<and> w_time w = readings s"

locale silent_index = doc_index +
  assumes delete_silent: "inv x \<Longrightarrow> has_type x t \<Longrightarrow> docs x t i = None \<Longrightarrow>
      \<exists>r. ix_DeleteByID esi t i x = (Ret (Some r, None), x) \<and> \<not> dr_Found r"
begin

definition ready :: "'a world \<Rightarrow> alertStore \<Rightarrow> bool" where
  "ready w s \<longleftrightarrow> inv (w_alerts w) \<and> has_type (w_alerts w) AlertDBMapping \<and> represents docs w s"

lemma create_refines:
  assumes "env_idx E = esi" "ready w s" "known s (ident_at E (randoms s)) = None"
  shows "\<exists>p w'. Service_PostAlert E a w = (Ret p, w') \<and> conveys (fst (answer_of E (CreateAlert a) s)) p \<and>
    ready w' (snd (answer_of E (CreateAlert a) s))"
proof -
  have r: "inv (w_alerts w)" "has_type (w_alerts w) AlertDBMapping" "w_rand w = randoms s" "w_time w = readings s"
    "docs (w_alerts w) AlertDBMapping = (\<lambda>i. map_option (\<lambda>a. wire (enc_alert a)) (known s i))"
    using assms(2) by (simp_all add: ready_def represents_def)
  have n: "next_ident E w = ident_at E (randoms s)" "new_alert E w a = made_alert E s a"
    using r(3,4) by (simp_all add: next_ident_at new_alert_def made_alert_def next_time_def)
  have "docs (w_alerts w) AlertDBMapping (next_ident E w) = None" using r(5) assms(3) n(1) by simp
  from PostAlert_app [OF assms(1) r(1,2) this, of a] obtain x l where
    "Service_PostAlert E a w = (Ret (Some (typed_response 201 (PAlert (new_alert E w a)))),
      (drawn w)\<lparr>w_alerts := x, w_audit := l, w_stats := IncrAlerts (w_stats w)\<rparr>)" "inv x"
    "docs x = store_put AlertDBMapping (next_ident E w) (Some (wire (enc_alert (new_alert E w a)))) (docs (w_alerts w))"
    "has_type x = has_type (w_alerts w)" by blast
  then show ?thesis using r n by (auto simp: ready_def represents_def store_put_def drawn_def)
qed

lemma read_refines:
  assumes "env_idx E = esi" "ready w s"
  shows "\<exists>p w'. Service_GetAlert E i w = (Ret p, w') \<and> conveys (fst (answer_of E (ReadAlert i) s)) p \<and> ready w' s"
proof -
  let ?w = "audited the_user ''gettingAlert'' i w"
  have r: "inv (w_alerts w)" "docs (w_alerts w) AlertDBMapping i = map_option (\<lambda>a. wire (enc_alert a)) (known s i)"
    using assms(2) by (simp_all add: ready_def represents_def)
  have rep: "ready (audited a b c v) s = ready v s" for a b c v by (simp add: ready_def represents_def)
  show ?thesis
  proof (cases "known s i")
    case None
    then obtain e where "AlertDB_GetOne E i ?w = (Ret (None, False, Some e), ?w)"
      using AlertDB_GetOne_miss [of E ?w i] assms(1) r by auto
    then show ?thesis using None assms(2)
      by (auto simp: Service_GetAlert_def recovered_def bnd_def audit_audited fail_with_def rep
          statusNotFound_def statusError_Some message_response_def)
  next
    case (Some a)
    then have "AlertDB_GetOne E i ?w = (Ret (Some a, True, None), ?w)"
      using AlertDB_GetOne_hit [of E ?w i "wire (enc_alert a)" a] assms(1) r by (simp add: dec_enc_alert)
    then show ?thesis using Some assms(2)
      by (auto simp: Service_GetAlert_def recovered_def bnd_def audit_audited lift_def statusOK_app rep)
  qed
qed

lemma remove_refines:
  assumes "env_idx E = esi" "ready w s"
  shows "\<exists>p w'. Service_DeleteAlert E i w = (Ret p, w') \<and> conveys (fst (answer_of E (RemoveAlert i) s)) p \<and>
    ready w' (snd (answer_of E (RemoveAlert i) s))"
proof -
  let ?w = "audited the_user ''deletingAlert'' i w"
  have r: "inv (w_alerts w)" "has_type (w_alerts w) AlertDBMapping"
    "docs (w_alerts w) AlertDBMapping = (\<lambda>i. map_option (\<lambda>a. wire (enc_alert a)) (known s i))"
    using assms(2) by (simp_all add: ready_def represents_def)
  have rep: "ready (audited a b c v) s = ready v s" "ready (v\<lparr>w_alerts := w_alerts v\<rparr>) s = ready v s"
    for a b c v by (simp_all add: ready_def represents_def)
  have same: "(audited a b c w)\<lparr>w_alerts := w_alerts w\<rparr> = audited a b c w" for a b c by (simp add: audited_def)
  show ?thesis
  proof (cases "known s i")
    case None
    then obtain d where "ix_DeleteByID esi AlertDBMapping i (w_alerts w) = (Ret (Some d, None), w_alerts w)" "\<not> dr_Found d"
      using delete_silent [OF r(1,2), of i] r(3) by auto
    then show ?thesis using None assms
      by (auto simp: Service_DeleteAlert_def recovered_def bnd_def audit_audited AlertDB_DeleteByID_def on_alerts_def
          zoom_def lift_def ret_def delete_result_def fail_with_def rep same statusNotFound_def statusError_Some message_response_def)
  next
    case (Some a)
    then have "docs (w_alerts w) AlertDBMapping i = Some (wire (enc_alert a))" using r(3) by simp
    from DeleteAlert_hit [OF assms(1) r(1) this] obtain x l where
      "Service_DeleteAlert E i w = (Ret (Some (typed_response 200 PNil)), w\<lparr>w_alerts := x, w_audit := l\<rparr>)"
      "inv x" "docs x = store_put AlertDBMapping i None (docs (w_alerts w))" "has_type x = has_type (w_alerts w)" by blast
    then show ?thesis using Some assms(2) by (auto simp: ready_def represents_def store_put_def)
  qed
qed

text \<open>One request, then all of them.\<close>

lemma request_refines:
  assumes "env_idx E = esi" "ready w s" "new_idents E [rq] s"
  shows "\<exists>p w'. serve_alert E rq w = (Ret p, w') \<and> conveys (fst (answer_of E rq s)) p \<and>
    ready w' (snd (answer_of E rq s))"
  using assms create_refines [OF assms(1,2)] read_refines [OF assms(1,2)] remove_refines [OF assms(1,2)]
  by (cases rq) simp_all

lemma requests_refine:
  assumes "env_idx E = esi" "ready w s" "new_idents E rqs s"
  shows "\<exists>ps w'. mapM (serve_alert E) rqs w = (Ret ps, w') \<and> list_all2 conveys (fst (answers_of E rqs s)) ps \<and>
    ready w' (snd (answers_of E rqs s))"
  using assms(2,3)
proof (induction rqs arbitrary: w s)
  case (Cons rq rqs)
  from request_refines [OF assms(1) Cons.prems(1), of rq] Cons.prems(2) obtain p w1 where
    one: "serve_alert E rq w = (Ret p, w1)" "conveys (fst (answer_of E rq s)) p" "ready w1 (snd (answer_of E rq s))"
    by auto
  from Cons.IH [OF one(3)] Cons.prems(2) obtain ps w2 where
    "mapM (serve_alert E) rqs w1 = (Ret ps, w2)" "list_all2 conveys (fst (answers_of E rqs (snd (answer_of E rq s)))) ps"
    "ready w2 (snd (answers_of E rqs (snd (answer_of E rq s))))" by auto
  with one show ?case by (auto simp: bnd_def ret_def split: prod.split)
qed (simp add: ret_def)

end

section \<open>The mock index is silent\<close>

interpretation silent: silent_index mock_index mock_docs mock_has_type mock_inv
proof unfold_locales
  show "\<exists>r. ix_DeleteByID mock_index t i x = (Ret (Some r, None), x) \<and> \<not> dr_Found r"
    if "mock_inv x" "mock_has_type x t" "mock_docs x t i = None" for x t i
    using mock_DeleteByID_miss [OF mock_inv_exists [OF that(1)] that(2,3)] by (auto simp: mock_index_def)
qed

end
