(* ===== verification/JsonRound.thy ===== *)
theory JsonRound
  imports JsonParse
begin

text \<open>
  Printing and parsing JSON are inverse to each other: the text \<open>json.Marshal\<close> writes for a value
  parses to the value \<open>wire\<close> stands for, with the members of every map in the order of their
  keys. Maps are compared as \<open>reflect.DeepEqual\<close> does, whatever the order of their members.
\<close>

section \<open>Values up to the order of members\<close>

primrec sorted_val :: "val \<Rightarrow> val" where
  "sorted_val VNil = VNil"
| "sorted_val (VBool b) = VBool b"
| "sorted_val (VInt i) = VInt i"
| "sorted_val (VFloat m e) = VFloat m e"
| "sorted_val (VStr s) = VStr s"
| "sorted_val (VArr xs) = VArr (map sorted_val xs)"
| "sorted_val (VMap kvs) = VMap (sort_key fst (map (map_prod id sorted_val) kvs))"
| "sorted_val VNilMap = VNilMap"

definition DeepEqual :: "val \<Rightarrow> val \<Rightarrow> bool" where
  "DeepEqual v w \<longleftrightarrow> sorted_val v = sorted_val w"

lemma distinct_sort_key:
  fixes kvs :: "('a::linorder \<times> 'b) list"
  shows "distinct (map fst (sort_key fst kvs)) \<longleftrightarrow> distinct (map fst kvs)"
  by (metis distinct_map distinct_sort set_sort)

lemma map_of_sort_distinct:
  fixes kvs :: "('a::linorder \<times> 'b) list"
  assumes "distinct (map fst kvs)"
  shows "map_of (sort_key fst kvs) = map_of kvs"
proof (rule map_of_eqI)
  show "\<forall>k\<in>set (map fst (sort_key fst kvs)). map_of (sort_key fst kvs) k = map_of kvs k"
  proof
    fix k assume "k \<in> set (map fst (sort_key fst kvs))"
    then obtain v where "(k, v) \<in> set kvs" by auto
    with assms show "map_of (sort_key fst kvs) k = map_of kvs k" by (simp add: distinct_sort_key)
  qed
qed simp

lemma sorted_entries_eq_iff:
  fixes a b :: "('a::linorder \<times> 'b) list"
  assumes "distinct (map fst a)" "distinct (map fst b)"
  shows "sort_key fst a = sort_key fst b \<longleftrightarrow> map_of a = map_of b"
proof
  assume "sort_key fst a = sort_key fst b"
  then show "map_of a = map_of b" using map_of_sort_distinct assms by metis
next
  assume "map_of a = map_of b"
  then have "set a = set b" using assms by (metis map_of_inject_set)
  then show "sort_key fst a = sort_key fst b"
    using assms distinct_sort_key [of a] distinct_sort_key [of b]
    by (intro map_sorted_distinct_set_unique [of fst]) (simp_all add: distinct_map)
qed

text \<open>Two maps are deeply equal exactly if they have the same keys, with deeply equal values.\<close>

lemma DeepEqual_VMap_iff:
  assumes "distinct (map fst a)" "distinct (map fst b)"
  shows "DeepEqual (VMap a) (VMap b) \<longleftrightarrow> (\<forall>k. rel_option DeepEqual (map_of a k) (map_of b k))"
proof -
  have fst: "map fst (map (map_prod id sorted_val) kvs) = map fst kvs" for kvs
    by (induction kvs) auto
  have mo: "map_of (map (map_prod id sorted_val) kvs) k = map_option sorted_val (map_of kvs k)" for kvs k
    by (induction kvs) auto
  have same: "map_option sorted_val x = map_option sorted_val y \<longleftrightarrow> rel_option DeepEqual x y" for x y
    by (cases x; cases y) (simp_all add: DeepEqual_def)
  have "DeepEqual (VMap a) (VMap b) \<longleftrightarrow>
      map_of (map (map_prod id sorted_val) a) = map_of (map (map_prod id sorted_val) b)"
    unfolding DeepEqual_def using assms by (simp add: sorted_entries_eq_iff fst)
  also have "\<dots> \<longleftrightarrow> (\<forall>k. rel_option DeepEqual (map_of a k) (map_of b k))"
    by (simp add: fun_eq_iff mo same)
  finally show ?thesis .
qed


lemma sort_key_map_prod:
  "sort_key fst (map (map_prod id f) kvs) = map (map_prod id f) (sort_key fst kvs)"
proof -
  have ins: "insort_key fst (map_prod id f p) (map (map_prod id f) l) = map (map_prod id f) (insort_key fst p l)" for p l
    by (induction l) auto
  show ?thesis by (induction kvs) (simp_all add: ins [unfolded id_def] id_def)
qed

section \<open>Tokens\<close>

text \<open>Every byte comes back from its escape.\<close>

lemma hex_val_hex_char: "d < 16 \<Longrightarrow> hex_val (hex_char d) = Some d"
  by (auto simp: hex_val_def hex_char_def of_char_of)

text \<open>An escape of two characters, and one of six.\<close>

lemma scan_escaped2:
  "simple_escape x = Some y \<Longrightarrow> x \<noteq> CHR ''u'' \<Longrightarrow>
    scan_string (CHR 0x5C # x # s) = map_option (\<lambda>(t, r). (y # t, r)) (scan_string s)"
  by (simp add: numeral_2_eq_2)

lemma scan_escaped6:
  assumes "hex_val x = Some (n div 16)" "hex_val y = Some (n mod 16)" "n < 128"
  shows "scan_string (CHR 0x5C # CHR ''u'' # CHR ''0'' # CHR ''0'' # x # y # s) =
    map_option (\<lambda>(t, r). (char_of n # t, r)) (scan_string s)"
proof -
  have "hex_val CHR ''0'' = Some 0" by code_simp
  moreover have "n div 16 * 16 + n mod 16 = n" by simp
  ultimately show ?thesis using assms by (simp add: utf8_def)
qed

lemma scan_escape:
  "scan_string (escape_char c @ s) = map_option (\<lambda>(t, r). (c # t, r)) (scan_string s)"
proof -
  let ?n = "of_char c :: nat"
  have bs: "char_of (92 :: nat) = CHR 0x5C" by code_simp
  have c: "c = char_of ?n" by simp
  have u: "c = CHR ''u'' \<Longrightarrow> ?n = 117" by simp
  consider "?n \<in> {34, 92}" | "?n \<in> {9, 10, 13}"
    | "?n \<notin> {34, 92, 9, 10, 13}" "?n < 32 \<or> ?n \<in> {60, 62, 38}"
    | "?n \<notin> {34, 92, 60, 62, 38}" "32 \<le> ?n" by force
  then show ?thesis
  proof cases
    case 1
    then have "escape_char c = [CHR 0x5C, c]" "simple_escape c = Some c" "c \<noteq> CHR ''u''"
      using u by (auto simp: escape_char_def Let_def bs simple_escape_def)
    then show ?thesis using scan_escaped2 by simp
  next
    case 2
    have t: "escape_char CHR 0x09 = [CHR 0x5C, CHR ''t'']" "escape_char CHR 0x0A = [CHR 0x5C, CHR ''n'']"
      "escape_char CHR 0x0D = [CHR 0x5C, CHR ''r'']" "simple_escape CHR ''t'' = Some CHR 0x09"
      "simple_escape CHR ''n'' = Some CHR 0x0A" "simple_escape CHR ''r'' = Some CHR 0x0D" by code_simp+
    have "char_of (9 :: nat) = CHR 0x09" "char_of (10 :: nat) = CHR 0x0A" "char_of (13 :: nat) = CHR 0x0D" by code_simp+
    moreover have "c = char_of k" if "?n = k" for k using c that by metis
    ultimately have "c \<in> {CHR 0x09, CHR 0x0A, CHR 0x0D}" using 2 by (metis insert_iff singletonD)
    then show ?thesis using t scan_escaped2 by auto
  next
    case 3
    then have h: "?n div 16 < 16" "?n mod 16 < 16" "?n < 128" by auto
    have "escape_char c = CHR 0x5C # ''u00'' @ [hex_char (?n div 16), hex_char (?n mod 16)]"
      using 3 by (simp add: escape_char_def Let_def bs)
    then show ?thesis
      using scan_escaped6 [OF hex_val_hex_char [OF h(1)] hex_val_hex_char [OF h(2)] h(3)] c by simp
  next
    case 4
    have "escape_char c = [c]" using 4 by (simp add: escape_char_def Let_def)
    moreover have "c \<noteq> CHR 0x22" "c \<noteq> CHR 0x5C" using 4 by auto
    ultimately show ?thesis using 4 by simp
  qed
qed

lemma scan_quote: "scan_string (tl (quote s) @ r) = Some (s, r)"
proof -
  have "scan_string (concat (map escape_char s) @ CHR 0x22 # r) = Some (s, r)"
    by (induction s) (simp_all add: scan_escape)
  then show ?thesis by (simp add: quote_def)
qed

section \<open>Numbers\<close>

text \<open>What may follow a number: nothing that could continue it.\<close>

definition ends_number :: "string \<Rightarrow> bool" where
  "ends_number r \<longleftrightarrow> (case r of [] \<Rightarrow> True | c # _ \<Rightarrow> \<not> is_digit c \<and> c \<notin> {CHR ''.'', CHR ''e'', CHR ''E''})"

text \<open>A decimal in lowest terms, as the parser makes them.\<close>

definition lowest_terms :: "int \<Rightarrow> nat \<Rightarrow> bool" where
  "lowest_terms m e \<longleftrightarrow> e = 0 \<or> m mod 10 \<noteq> 0"

lemma trim_frac_lowest: "\<exists>m' e'. trim_frac m e = VFloat m' e' \<and> lowest_terms m' e'"
  by (induction m e rule: trim_frac.induct) (auto simp: lowest_terms_def)

lemma trim_frac_stays: "lowest_terms m e \<Longrightarrow> trim_frac m e = VFloat m e"
  by (cases e) (auto simp: lowest_terms_def)

text \<open>Digit texts and the numbers they denote.\<close>

definition digits :: "string \<Rightarrow> bool" where
  "digits s \<longleftrightarrow> (\<forall>c \<in> set s. is_digit c)"

lemma digits_simps [simp]: "digits []" "digits (c # s) \<longleftrightarrow> is_digit c \<and> digits s"
  "digits (s @ t) \<longleftrightarrow> digits s \<and> digits t" "digits (replicate n CHR ''0'')" "digits (show_nat k)"
  using show_nat_digits [of _ k] by (auto simp: digits_def is_digit_def)

lemma scan_digits_app:
  assumes "digits s" "r = [] \<or> \<not> is_digit (hd r)"
  shows "scan_digits (s @ r) = (s, r)"
proof -
  have "takeWhile is_digit r = []" "dropWhile is_digit r = r" using assms(2) by (cases r; simp)+
  with assms(1) show ?thesis by (simp add: scan_digits_def digits_def takeWhile_append dropWhile_append)
qed

lemma dec_val_digits: "digits s \<Longrightarrow> \<exists>n. dec_val a s = Some n"
  by (induction a s rule: dec_val.induct) auto

lemma dec_val_shift: "digits s \<Longrightarrow> dec_val a s = map_option (\<lambda>n. a * 10 ^ length s + n) (dec_val 0 s)"
proof (induction s arbitrary: a)
  case (Cons c s)
  from Cons.prems have c: "is_digit c" "digits s" by simp_all
  obtain n where n: "dec_val 0 s = Some n" using dec_val_digits [OF c(2)] by blast
  show ?case using Cons.IH [OF c(2), of "a * 10 + digit_val c"] Cons.IH [OF c(2), of "digit_val c"] c n
    by (simp add: algebra_simps)
qed simp

lemma digits_val_append:
  assumes "digits s" "digits t"
  shows "digits_val (s @ t) = digits_val s * 10 ^ length t + digits_val t"
proof -
  obtain a b where "dec_val 0 s = Some a" "dec_val 0 t = Some b" using assms dec_val_digits by blast
  then show ?thesis using dec_val_shift [OF assms(2), of a] by (simp add: digits_val_def dec_val_append)
qed

lemma digits_val_zeros [simp]: "digits_val (replicate n CHR ''0'') = 0"
proof -
  have "dec_val 0 (replicate n CHR ''0'') = Some 0" by (induction n) (simp_all add: is_digit_def digit_val_def)
  then show ?thesis by (simp add: digits_val_def)
qed

lemma digits_val_show_nat [simp]: "digits_val (show_nat n) = int n"
  by (simp add: digits_val_def dec_val_show_nat)

lemma hd_show_nat: "0 < n \<Longrightarrow> hd (show_nat n) \<noteq> CHR ''0''"
proof (induction n rule: show_nat.induct)
  case (1 n)
  show ?case
  proof (cases "n < 10")
    case True
    have "digit_val CHR ''0'' = 0" by code_simp
    then have "digit_char n \<noteq> CHR ''0''" using digit_val_digit_char [OF True] 1(2) by auto
    with True show ?thesis by (subst show_nat.simps) auto
  next
    case False
    then show ?thesis using 1(1) by (subst show_nat.simps) simp
  qed
qed

text \<open>The mantissa without its trailing zeros.\<close>

lemma strip_zeros_split: "\<exists>z. s = strip_zeros s @ replicate z CHR ''0''"
proof -
  let ?z = "takeWhile (\<lambda>c. c = CHR ''0'') (rev s)"
  have "?z = replicate (length ?z) CHR ''0''"
    by (rule replicate_length_same [symmetric]) (auto dest: set_takeWhileD)
  moreover have "rev s = ?z @ rev (strip_zeros s)" by (simp add: strip_zeros_def)
  ultimately have "rev s = replicate (length ?z) CHR ''0'' @ rev (strip_zeros s)" by simp
  then have "s = strip_zeros s @ replicate (length ?z) CHR ''0''" by (metis rev_append rev_replicate rev_rev_ident)
  then show ?thesis by blast
qed

text \<open>A number as it is scanned: sign, digits, fraction, exponent.\<close>

definition number_text :: "bool \<Rightarrow> string \<Rightarrow> string option \<Rightarrow> int option \<Rightarrow> string" where
  "number_text neg ds fr x = (if neg then ''-'' else []) @ ds @
     (case fr of None \<Rightarrow> [] | Some f \<Rightarrow> CHR ''.'' # f) @
     (case x of None \<Rightarrow> [] | Some n \<Rightarrow> CHR ''e'' # exponent_text n)"

lemma scan_exponent_text:
  assumes "r = [] \<or> \<not> is_digit (hd r)"
  shows "scan_exponent (CHR ''e'' # exponent_text x @ r) = Some (x, r)"
proof -
  define ds where "ds = (if \<bar>x\<bar> < 10 then ''0'' else []) @ show_nat (nat \<bar>x\<bar>)"
  have d: "digits ds" by (simp add: ds_def is_digit_def)
  have v: "digits_val ds = \<bar>x\<bar>"
    using digits_val_append [of "''0''" "show_nat (nat \<bar>x\<bar>)"] digits_val_zeros [of 1]
    by (simp add: ds_def is_digit_def)
  have ne: "ds \<noteq> []" by (simp add: ds_def)
  have "exponent_text x = (if x < 0 then CHR ''-'' else CHR ''+'') # ds" by (simp add: exponent_text_def ds_def)
  then show ?thesis using scan_digits_app [OF d assms] v ne by (simp add: scan_exponent_def)
qed

lemma scan_number_text:
  assumes "digits ds" "ds \<noteq> []" "length ds > 1 \<longrightarrow> hd ds \<noteq> CHR ''0''"
    and "fr = None \<or> (\<exists>f. fr = Some f \<and> digits f \<and> f \<noteq> [])" and "ends_number r"
  shows "scan_number (number_text neg ds fr x @ r) =
    (let f = (case fr of None \<Rightarrow> [] | Some f \<Rightarrow> f); m = digits_val (ds @ f)
     in Some (scale_num (if neg then - m else m) (length f) (case x of None \<Rightarrow> 0 | Some n \<Rightarrow> n), r))"
proof -
  let ?x = "(case x of None \<Rightarrow> [] | Some n \<Rightarrow> CHR ''e'' # exponent_text n) @ r"
  let ?fx = "(case fr of None \<Rightarrow> [] | Some f \<Rightarrow> CHR ''.'' # f) @ ?x"
  have r: "r = [] \<or> \<not> is_digit (hd r)" "\<And>c s. r = c # s \<Longrightarrow> c \<noteq> CHR ''.'' \<and> c \<noteq> CHR ''e'' \<and> c \<noteq> CHR ''E''"
    using assms(5) by (auto simp: ends_number_def split: list.splits)
  have e: "scan_exponent ?x = Some (case x of None \<Rightarrow> 0 | Some n \<Rightarrow> n, r)"
    using scan_exponent_text [OF r(1)] r(2)
    by (cases x) (auto simp: scan_exponent_def split: list.splits)
  have x0: "?x = [] \<or> \<not> is_digit (hd ?x)" using r(1) by (cases x) (simp_all add: is_digit_def)
  have x1: "hd ?x \<noteq> CHR ''.''" if "?x \<noteq> []" using r(2) that by (cases x; cases r) auto
  have fx: "?fx = [] \<or> \<not> is_digit (hd ?fx)" using x0 by (cases fr) (simp_all add: is_digit_def)
  have neg: "hd ds \<noteq> CHR ''-''" using assms(1,2) by (cases ds) (auto simp: is_digit_def)
  obtain d ds' where ds: "ds = d # ds'" using assms(2) by (cases ds) auto
  have sd: "scan_digits (ds @ ?fx) = (ds, ?fx)" by (rule scan_digits_app [OF assms(1) fx])
  show ?thesis
  proof (cases fr)
    case None
    then show ?thesis using sd e x1 neg assms(2,3) ds
      by (cases neg; cases ?x) (auto simp: scan_number_def number_text_def)
  next
    case (Some f)
    then have f: "digits f" "f \<noteq> []" using assms(4) by auto
    have "scan_digits (f @ ?x) = (f, ?x)" by (rule scan_digits_app [OF f(1) x0])
    then show ?thesis using Some sd e neg assms(2,3) f ds
      by (cases neg) (auto simp: scan_number_def number_text_def)
  qed
qed

lemma scale_num_lowest:
  assumes "\<bar>m\<bar> = k * 10 ^ z" "e = 0 \<or> z = 0" "int f - x = int e - int z" "lowest_terms m e"
  shows "scale_num (if m < 0 then - k else k) f x = VFloat m e"
proof -
  have m: "(if m < 0 then - k else k) * 10 ^ z = m" using assms(1) by (auto split: if_splits)
  show ?thesis
  proof (cases "e = 0")
    case True
    then have "x - int f = int z" using assms(3) by simp
    then show ?thesis using m True by (simp add: scale_num_def)
  next
    case False
    then have z: "z = 0" "x < int f" "nat (int f - x) = e" using assms(2,3) by auto
    with m show ?thesis using trim_frac_stays [OF assms(4)] by (simp add: scale_num_def)
  qed
qed

lemma mantissa:
  assumes "0 < n"
  shows "\<exists>z. let s = strip_zeros (show_nat n) in digits s \<and> s \<noteq> [] \<and> hd s \<noteq> CHR ''0'' \<and>
    length (show_nat n) = length s + z \<and> int n = digits_val s * 10 ^ z"
proof -
  let ?s = "strip_zeros (show_nat n)"
  from strip_zeros_split obtain z where z: "show_nat n = ?s @ replicate z CHR ''0''" by blast
  have d: "digits ?s" using digits_simps(5) [of n] z by (metis digits_simps(3))
  have v: "int n = digits_val ?s * 10 ^ z"
    using digits_val_append [OF d digits_simps(4) [of z]] z by (metis add.right_neutral digits_val_show_nat
        digits_val_zeros length_replicate)
  have ne: "?s \<noteq> []" using v assms by (auto simp: digits_val_def)
  have "hd (show_nat n) = hd ?s" by (subst z) (simp add: ne)
  then have "hd ?s \<noteq> CHR ''0''" using hd_show_nat [OF assms] by simp
  moreover have "length (show_nat n) = length ?s + z" by (subst z) simp
  ultimately show ?thesis using d v ne by (auto simp: Let_def)
qed

text \<open>Every decimal in lowest terms is read back as it was.\<close>

lemma scan_float_g:
  assumes lt: "lowest_terms m e" and r: "ends_number r"
  shows "scan_number (float_g m e @ r) = Some (VFloat m e, r)"
proof (cases "m = 0")
  case True
  then have "e = 0" using lt by (simp add: lowest_terms_def)
  have "digits ''0''" "digits_val ''0'' = 0" using digits_simps(4) [of 1] digits_val_zeros [of 1] by simp_all
  from scan_number_text [OF this(1) _ _ _ r, of None False None] this(2) True \<open>e = 0\<close> show ?thesis
    by (simp add: float_g_def number_text_def scale_num_def)
next
  case False
  define n where "n = nat \<bar>m\<bar>"
  define ds where "ds = strip_zeros (show_nat n)"
  have n: "0 < n" "int n = \<bar>m\<bar>" using False by (simp_all add: n_def)
  from mantissa [OF n(1)] obtain z where ds: "digits ds" "ds \<noteq> []" "hd ds \<noteq> CHR ''0''"
    "length (show_nat n) = length ds + z" "\<bar>m\<bar> = digits_val ds * 10 ^ z"
    unfolding n(2) Let_def ds_def [symmetric] by blast
  have ez: "e = 0 \<or> z = 0"
  proof (rule disjCI)
    assume "z \<noteq> 0"
    then have "(10 :: int) dvd 10 ^ z" by simp
    then have "10 dvd \<bar>m\<bar>" unfolding ds(5) by (rule dvd_mult)
    with lt show "e = 0" by (simp add: lowest_terms_def mod_eq_0_iff_dvd)
  qed
  define x where "x = int (length ds) + int z - int e - 1"
  have g: "float_g m e = (if m < 0 then ''-'' else []) @
      (if x < -4 \<or> x \<ge> 6
       then (case ds of d # t \<Rightarrow> [d] @ (if t = [] then [] else CHR ''.'' # t) | [] \<Rightarrow> []) @ ''e'' @ exponent_text x
       else if x + 1 \<le> 0 then ''0.'' @ replicate (nat (- (x + 1))) CHR ''0'' @ ds
       else if nat (x + 1) \<ge> length ds then ds @ replicate (nat (x + 1) - length ds) CHR ''0''
       else take (nat (x + 1)) ds @ ''.'' @ drop (nat (x + 1)) ds)"
    using False ds(4) by (simp add: float_g_def n_def [symmetric] ds_def [symmetric] x_def Let_def)
  have scan: ?thesis if "float_g m e = number_text (m < 0) a fr y" "digits a" "a \<noteq> []"
    "length a > 1 \<longrightarrow> hd a \<noteq> CHR ''0''" "fr = None \<or> (\<exists>f. fr = Some f \<and> digits f \<and> f \<noteq> [])"
    "scale_num (if m < 0 then - digits_val (a @ (case fr of None \<Rightarrow> [] | Some f \<Rightarrow> f))
       else digits_val (a @ (case fr of None \<Rightarrow> [] | Some f \<Rightarrow> f)))
       (length (case fr of None \<Rightarrow> [] | Some f \<Rightarrow> f)) (case y of None \<Rightarrow> 0 | Some i \<Rightarrow> i) = VFloat m e" for a fr y
    using scan_number_text [OF that(2-5) r, of "m < 0" y] that(1,6) by (simp add: Let_def)
  obtain d t where dt: "ds = d # t" using ds(2) by (cases ds) auto
  consider "x < -4 \<or> x \<ge> 6" | "\<not> (x < -4 \<or> x \<ge> 6)" "x + 1 \<le> 0" | "\<not> (x < -4 \<or> x \<ge> 6)" "\<not> x + 1 \<le> 0" "nat (x + 1) \<ge> length ds"
    | "\<not> (x < -4 \<or> x \<ge> 6)" "\<not> x + 1 \<le> 0" "nat (x + 1) < length ds" by linarith
  then show ?thesis
  proof cases
    case 1
    have s: "scale_num (if m < 0 then - digits_val ds else digits_val ds) (length t) x = VFloat m e"
      by (rule scale_num_lowest [OF ds(5) ez _ lt]) (simp add: x_def dt)
    have g1: "float_g m e = (if m < 0 then ''-'' else []) @ ([d] @ (if t = [] then [] else CHR ''.'' # t)) @ ''e'' @ exponent_text x"
      unfolding g using 1 dt by simp
    have d: "is_digit d" "digits t" using ds(1) dt by simp_all
    show ?thesis
    proof (cases "t = []")
      case True
      show ?thesis
        by (rule scan [of "[d]" None "Some x"]) (use g1 d s True dt in \<open>auto simp: number_text_def split: if_splits\<close>)
    next
      case False
      show ?thesis
        by (rule scan [of "[d]" "Some t" "Some x"]) (use g1 d s False dt in \<open>auto simp: number_text_def split: if_splits\<close>)
    qed
  next
    case 2
    let ?f = "replicate (nat (- (x + 1))) CHR ''0'' @ ds"
    have "digits_val (replicate (Suc k) CHR ''0'' @ ds) = digits_val ds" for k
      unfolding digits_val_append [OF digits_simps(4) ds(1)] digits_val_zeros by simp
    then have "digits_val (''0'' @ ?f) = digits_val ds" by simp
    then show ?thesis
      by (intro scan [of "''0''" "Some ?f" None])
         (use 2 g ds scale_num_lowest [OF ds(5) ez _ lt, of "length ?f" 0] x_def in
          \<open>auto simp: number_text_def is_digit_def\<close>)
  next
    case 3
    let ?a = "ds @ replicate (nat (x + 1) - length ds) CHR ''0''"
    have l: "int (length ds) \<le> x + 1" using 3 by linarith
    have e: "e = 0" "nat (x + 1) - length ds = z" using l ez x_def by auto
    have "digits_val ?a = digits_val ds * 10 ^ z" using digits_val_append [OF ds(1), of "replicate z CHR ''0''"] e by simp
    moreover have "VFloat (if m < 0 then - (digits_val ds * 10 ^ z) else digits_val ds * 10 ^ z) 0 = VFloat m e"
      using ds(5) e by (auto split: if_splits)
    ultimately show ?thesis
      by (intro scan [of ?a None None]) (use 3 g ds e dt in \<open>auto simp: number_text_def scale_num_def\<close>)
  next
    case 4
    let ?n = "nat (x + 1)"
    have n: "0 < ?n" "?n < length ds" using 4 by auto
    have "digits (take ?n ds)" "digits (drop ?n ds)" using ds(1) by (metis append_take_drop_id digits_simps(3))+
    then show ?thesis
      by (intro scan [of "take ?n ds" "Some (drop ?n ds)" None])
         (use 4 g ds n dt scale_num_lowest [OF ds(5) ez _ lt, of "length ds - ?n" 0] x_def in
          \<open>auto simp: number_text_def hd_take\<close>)
  qed
qed

section \<open>Values\<close>

text \<open>Values with numbers in lowest terms and without a key twice.\<close>

primrec writable :: "val \<Rightarrow> bool" where
  "writable VNil = True"
| "writable (VBool b) = True"
| "writable (VInt i) = True"
| "writable (VFloat m e) = lowest_terms m e"
| "writable (VStr s) = True"
| "writable (VArr xs) = list_all id (map writable xs)"
| "writable (VMap kvs) = (distinct (map fst kvs) \<and> list_all snd (map (map_prod id writable) kvs))"
| "writable VNilMap = True"

definition read_back :: "val \<Rightarrow> val" where
  "read_back v = sorted_val (wire v)"

lemma scan_number_start:
  assumes "scan_number s = Some y"
  shows "\<exists>c t. s = c # t \<and> (is_digit c \<or> c = CHR ''-'')"
proof (cases s)
  case Nil
  then show ?thesis using assms by (simp add: scan_number_def scan_digits_def)
next
  case (Cons c t)
  then show ?thesis using assms by (cases "is_digit c") (auto simp: scan_number_def scan_digits_def split: if_splits)
qed

text \<open>The first character of a value decides how it is parsed.\<close>

lemma parse_number:
  assumes "is_digit c \<or> c = CHR ''-''"
  shows "parse_value (c # s) = scan_number (c # s)"
proof -
  have "c \<noteq> CHR ''{''" "c \<noteq> CHR ''[''" "c \<noteq> CHR 0x22" "c \<noteq> CHR ''t''" "c \<noteq> CHR ''f''" "c \<noteq> CHR ''n''"
    using assms by (auto simp: is_digit_def)
  then show ?thesis by (simp add: hasPrefix_def)
qed

lemma parse_scanned: "scan_number s = Some y \<Longrightarrow> parse_value s = Some y"
  using scan_number_start [of s y] parse_number by metis

definition value_start :: "string \<Rightarrow> bool" where
  "value_start s \<longleftrightarrow> (case s of [] \<Rightarrow> False | c # _ \<Rightarrow> of_char c \<notin> {9 :: nat, 10, 13, 32} \<and> c \<noteq> CHR '']'' \<and> c \<noteq> CHR ''}'')"

lemma value_start_skip: "value_start s \<Longrightarrow> skip_ws (s @ r) = s @ r"
  by (cases s) (auto simp: value_start_def)

lemma scan_itoa:
  assumes "ends_number r"
  shows "scan_number (itoa i @ r) = Some (VFloat i 0, r)"
proof -
  have "length (show_nat (nat \<bar>i\<bar>)) > 1 \<longrightarrow> hd (show_nat (nat \<bar>i\<bar>)) \<noteq> CHR ''0''"
    using hd_show_nat [of "nat \<bar>i\<bar>"] show_nat.simps [of 0] by (cases "i = 0") auto
  from scan_number_text [OF _ _ this, of None r "i < 0" None] assms show ?thesis
    by (auto simp: number_text_def itoa_def scale_num_def)
qed

lemma number_value_start: "ends_number [] \<Longrightarrow> scan_number s = Some y \<Longrightarrow> value_start s"
  using scan_number_start [of s y] by (auto simp: value_start_def is_digit_def)

lemma value_start_json: "writable v \<Longrightarrow> value_start (json_text v)"
proof (cases v)
  case (VInt i)
  then show ?thesis using number_value_start scan_itoa [of "[]" i] by (simp add: ends_number_def)
next
  case (VFloat m e)
  assume "writable v"
  with VFloat show ?thesis using number_value_start scan_float_g [of m e "[]"] by (simp add: ends_number_def)
qed (auto simp: value_start_def quote_def)

lemma parse_elems_text:
  assumes "\<And>v r. v \<in> set xs \<Longrightarrow> ends_number r \<Longrightarrow> parse_value (json_text v @ r) = Some (f v, r)"
    and "\<And>v. v \<in> set xs \<Longrightarrow> value_start (json_text v)" and "xs \<noteq> []"
  shows "parse_elems (join '','' (map json_text xs) @ CHR '']'' # r) = Some (map f xs, r)"
  using assms
proof (induction xs)
  case (Cons x xs)
  note v = Cons.prems(1) [OF list.set_intros(1)] and st = value_start_skip [OF Cons.prems(2) [OF list.set_intros(1)]]
  show ?case
  proof (cases xs)
    case Nil
    then show ?thesis using v [of "CHR '']'' # r"] st by (subst parse_elems.simps) (simp add: ends_number_def is_digit_def)
  next
    case (Cons y ys)
    then have "parse_elems (join '','' (map json_text xs) @ CHR '']'' # r) = Some (map f xs, r)"
      using Cons.IH Cons.prems by simp
    then show ?thesis using v [of "CHR '','' # join '','' (map json_text xs) @ CHR '']'' # r"] st Cons
      by (subst parse_elems.simps) (simp add: ends_number_def is_digit_def)
  qed
qed simp

definition member_text :: "string \<times> val \<Rightarrow> string" where
  "member_text p = quote (fst p) @ '':'' @ json_text (snd p)"

lemma member_start: "skip_ws (member_text p @ r) = member_text p @ r"
  by (simp add: member_text_def quote_def)

lemma parse_members_text:
  assumes "\<And>p r. p \<in> set l \<Longrightarrow> ends_number r \<Longrightarrow> parse_value (json_text (snd p) @ r) = Some (f (snd p), r)"
    and "\<And>p. p \<in> set l \<Longrightarrow> value_start (json_text (snd p))" and "l \<noteq> []"
    and "distinct (map fst l)" "fst ` set l \<inter> fst ` set acc = {}"
  shows "parse_members (join '','' (map member_text l) @ CHR ''}'' # r) acc = Some (acc @ map (map_prod id f) l, r)"
  using assms
proof (induction l arbitrary: acc)
  case (Cons p l)
  obtain k v where p: "p = (k, v)" by (cases p)
  note val = Cons.prems(1) [OF list.set_intros(1), unfolded p snd_conv]
    and st = value_start_skip [OF Cons.prems(2) [OF list.set_intros(1)], unfolded p snd_conv]
  have q: "quote k = CHR 0x22 # tl (quote k)" by (simp add: quote_def)
  have upd: "AList.update k (f v) acc = acc @ [(k, f v)]"
    using Cons.prems(5) p by (intro update_new) (auto simp: image_iff)
  let ?s = "json_text v"
  have mt: "member_text p @ t = CHR 0x22 # tl (quote k) @ CHR '':'' # ?s @ t" for t
    unfolding member_text_def p fst_conv snd_conv by (subst q) simp
  show ?case
  proof (cases l)
    case Nil
    have "join '','' (map member_text (p # l)) @ CHR ''}'' # r = CHR 0x22 # tl (quote k) @ CHR '':'' # ?s @ CHR ''}'' # r"
      using Nil mt [of "CHR ''}'' # r"] by simp
    then show ?thesis using val [of "CHR ''}'' # r"] st [of "CHR ''}'' # r"] upd Nil p
      by (subst parse_members.simps) (simp add: scan_quote ends_number_def is_digit_def)
  next
    case (Cons p' l')
    let ?rest = "join '','' (map member_text l) @ CHR ''}'' # r"
    have ih: "parse_members ?rest (acc @ [(k, f v)]) = Some ((acc @ [(k, f v)]) @ map (map_prod id f) l, r)"
      by (rule Cons.IH) (use Cons.prems Cons p in auto)
    have "join '','' (map member_text (p # l)) @ CHR ''}'' # r = CHR 0x22 # tl (quote k) @ CHR '':'' # ?s @ CHR '','' # ?rest"
      using Cons mt [of "CHR '','' # ?rest"] by simp
    then show ?thesis using val [of "CHR '','' # ?rest"] st [of "CHR '','' # ?rest"] upd ih p
      by (subst parse_members.simps) (simp add: scan_quote ends_number_def is_digit_def)
  qed
qed simp

lemma json_text_VMap:
  "json_text (VMap kvs) = CHR ''{'' # join '','' (map member_text (sort_key fst kvs)) @ ''}''"
proof -
  have "(\<lambda>(k, t). quote k @ CHR '':'' # t) \<circ> map_prod id json_text = member_text"
    by (auto simp: fun_eq_iff member_text_def)
  then show ?thesis by (simp add: sort_key_map_prod)
qed

lemma read_back_simps [simp]:
  "read_back VNil = VNil" "read_back (VBool b) = VBool b" "read_back (VInt i) = VFloat i 0"
  "read_back (VFloat m e) = VFloat m e" "read_back (VStr s) = VStr s" "read_back VNilMap = VNil"
  "read_back (VArr xs) = VArr (map read_back xs)"
  "read_back (VMap kvs) = VMap (map (map_prod id read_back) (sort_key fst kvs))"
proof -
  have "(map_prod id sorted_val \<circ> map_prod id wire :: string \<times> val \<Rightarrow> _) = map_prod id read_back"
    by (auto simp: fun_eq_iff read_back_def)
  then show "read_back (VMap kvs) = VMap (map (map_prod id read_back) (sort_key fst kvs))"
    unfolding read_back_def [of "VMap kvs"] wire.simps sorted_val.simps sort_key_map_prod by (simp only: map_map)
qed (simp_all add: read_back_def)

lemma member_text_start: "l \<noteq> [] \<Longrightarrow> \<exists>t. join '','' (map member_text l) = CHR 0x22 # t"
  by (cases l rule: remdups_adj.cases) (auto simp: member_text_def quote_def)

text \<open>The text of a value, whatever follows it, parses to the value.\<close>

lemma parse_json_text:
  "writable v \<Longrightarrow> ends_number r \<Longrightarrow> parse_value (json_text v @ r) = Some (read_back v, r)"
proof (induction v arbitrary: r)
  case (VInt i)
  show ?case using parse_scanned [OF scan_itoa [OF VInt.prems(2)]] by simp
next
  case (VFloat m e)
  then show ?case using parse_scanned [OF scan_float_g] by simp
next
  case (VStr s)
  have "parse_value (CHR 0x22 # tl (quote s) @ r) = Some (VStr s, r)" by (simp add: scan_quote)
  moreover have "CHR 0x22 # tl (quote s) = quote s" by (simp add: quote_def)
  ultimately show ?case by (metis append_Cons json_text.simps(5) read_back_simps(5))
next
  case (VArr xs)
  have w: "writable v" if "v \<in> set xs" for v using VArr.prems(1) that by (simp add: list_all_iff)
  show ?case
  proof (cases xs)
    case (Cons y ys)
    let ?t = "join '','' (map json_text xs) @ CHR '']'' # r"
    have "parse_elems ?t = Some (map read_back xs, r)"
      by (rule parse_elems_text) (use VArr.IH w value_start_json Cons in auto)
    moreover obtain c s where c: "json_text y = c # s" "of_char c \<notin> {9 :: nat, 10, 13, 32}" "c \<noteq> CHR '']''"
      using value_start_json [OF w [of y]] Cons by (auto simp: value_start_def split: list.splits)
    moreover obtain s' where t: "?t = c # s'" using Cons c(1) by (cases ys) auto
    ultimately have "parse_elems (c # s') = Some (map read_back xs, r)" by simp
    then have "parse_value (CHR ''['' # c # s') = Some (VArr (map read_back xs), r)"
      using c(2,3) by (simp del: parse_elems.simps)
    moreover have "json_text (VArr xs) @ r = CHR ''['' # ?t" by simp
    ultimately show ?thesis unfolding t by simp
  qed simp
next
  case (VMap kvs)
  let ?l = "sort_key fst kvs"
  have w: "writable (snd p)" if "p \<in> set ?l" for p using VMap.prems(1) that by (auto simp: list_all_iff)
  have d: "distinct (map fst ?l)" using VMap.prems(1) by (simp add: distinct_sort_key)
  show ?case
  proof (cases "kvs = []")
    case False
    then have l: "?l \<noteq> []" by (metis length_0_conv length_sort)
    let ?t = "join '','' (map member_text ?l) @ CHR ''}'' # r"
    have "parse_members ?t [] = Some ([] @ map (map_prod id read_back) ?l, r)"
    proof (rule parse_members_text)
      fix p r assume p: "p \<in> set ?l" "ends_number r"
      obtain k v where kv: "p = (k, v)" by (cases p)
      with p(1) have "(k, v) \<in> set kvs" by simp
      from VMap.IH [OF this, of v r] show "parse_value (json_text (snd p) @ r) = Some (read_back (snd p), r)"
        using w [OF p(1)] p(2) kv by simp
    qed (use w value_start_json d l in auto)
    moreover obtain t where "?t = CHR 0x22 # t" using member_text_start [OF l] by auto
    ultimately show ?thesis unfolding json_text_VMap by simp
  next
    case True
    then show ?thesis unfolding json_text_VMap by simp
  qed
qed (auto simp: hasPrefix_def)

lemma json_Unmarshal_text:
  assumes "writable v"
  shows "json_Unmarshal (json_text v) = Inr (read_back v)"
  using parse_json_text [OF assms, of "[]"] value_start_skip [OF value_start_json [OF assms], of "[]"]
  by (simp add: json_Unmarshal_def ends_number_def)

lemma json_Decode_text: "writable v \<Longrightarrow> json_Decode (json_text v) = Inr (read_back v)"
  by (simp add: json_Decode_Unmarshal json_Unmarshal_text)

text \<open>Trailing white space, such as the line feed that ends a response, changes nothing.\<close>

lemma json_Unmarshal_line:
  assumes "writable v"
  shows "json_Unmarshal (json_text v @ [CHR 0x0A]) = Inr (read_back v)"
  using parse_json_text [OF assms, of "[CHR 0x0A]"] value_start_skip [OF value_start_json [OF assms], of "[CHR 0x0A]"]
  by (simp add: json_Unmarshal_def ends_number_def is_digit_def)

section \<open>What is read is what was written\<close>

lemma map_prod_idem: "(\<And>p. p \<in> set kvs \<Longrightarrow> f (f (snd p)) = f (snd p)) \<Longrightarrow>
    map (map_prod id f) (map (map_prod id f) kvs) = map (map_prod id f) kvs"
  by (auto simp: map_prod_def split_beta comp_def)

lemma sorted_val_idem [simp]: "sorted_val (sorted_val v) = sorted_val v"
proof (induction v)
  case (VMap kvs)
  have i: "sorted_val (sorted_val (snd p)) = sorted_val (snd p)" if "p \<in> set kvs" for p
    using VMap.IH [of p "snd p"] that by (cases p) simp
  have "sort_key fst (sort_key fst l) = sort_key fst l" for l :: entries
    by (rule sort_key_id_if_sorted) simp
  then show ?case
    unfolding sorted_val.simps sort_key_map_prod [symmetric] by (simp only: map_prod_idem [OF i] sort_key_map_prod [symmetric])
qed simp_all

lemma DeepEqual_read_back: "DeepEqual (read_back v) (wire v)"
  by (simp add: DeepEqual_def read_back_def)

text \<open>Looking up a key does not depend on the order.\<close>

lemma map_get_read_back:
  assumes "distinct (map fst kvs)"
  shows "map_get (map (map_prod id read_back) (sort_key fst kvs)) k = read_back (map_get kvs k)"
proof -
  have "map_of (map (map_prod id read_back) l) k = map_option read_back (map_of l k)" for l
    by (induction l) auto
  then show ?thesis using map_of_sort_distinct [OF assms] by (simp add: map_get_def split: option.split)
qed

text \<open>The parser only makes writable values, so reading and writing again is stable.\<close>

lemma scan_number_writable:
  assumes "scan_number s = Some (v, t)"
  shows "writable v"
proof -
  have "writable (trim_frac m e)" for m e using trim_frac_lowest [of m e] by auto
  then have "writable (scale_num m f x)" for m f x by (simp add: scale_num_def lowest_terms_def)
  with assms show ?thesis by (auto simp: scan_number_def Let_def split: prod.splits option.splits if_splits)
qed

lemma writable_update:
  "writable (VMap acc) \<Longrightarrow> writable v \<Longrightarrow> writable (VMap (AList.update k v acc))"
proof -
  assume a: "writable (VMap acc)" "writable v"
  have "list_all snd (map (map_prod id writable) (AList.update k v acc))"
    using a by (induction acc) (auto simp: list_all_iff)
  then show ?thesis using a(1) by (simp add: distinct_update)
qed

lemma parse_writable:
  "parse_value s = Some (v, t) \<Longrightarrow> writable v"
  "parse_elems s = Some (vs, t) \<Longrightarrow> writable (VArr vs)"
  "parse_members s acc = Some (kvs, t) \<Longrightarrow> writable (VMap acc) \<Longrightarrow> writable (VMap kvs)"
proof (induction s and s and s acc arbitrary: v t and vs t and kvs t rule: parse_value_parse_elems_parse_members.induct)
  case (2 c s)
  have "list_all id (map writable a)" if "c = CHR ''[''" "skip_ws s = d # r" "d \<noteq> CHR '']''" "length r < length s"
    "parse_elems (d # r) = Some (a, t)" for d r a
    using 2(2) [OF _ that(1,2,3) _ that(5)] that(1,4) by simp
  with 2(3) show ?case
    by (auto split: if_splits list.splits option.splits dest: 2(1) scan_number_writable
        simp del: parse_elems.simps parse_members.simps)
next
  case (3 s)
  from 3(3) obtain v u where v: "parse_value (skip_ws s) = Some (v, u)"
    by (subst (asm) parse_elems.simps) (auto split: option.splits)
  have w: "writable v" by (rule 3(1) [OF v])
  from 3(3) v obtain d r where dr: "skip_ws u = d # r"
    by (subst (asm) parse_elems.simps) (auto split: list.splits)
  show ?case
  proof (cases "d = CHR '']''")
    case True
    then show ?thesis using 3(3) v dr w by (subst (asm) parse_elems.simps) auto
  next
    case False
    then obtain vs' where vs: "d = CHR '','' \<and> length r < length s" "parse_elems r = Some (vs', t)" "vs = v # vs'"
      using 3(3) v dr by (subst (asm) parse_elems.simps) (auto split: if_splits)
    from 3(2) [OF v _ dr False vs(1,2)] show ?thesis using w vs(3) by simp
  qed
next
  case (4 s acc)
  from 4(3) obtain q u where q: "skip_ws s = q # u" "\<not> q \<noteq> CHR 0x22"
    by (subst (asm) parse_members.simps) (auto split: list.splits if_splits)
  from 4(3) q obtain k u1 where k: "scan_string u = Some (k, u1)"
    by (subst (asm) parse_members.simps) (auto split: option.splits)
  from 4(3) q k obtain d u2 where d: "skip_ws u1 = d # u2" "\<not> (d \<noteq> CHR '':'' \<or> length u2 \<ge> length s)"
    by (subst (asm) parse_members.simps) (auto split: list.splits if_splits)
  from 4(3) q k d obtain v u3 where v: "parse_value (skip_ws u2) = Some (v, u3)"
    by (subst (asm) parse_members.simps) (auto split: option.splits)
  from 4(3) q k d v obtain e r where e: "skip_ws u3 = e # r"
    by (subst (asm) parse_members.simps) (auto split: list.splits)
  have w: "writable (VMap (AList.update k v acc))"
    using writable_update [OF 4(4)] 4(1) [OF q(1,2) k _ d(1,2) v] by simp
  show ?case
  proof (cases "e = CHR ''}''")
    case True
    then show ?thesis using 4(3) q k d v e w by (subst (asm) parse_members.simps) auto
  next
    case False
    then have r: "e = CHR '','' \<and> length r < length s" "parse_members r (AList.update k v acc) = Some (kvs, t)"
      using 4(3) q k d v e by (subst (asm) parse_members.simps, auto split: if_splits)+
    show ?thesis by (rule 4(2) [OF q(1,2) k _ d(1,2) v _ e False r w]) simp_all
  qed
qed simp

end
