(* ===== verification/Startups.thy ===== *)
theory Startups
  imports Kits JsonRound
begin

text \<open>
  \<open>Kit.makeIndices\<close> (\<open>workflow/Kit.go\<close>), by which a service that does not mock gets its indices:
  for every alias it runs the scripts of the directory \<open>db\<close> that belong to it, opens the index,
  and compares the mapping the last script declares with the one the index has. What it calls
  outside the program (the file system, the shell, Elasticsearch) is a parameter.
\<close>

section \<open>The outside\<close>

record ('w, 'h) host =
  ho_Getwd :: "string + string"
  ho_GetURL :: "string + string"
  ho_ReadDir :: "string \<Rightarrow> string + string list"
  ho_bash :: "string list \<Rightarrow> ('w, string + string) go"
  ho_NewIndex :: "string \<Rightarrow> ('w, string + 'h) go"
  ho_GetMapping :: "'h \<Rightarrow> string \<Rightarrow> ('w, string + val) go"

section \<open>Which script belongs to which alias\<close>

definition keyToPattern :: "(string \<times> string) list" where
  "keyToPattern = [(''eventtypes'', ''EventType''), (''events'', ''Event''), (''triggers'', ''Trigger''),
     (''alerts'', ''Alert''), (''crons'', ''Cron''), (''testElasticsearch'', ''TestES'')]"

definition keyToType :: "(string \<times> string) list" where
  "keyToType = [(''eventtypes'', EventTypeDBMapping), (''events'', EventDBMapping),
     (''triggers'', TriggerDBMapping), (''alerts'', AlertDBMapping), (''crons'', CronDBMapping),
     (''testElasticsearch'', TestElasticsearchMapping)]"

text \<open>
  The regular expression \<open>^[0-9]{3}-P.sh$\<close>. Its dot is not escaped: it stands for any
  character but a line feed.
\<close>

definition script_matches :: "string \<Rightarrow> string \<Rightarrow> bool" where
  "script_matches pattern name \<longleftrightarrow>
     (let rest = drop 3 name; suffix = drop (Suc (length pattern)) rest
      in length (take 3 name) = 3 \<and> list_all is_digit (take 3 name) \<and> hasPrefix rest (CHR ''-'' # pattern) \<and>
         suffix \<noteq> [] \<and> hd suffix \<noteq> CHR 0x0A \<and> tl suffix = ''sh'')"

text \<open>The names of the directory that match, appended one by one and then sorted.\<close>

definition scripts_of :: "string list \<Rightarrow> string \<Rightarrow> string list" where
  "scripts_of files pattern = sort (filter (script_matches pattern) files)"

section \<open>The output of a script\<close>

text \<open>\<open>re.ReplaceAllString\<close> with \<open>\r?\n?\t\<close>.\<close>

fun strip_tabs :: "string \<Rightarrow> string" where
  "strip_tabs s = (case s of [] \<Rightarrow> []
     | c # s' \<Rightarrow>
         if c = CHR 0x09 then strip_tabs s'
         else if c = CHR 0x0A \<and> hasPrefix s' [CHR 0x09] then strip_tabs (drop 1 s')
         else if c = CHR 0x0D \<and> hasPrefix s' [CHR 0x09] then strip_tabs (drop 1 s')
         else if c = CHR 0x0D \<and> hasPrefix s' [CHR 0x0A, CHR 0x09] then strip_tabs (drop 2 s')
         else c # strip_tabs s')"

declare strip_tabs.simps [simp del]

text \<open>The rest after the first occurrence of a separator (\<open>strings.SplitN\<close> with 2).\<close>

primrec cut_after :: "string \<Rightarrow> string \<Rightarrow> string option" where
  "cut_after sep [] = None"
| "cut_after sep (c # s) = (if hasPrefix (c # s) sep then Some (drop (length sep) (c # s)) else cut_after sep s)"

definition TrimPrefix :: "string \<Rightarrow> string \<Rightarrow> string" where
  "TrimPrefix s p = (if hasPrefix s p then drop (length p) s else s)"

definition splitStr :: string where
  "splitStr = ''{'' @ dquoted ''status'' @ '':''"

definition format_output :: "string \<Rightarrow> string" where
  "format_output dat =
     (let text = TrimPrefix (strip_tabs dat) [CHR 0xEF, CHR 0xBB, CHR 0xBF]
      in splitStr @ (case cut_after splitStr text of None \<Rightarrow> text | Some rest \<Rightarrow> rest))"

record scriptRes =
  sc_Status :: string
  sc_Message :: string
  sc_Mapping :: string

definition dec_scriptRes :: "val \<Rightarrow> string + scriptRes" where
  "dec_scriptRes v =
     sbind (obj_fields v) (\<lambda>f.
     sbind (str_field f ''status'') (\<lambda>s.
     sbind (str_field f ''message'') (\<lambda>m.
     sbind (str_field f ''mapping'') (\<lambda>p.
     Inr \<lparr>sc_Status = s, sc_Message = m, sc_Mapping = p\<rparr>))))"

section \<open>makeIndices\<close>

text \<open>
  A result \<open>Inl m\<close> means that \<open>log.Fatal\<close> has ended the process with the message \<open>m\<close>. The order
  in which the aliases are visited is Go's over a map, a parameter.
\<close>

definition schema_error :: "string \<Rightarrow> string \<Rightarrow> string \<Rightarrow> string" where
  "schema_error alias typ what = ''Schema ['' @ typ @ ''] on alias ['' @ alias @ ''] '' @ what @ [CHR 0x0A]"

definition type_of_alias :: "string \<Rightarrow> string" where
  "type_of_alias alias = (case map_of keyToType alias of None \<Rightarrow> [] | Some t \<Rightarrow> t)"

definition check_mapping :: "('w, 'h) host \<Rightarrow> 'h \<Rightarrow> string \<Rightarrow> string \<Rightarrow> ('w, string + unit) go" where
  "check_mapping H ix alias declared =
     (case json_Unmarshal declared of Inl e \<Rightarrow> ret (Inl e)
      | Inr declaredVal \<Rightarrow> (case as_map declaredVal of
          None \<Rightarrow> ret (Inl (schema_error alias (type_of_alias alias) ''in script is not type map[string]interface{}''))
        | Some scriptMap \<Rightarrow> bnd (ho_GetMapping H ix (type_of_alias alias)) (\<lambda>r. case r of
            Inl e \<Rightarrow> ret (Inl e)
          | Inr esVal \<Rightarrow> (case as_map esVal of
              None \<Rightarrow> ret (Inl (schema_error alias (type_of_alias alias)
                ''on elasticsearch is not type map[string]interface{}''))
            | Some esMap \<Rightarrow>
                if DeepEqual (of_gomap scriptMap) (of_gomap esMap) then ret (Inr ())
                else ret (Inl (schema_error alias (type_of_alias alias)
                  ''on elasticsearch does not match the mapping provided''))))))"

definition run_script :: "('w, 'h) host \<Rightarrow> string \<Rightarrow> string \<Rightarrow> string \<Rightarrow> string \<Rightarrow> bool \<Rightarrow> ('w, string + 'h) go" where
  "run_script H pwd esURL alias script is_last =
     bnd (ho_bash H [pwd @ ''/db/'' @ script, alias, esURL]) (\<lambda>out. case out of
       Inl e \<Rightarrow> ret (Inl e)
     | Inr outDat \<Rightarrow> (case sbind (json_Unmarshal (format_output outDat)) dec_scriptRes of
         Inl e \<Rightarrow> ret (Inl (e @ '' '' @ CHR 0x0A # ''Output: '' @ outDat))
       | Inr res \<Rightarrow>
           if sc_Status res \<noteq> ''success'' then ret (Inl (''Script failed: ['' @ sc_Message res @ '']'' @ [CHR 0x0A]))
           else bnd (ho_NewIndex H alias) (\<lambda>r. case r of
             Inl e \<Rightarrow> ret (Inl e)
           | Inr ix \<Rightarrow>
               if sc_Mapping res \<noteq> [] \<and> is_last
               then bnd (check_mapping H ix alias (sc_Mapping res)) (\<lambda>c. case c of
                 Inl e \<Rightarrow> ret (Inl e) | Inr _ \<Rightarrow> ret (Inr ix))
               else ret (Inr ix))))"

primrec run_scripts :: "('w, 'h) host \<Rightarrow> string \<Rightarrow> string \<Rightarrow> string \<Rightarrow> string list \<Rightarrow> 'h option \<Rightarrow>
    ('w, string + 'h option) go" where
  "run_scripts H pwd esURL alias [] ix = ret (Inr ix)"
| "run_scripts H pwd esURL alias (s # ss) ix =
     bnd (run_script H pwd esURL alias s (ss = [])) (\<lambda>r. case r of
       Inl e \<Rightarrow> ret (Inl e)
     | Inr ix' \<Rightarrow> run_scripts H pwd esURL alias ss (Some ix'))"

definition alias_scripts :: "string list \<Rightarrow> string \<Rightarrow> string list" where
  "alias_scripts files alias = (case map_of keyToPattern alias of None \<Rightarrow> []
     | Some pattern \<Rightarrow> scripts_of files pattern)"

text \<open>An alias without a script gets no index: looking it up later gives a nil interface.\<close>

primrec run_aliases :: "('w, 'h) host \<Rightarrow> string \<Rightarrow> string \<Rightarrow> string list \<Rightarrow> string list \<Rightarrow>
    ('w, string + (string \<times> 'h) list) go" where
  "run_aliases H pwd esURL files [] = ret (Inr [])"
| "run_aliases H pwd esURL files (alias # order) =
     bnd (run_scripts H pwd esURL alias (alias_scripts files alias) None) (\<lambda>r. case r of
       Inl e \<Rightarrow> ret (Inl e)
     | Inr ix \<Rightarrow> bnd (run_aliases H pwd esURL files order) (\<lambda>r. case r of
         Inl e \<Rightarrow> ret (Inl e)
       | Inr rest \<Rightarrow> ret (Inr (case ix of None \<Rightarrow> rest | Some h \<Rightarrow> (alias, h) # rest))))"

definition makeIndices :: "('w, 'h) host \<Rightarrow> string list \<Rightarrow> ('w, string + (string \<times> 'h) list) go" where
  "makeIndices H order =
     (case ho_Getwd H of Inl e \<Rightarrow> ret (Inl e)
      | Inr pwd \<Rightarrow> (case ho_GetURL H of Inl e \<Rightarrow> ret (Inl e)
        | Inr esURL \<Rightarrow> (case ho_ReadDir H (pwd @ ''/db/'') of Inl e \<Rightarrow> ret (Inl e)
          | Inr files \<Rightarrow> run_aliases H pwd esURL files order)))"

section \<open>The scripts of the repository\<close>

text \<open>The scripts of the repository: each alias has exactly its own.\<close>

definition db_files :: "string list" where
  "db_files = [''000-Alert.sh'', ''000-Cron.sh'', ''000-Event.sh'', ''000-EventType.sh'', ''000-TestES.sh'',
     ''000-Trigger.sh'', ''CreateIndex.sh'']"

lemma db_scripts: "\<forall>(alias, pattern) \<in> set keyToPattern. alias_scripts db_files alias = [''000-'' @ pattern @ ''.sh'']"
  by code_simp

section \<open>When it succeeds\<close>

text \<open>A host that answers the same whenever it is asked.\<close>

definition steady :: "('w, 'h) host \<Rightarrow> (string list \<Rightarrow> string + string) \<Rightarrow> (string \<Rightarrow> string + 'h) \<Rightarrow>
    ('h \<Rightarrow> string \<Rightarrow> string + val) \<Rightarrow> bool" where
  "steady H outputs handles maps \<longleftrightarrow> (\<forall>args w. ho_bash H args w = (Ret (outputs args), w)) \<and>
     (\<forall>alias w. ho_NewIndex H alias w = (Ret (handles alias), w)) \<and>
     (\<forall>h typ w. ho_GetMapping H h typ w = (Ret (maps h typ), w))"

definition declares :: "(string list \<Rightarrow> string + string) \<Rightarrow> string list \<Rightarrow> string + scriptRes" where
  "declares outputs args = sbind (outputs args) (\<lambda>out. sbind (json_Unmarshal (format_output out)) dec_scriptRes)"

text \<open>What a script has to declare, and which mapping the index has to have.\<close>

definition mapping_agrees :: "('h \<Rightarrow> string \<Rightarrow> string + val) \<Rightarrow> 'h \<Rightarrow> string \<Rightarrow> string \<Rightarrow> bool" where
  "mapping_agrees maps h alias declared \<longleftrightarrow> (\<exists>v m v' m'. json_Unmarshal declared = Inr v \<and> as_map v = Some m \<and>
     maps h (type_of_alias alias) = Inr v' \<and> as_map v' = Some m' \<and> DeepEqual (of_gomap m) (of_gomap m'))"

definition script_ok :: "(string list \<Rightarrow> string + string) \<Rightarrow> (string \<Rightarrow> string + 'h) \<Rightarrow>
    ('h \<Rightarrow> string \<Rightarrow> string + val) \<Rightarrow> string \<Rightarrow> string \<Rightarrow> string \<Rightarrow> bool \<Rightarrow> string \<Rightarrow> bool" where
  "script_ok outputs handles maps pwd esURL alias is_last script \<longleftrightarrow>
     (\<exists>res h. declares outputs [pwd @ ''/db/'' @ script, alias, esURL] = Inr res \<and> sc_Status res = ''success'' \<and>
        handles alias = Inr h \<and> (is_last \<and> sc_Mapping res \<noteq> [] \<longrightarrow> mapping_agrees maps h alias (sc_Mapping res)))"

definition alias_ok :: "(string list \<Rightarrow> string + string) \<Rightarrow> (string \<Rightarrow> string + 'h) \<Rightarrow>
    ('h \<Rightarrow> string \<Rightarrow> string + val) \<Rightarrow> string \<Rightarrow> string \<Rightarrow> string \<Rightarrow> string list \<Rightarrow> bool" where
  "alias_ok outputs handles maps pwd esURL alias scripts \<longleftrightarrow>
     (\<forall>s \<in> set (butlast scripts). script_ok outputs handles maps pwd esURL alias False s) \<and>
     (scripts \<noteq> [] \<longrightarrow> script_ok outputs handles maps pwd esURL alias True (last scripts))"

lemma check_mapping_steady:
  assumes "steady H outputs handles maps"
  shows "\<exists>r. check_mapping H h alias declared w = (Ret r, w) \<and> (r = Inr () \<longleftrightarrow> mapping_agrees maps h alias declared)"
  using assms
  by (auto simp: check_mapping_def mapping_agrees_def steady_def bnd_def ret_def split: sum.splits option.splits)

lemma run_script_steady:
  assumes st: "steady H outputs handles maps"
  shows "\<exists>r. run_script H pwd esURL alias s l w = (Ret r, w) \<and>
    (isl r \<longleftrightarrow> \<not> script_ok outputs handles maps pwd esURL alias l s) \<and> (\<forall>h. r = Inr h \<longrightarrow> handles alias = Inr h)"
proof -
  obtain chk where chk: "\<And>h d. check_mapping H h alias d w = (Ret (chk h d), w)"
    "\<And>h d. chk h d = Inr () \<longleftrightarrow> mapping_agrees maps h alias d"
    using check_mapping_steady [OF st, of _ "alias" _ w] by metis
  have "chk h d = Inl e \<Longrightarrow> \<not> mapping_agrees maps h alias d" "chk h d = Inr u \<Longrightarrow> mapping_agrees maps h alias d" for h d e u
    using chk(2) [of h d] by auto
  with chk(1) st show ?thesis
    by (auto simp: run_script_def script_ok_def declares_def steady_def bnd_def ret_def sbind_def split: sum.splits)
qed

lemma run_scripts_steady:
  assumes st: "steady H outputs handles maps"
  shows "\<exists>r. run_scripts H pwd esURL alias ss ix w = (Ret r, w) \<and>
    (isl r \<longleftrightarrow> \<not> alias_ok outputs handles maps pwd esURL alias ss) \<and>
    (\<forall>h. r = Inr h \<longrightarrow> (if ss = [] then h = ix else \<exists>i. h = Some i \<and> handles alias = Inr i))"
proof (induction ss arbitrary: ix)
  case Nil
  then show ?case by (simp add: ret_def alias_ok_def)
next
  case (Cons s ss)
  obtain r where r: "run_script H pwd esURL alias s (ss = []) w = (Ret r, w)"
    "isl r \<longleftrightarrow> \<not> script_ok outputs handles maps pwd esURL alias (ss = []) s" "\<And>h. r = Inr h \<Longrightarrow> handles alias = Inr h"
    using run_script_steady [OF st] by blast
  have ok: "alias_ok outputs handles maps pwd esURL alias (s # ss) \<longleftrightarrow>
      script_ok outputs handles maps pwd esURL alias (ss = []) s \<and> alias_ok outputs handles maps pwd esURL alias ss"
    by (auto simp: alias_ok_def)
  show ?case
  proof (cases r)
    case (Inl e)
    then show ?thesis using r ok by (simp add: bnd_def ret_def)
  next
    case (Inr h)
    then show ?thesis using r(1,2) r(3) [OF Inr] ok Cons.IH [of "Some h"] by (auto simp: bnd_def split: if_splits)
  qed
qed

lemma run_aliases_steady:
  assumes st: "steady H outputs handles maps"
  shows "\<exists>r. run_aliases H pwd esURL files order w = (Ret r, w) \<and>
    (isl r \<longleftrightarrow> \<not> (\<forall>a \<in> set order. alias_ok outputs handles maps pwd esURL a (alias_scripts files a))) \<and>
    (\<forall>ixs. r = Inr ixs \<longrightarrow> map fst ixs = filter (\<lambda>a. alias_scripts files a \<noteq> []) order \<and>
       (\<forall>(a, h) \<in> set ixs. handles a = Inr h))"
proof (induction order)
  case Nil
  then show ?case by (simp add: ret_def)
next
  case (Cons a order)
  obtain r where r: "run_scripts H pwd esURL a (alias_scripts files a) None w = (Ret r, w)"
    "isl r \<longleftrightarrow> \<not> alias_ok outputs handles maps pwd esURL a (alias_scripts files a)"
    "\<And>h. r = Inr h \<Longrightarrow> if alias_scripts files a = [] then h = None else \<exists>i. h = Some i \<and> handles a = Inr i"
    using run_scripts_steady [OF st] by metis
  from Cons.IH obtain q where q: "run_aliases H pwd esURL files order w = (Ret q, w)"
    "isl q \<longleftrightarrow> \<not> (\<forall>a \<in> set order. alias_ok outputs handles maps pwd esURL a (alias_scripts files a))"
    "\<forall>ixs. q = Inr ixs \<longrightarrow> map fst ixs = filter (\<lambda>a. alias_scripts files a \<noteq> []) order \<and>
       (\<forall>(a, h) \<in> set ixs. handles a = Inr h)" by (elim exE conjE)
  show ?case
  proof (cases r)
    case (Inl e)
    then show ?thesis using r by (simp add: bnd_def ret_def)
  next
    case (Inr h)
    have ok: "alias_ok outputs handles maps pwd esURL a (alias_scripts files a)" using r(2) Inr by simp
    show ?thesis
    proof (cases q)
      case (Inl e)
      then show ?thesis using r(1) q(1,2) \<open>r = Inr h\<close> ok by (simp add: bnd_def ret_def)
    next
      case (Inr ixs)
      let ?rest = "case h of None \<Rightarrow> ixs | Some i \<Rightarrow> (a, i) # ixs"
      have "run_aliases H pwd esURL files (a # order) w = (Ret (Inr ?rest), w)"
        using r(1) q(1) \<open>r = Inr h\<close> Inr by (simp add: bnd_def ret_def)
      moreover have "map fst ?rest = filter (\<lambda>a. alias_scripts files a \<noteq> []) (a # order)"
        "\<forall>(a, h) \<in> set ?rest. handles a = Inr h"
        using r(3) [OF \<open>r = Inr h\<close>] q(3) [rule_format, OF Inr] by (auto split: if_splits)
      ultimately show ?thesis using q(2) Inr ok by simp
    qed
  qed
qed

text \<open>
  So with such a host \<open>makeIndices\<close> ends the process exactly if some script fails, its index does
  not open, or the mapping that the last script of an alias declares is not the index's.
\<close>

lemma makeIndices_steady:
  assumes "steady H outputs handles maps" "ho_Getwd H = Inr pwd" "ho_GetURL H = Inr esURL"
    "ho_ReadDir H (pwd @ ''/db/'') = Inr files"
  shows "\<exists>r. makeIndices H order w = (Ret r, w) \<and>
    (isl r \<longleftrightarrow> \<not> (\<forall>a \<in> set order. alias_ok outputs handles maps pwd esURL a (alias_scripts files a))) \<and>
    (\<forall>ixs. r = Inr ixs \<longrightarrow> map fst ixs = filter (\<lambda>a. alias_scripts files a \<noteq> []) order \<and>
       (\<forall>(a, h) \<in> set ixs. handles a = Inr h))"
  using run_aliases_steady [OF assms(1)] assms(2-4) by (simp add: makeIndices_def)

section \<open>The service's main function\<close>

text \<open>
  \<open>main\<close> and \<open>makeClients\<close> (\<open>src/main.go\<close>): the configuration, the logger's index and the writers,
  the environment variable \<open>PZ_PEN\<close>, and the listening server are parameters. \<open>Inl m\<close> is the
  message with which \<open>log.Fatal\<close> ends the process.
\<close>

definition makeClients :: "(string list \<Rightarrow> string + 's) \<Rightarrow> string + string \<Rightarrow> ('s \<Rightarrow> string \<Rightarrow> string + 'l) \<Rightarrow>
    string + 's \<times> 'l" where
  "makeClients newSystemConfig requiredEnvVars requiredWriters =
     sbind (newSystemConfig [''pz-elasticsearch'', ''pz-rabbitmq'']) (\<lambda>sys.
     sbind requiredEnvVars (\<lambda>loggerIndex.
     sbind (requiredWriters sys loggerIndex) (\<lambda>writers. Inr (sys, writers))))"

definition service_main :: "('c \<Rightarrow> 'x env) \<Rightarrow> (string \<Rightarrow> err outcome) \<Rightarrow> (string \<Rightarrow> ('x world, bool) go) \<Rightarrow>
    string \<Rightarrow> string + 'c \<Rightarrow> string \<Rightarrow> ('x world, string + unit) go" where
  "service_main env_of listen probe bindTo clients pen =
     (case clients of Inl e \<Rightarrow> ret (Inl e)
      | Inr c \<Rightarrow> if pen = [] then ret (Inl ''Environment Variable PZ_PEN not found'')
          else bnd (NewKit (env_of c) False) (\<lambda>err. case err of
            Some e \<Rightarrow> ret (Inl e)
          | None \<Rightarrow> bnd (Kit_Start listen probe ''pz-workflow'' bindTo) (\<lambda>(chan_done, err). case err of
              Some e \<Rightarrow> ret (Inl e)
            | None \<Rightarrow> bnd (Kit_Wait chan_done) (\<lambda>err. case err of Some e \<Rightarrow> ret (Inl e) | None \<Rightarrow> ret (Inr ())))))"

text \<open>The process only reaches its server over a kit that was made, and ends well only after it.\<close>

lemma service_main_Inr:
  assumes "service_main env_of listen probe bindTo clients pen w = (Ret (Inr ()), w')"
  shows "\<exists>c w1 r. clients = Inr c \<and> pen \<noteq> [] \<and> NewKit (env_of c) False w = (Ret None, w1) \<and>
    Kit_Start listen probe ''pz-workflow'' bindTo w1 = (Ret (r, None), w') \<and> Kit_Wait r w' = (Ret None, w')"
  using assms
  by (auto simp: service_main_def Kit_Wait_def lift_def bnd_def ret_def split: sum.splits if_splits option.splits prod.splits outcome.splits)

end
