(* ===== verification/Remote.thy ===== *)
theory Remote
  imports Clients JsonRound AlertStore
begin

text \<open>
  The client library over the server: how a call of \<open>Http.PzGet\<close> and its kin
  (\<open>pz-gocommon/gocommon/http.go\<close>) becomes a request, what the server writes, and what the client
  makes of it. The network is taken to deliver what is sent; a panic of the server, which has no
  recovery of its own, breaks the connection.
\<close>

section \<open>Requests\<close>

text \<open>\<open>net/url\<close>: percent escapes, and \<open>+\<close> for a space in a query.\<close>

fun url_unescape :: "bool \<Rightarrow> string \<Rightarrow> string option" where
  "url_unescape in_query [] = Some []"
| "url_unescape in_query (c # s) =
     (if c = CHR ''%'' then (case s of
          a # b # r \<Rightarrow> (case (hex_val a, hex_val b) of
            (Some x, Some y) \<Rightarrow> map_option (Cons (char_of (x * 16 + y))) (url_unescape in_query r)
          | _ \<Rightarrow> None)
        | _ \<Rightarrow> None)
      else if in_query \<and> c = CHR ''+'' then map_option (Cons CHR '' '') (url_unescape in_query s)
      else map_option (Cons c) (url_unescape in_query s))"

definition split_at :: "char \<Rightarrow> string \<Rightarrow> string \<times> string" where
  "split_at c s = (takeWhile (\<lambda>x. x \<noteq> c) s, drop 1 (dropWhile (\<lambda>x. x \<noteq> c) s))"

text \<open>\<open>url.Query()\<close>: pairs that do not unescape are left out.\<close>

definition add_pair :: "string \<Rightarrow> (string \<times> string list) list \<Rightarrow> (string \<times> string list) list" where
  "add_pair piece m = (case split_at CHR ''='' piece of (k, v) \<Rightarrow>
     (case (url_unescape True k, url_unescape True v) of
        (Some k', Some v') \<Rightarrow> AList.update k' ((case map_of m k' of None \<Rightarrow> [] | Some vs \<Rightarrow> vs) @ [v']) m
      | _ \<Rightarrow> m))"

definition parse_query :: "string \<Rightarrow> (string \<times> string list) list" where
  "parse_query s = fold add_pair (fieldsFunc (\<lambda>c. c = CHR ''&'' \<or> c = CHR '';'') s) []"

definition http_request :: "string \<Rightarrow> string \<Rightarrow> val option \<Rightarrow> string + httpRequest" where
  "http_request verb endpoint input = (case split_at CHR ''?'' (fst (split_at CHR ''#'' endpoint)) of (path, query) \<Rightarrow>
     (case url_unescape False path of
        None \<Rightarrow> Inl ''invalid URL escape''
      | Some p \<Rightarrow> Inr \<lparr>rq_verb = verb, rq_path = p, rq_query = parse_query query,
          rq_body = (case input of None \<Rightarrow> [] | Some v \<Rightarrow> json_text v)\<rparr>))"

section \<open>Responses\<close>

text \<open>
  The JSON of a response by the tags of its struct; \<open>omitempty\<close> leaves out what is empty. (The
  members are written in the order of their keys; no reader can tell.)
\<close>

definition enc_stats :: "stats \<Rightarrow> val" where
  "enc_stats t = VMap [(''createdOn'', VStr (st_CreatedOn t)), (''numEventTypes'', VInt (NumEventTypes t)),
     (''numEvents'', VInt (NumEvents t)), (''numTriggers'', VInt (NumTriggers t)), (''numAlerts'', VInt (NumAlerts t)),
     (''numTriggeredJobs'', VInt (NumTriggeredJobs t))]"

definition enc_alertExt :: "alertExt \<Rightarrow> val" where
  "enc_alertExt a = VMap [(''alertId'', VStr (ax_AlertID a)), (''trigger'', enc_trigger (ax_Trigger a)),
     (''event'', enc_event (ax_Event a)), (''jobId'', VStr (ax_JobID a)), (''createdBy'', VStr (ax_CreatedBy a)),
     (''createdOn'', VStr (ax_CreatedOn a))]"

definition enc_payload :: "payload \<Rightarrow> val" where
  "enc_payload p = (case p of
     PNil \<Rightarrow> VNil | PString s \<Rightarrow> VStr s | PInt i \<Rightarrow> VInt i | PVersion v \<Rightarrow> VMap [(''Version'', VStr v)]
   | PStats t \<Rightarrow> enc_stats t
   | PEventType x \<Rightarrow> enc_eventType x | PEventTypes xs \<Rightarrow> VArr (map enc_eventType xs)
   | PEvent x \<Rightarrow> enc_event x | PEvents xs \<Rightarrow> VArr (map enc_event xs)
   | PTrigger x \<Rightarrow> enc_trigger x | PTriggers xs \<Rightarrow> VArr (map enc_trigger xs)
   | PAlert x \<Rightarrow> enc_alert x | PAlerts xs \<Rightarrow> VArr (map enc_alert xs)
   | PAlertExts xs \<Rightarrow> VArr (map enc_alertExt xs)
   | PTestBody b \<Rightarrow> enc_testBody b)"

definition enc_pagination :: "jsonPagination \<Rightarrow> val" where
  "enc_pagination p = VMap [(''count'', VInt (Count p)), (''page'', VInt (Page p)), (''perPage'', VInt (PerPage p)),
     (''sortBy'', VStr (SortBy p)), (''order'', VStr (sortOrder_text (Order p)))]"

definition response_fields :: "jsonResponse \<Rightarrow> entries" where
  "response_fields r = [(''statusCode'', VInt (StatusCode r))] @
     (if resp_Type r = [] then [] else [(''type'', VStr (resp_Type r))]) @
     (if Data r = PNil then [] else [(''data'', enc_payload (Data r))]) @
     (case Pagination r of None \<Rightarrow> [] | Some p \<Rightarrow> [(''pagination'', enc_pagination p)]) @
     (if Message r = [] then [] else [(''message'', VStr (Message r))]) @
     (if Origin r = [] then [] else [(''origin'', VStr (Origin r))])"

definition enc_response :: "jsonResponse \<Rightarrow> val" where
  "enc_response r = VMap (response_fields r)"

text \<open>What the client decodes.\<close>

definition dec_count :: "val \<Rightarrow> string + int option" where
  "dec_count v = (if v = VNil then Inr None else
     sbind (obj_fields v) (\<lambda>f.
     sbind (int_field f ''count'') (\<lambda>n.
     sbind (int_field f ''page'') (\<lambda>_.
     sbind (int_field f ''perPage'') (\<lambda>_.
     sbind (str_field f ''sortBy'') (\<lambda>_.
     sbind (str_field f ''order'') (\<lambda>_. Inr (Some n))))))))"

definition dec_response :: "int \<Rightarrow> val \<Rightarrow> string + pzResponse" where
  "dec_response code v =
     sbind (obj_fields v) (\<lambda>f.
     sbind (int_field f ''statusCode'') (\<lambda>_.
     sbind (str_field f ''type'') (\<lambda>_.
     sbind (dec_count (map_get f ''pagination'')) (\<lambda>n.
     sbind (str_field f ''message'') (\<lambda>m.
     sbind (str_field f ''origin'') (\<lambda>_.
     Inr \<lparr>pz_StatusCode = code, pz_Data = map_get f ''data'', pz_Count = n, pz_Message = m\<rparr>))))))"

definition pz_failure :: "string \<Rightarrow> pzResponse" where
  "pz_failure e = \<lparr>pz_StatusCode = 500, pz_Data = VNil, pz_Count = None, pz_Message = e\<rparr>"

definition read_response :: "int \<Rightarrow> string \<Rightarrow> pzResponse" where
  "read_response code body = (case sbind (json_Unmarshal body) (dec_response code) of
     Inl e \<Rightarrow> pz_failure e | Inr r \<Rightarrow> r)"

section \<open>The server as a transport\<close>

text \<open>The page of gin for an unknown route is plain text.\<close>

definition response_body :: "'x env \<Rightarrow> httpRequest \<Rightarrow> jsonResponse \<Rightarrow> string" where
  "response_body E rq r = (if find_route E (rq_verb rq) (rq_path rq) = None then ''404 page not found''
     else json_text (enc_response r) @ [CHR 0x0A])"

definition server_transport :: "'x env \<Rightarrow> 'x world transport" where
  "server_transport E verb endpoint input = (case http_request verb endpoint input of
     Inl e \<Rightarrow> ret (pz_failure e)
   | Inr rq \<Rightarrow> (\<lambda>w. case Server_serve E rq w of
       (Ret r, w') \<Rightarrow> (Ret (read_response (StatusCode r) (response_body E rq r)), w')
     | (Panic e, w') \<Rightarrow> (Ret (pz_failure ''EOF''), w')
     | (Hang, w') \<Rightarrow> (Hang, w')))"

section \<open>What the client reads\<close>

definition paged_ok :: "jsonResponse \<Rightarrow> bool" where
  "paged_ok r \<longleftrightarrow> (case Pagination r of None \<Rightarrow> True
     | Some p \<Rightarrow> in_int64 (Count p) \<and> in_int64 (Page p) \<and> in_int64 (PerPage p))"

definition received :: "jsonResponse \<Rightarrow> pzResponse" where
  "received r = \<lparr>pz_StatusCode = StatusCode r, pz_Data = (if Data r = PNil then VNil else read_back (enc_payload (Data r))),
     pz_Count = map_option Count (Pagination r), pz_Message = Message r\<rparr>"

lemma distinct_response_fields: "distinct (map fst (response_fields r))"
  by (simp add: response_fields_def split: option.split)

lemma writable_response: "writable (enc_payload (Data r)) \<Longrightarrow> writable (enc_response r)"
  using distinct_response_fields [of r]
  by (auto simp: enc_response_def response_fields_def enc_pagination_def split: option.splits)

lemma read_response_text:
  assumes "writable (enc_payload (Data r))" "in_int64 (StatusCode r)" "paged_ok r"
  shows "read_response (StatusCode r) (json_text (enc_response r) @ [CHR 0x0A]) = received r"
proof -
  let ?f = "map (map_prod id read_back) (sort_key fst (response_fields r))"
  have g: "map_get ?f k = read_back (map_get (response_fields r) k)" for k
    by (rule map_get_read_back [OF distinct_response_fields])
  have f: "map_get (response_fields r) ''statusCode'' = VInt (StatusCode r)"
    "map_get (response_fields r) ''type'' = (if resp_Type r = [] then VNil else VStr (resp_Type r))"
    "map_get (response_fields r) ''data'' = (if Data r = PNil then VNil else enc_payload (Data r))"
    "map_get (response_fields r) ''pagination'' = (case Pagination r of None \<Rightarrow> VNil | Some p \<Rightarrow> enc_pagination p)"
    "map_get (response_fields r) ''message'' = (if Message r = [] then VNil else VStr (Message r))"
    "map_get (response_fields r) ''origin'' = (if Origin r = [] then VNil else VStr (Origin r))"
    by (simp_all add: map_get_def response_fields_def split: option.split)
  have p: "dec_count (read_back (case Pagination r of None \<Rightarrow> VNil | Some p \<Rightarrow> enc_pagination p)) =
      Inr (map_option Count (Pagination r))"
  proof (cases "Pagination r")
    case (Some p)
    let ?p = "[(''count'', VInt (Count p)), (''page'', VInt (Page p)), (''perPage'', VInt (PerPage p)),
     (''sortBy'', VStr (SortBy p)), (''order'', VStr (sortOrder_text (Order p)))]"
    have h: "map_get (map (map_prod id read_back) (sort_key fst ?p)) k = read_back (map_get ?p k)" for k
      by (rule map_get_read_back) simp
    have "read_back (enc_pagination p) = VMap (map (map_prod id read_back) (sort_key fst ?p))"
      unfolding enc_pagination_def by (rule read_back_simps)
    moreover have "in_int64 (Count p)" "in_int64 (Page p)" "in_int64 (PerPage p)"
      using assms(3) Some by (simp_all add: paged_ok_def)
    ultimately show ?thesis using Some
      by (simp add: dec_count_def obj_fields_def int_field_def str_field_def h del: read_back_simps(8) sort_key_simps)
         (simp add: map_get_def)
  qed (simp add: dec_count_def)
  have "json_Unmarshal (json_text (enc_response r) @ [CHR 0x0A]) = Inr (VMap ?f)"
    using json_Unmarshal_line [OF writable_response [OF assms(1)]] by (simp add: enc_response_def)
  then show ?thesis using assms(2) p
    by (simp add: read_response_def dec_response_def obj_fields_def int_field_def str_field_def g f received_def)
qed

text \<open>A call over the server gets the response of the handler its path leads to.\<close>

lemma server_transport_app:
  assumes "http_request verb endpoint input = Inr rq" "find_route E verb (rq_path rq) = Some (serve, i)"
    "rq_verb rq = verb" "serve i rq w = (Ret (Some r), w')"
  shows "server_transport E verb endpoint input w =
    (Ret (read_response (StatusCode r) (json_text (enc_response r) @ [CHR 0x0A])), w')"
  using assms by (simp add: server_transport_def Server_serve_def bnd_def lift_def GinReturnJson_def response_body_def)

text \<open>An error stays an error, whatever its body.\<close>

lemma read_response_error:
  assumes "code < 200 \<or> code > 299"
  shows "pz_IsError (read_response code body)"
proof -
  have "pz_StatusCode x = code" if "sbind (json_Unmarshal body) (dec_response code) = Inr x" for x
    using that by (auto simp: sbind_def dec_response_def split: sum.splits)
  then show ?thesis using assms
    by (cases "sbind (json_Unmarshal body) (dec_response code)") (simp_all add: read_response_def pz_IsError_def pz_failure_def)
qed

lemma answer_error: "pz_IsError r \<Longrightarrow> \<exists>e. answer expected dec out r = (out, Some e)"
  by (simp add: answer_def pz_ToError_def)

section \<open>Paths\<close>

text \<open>An identifier that can stand in a path.\<close>

definition path_ident :: "ident \<Rightarrow> bool" where
  "path_ident i \<longleftrightarrow> i \<noteq> [] \<and> (\<forall>c \<in> set i. c \<notin> {CHR ''/'', CHR ''?'', CHR ''#'', CHR ''%''})"

lemma split_at_absent: "c \<notin> set s \<Longrightarrow> split_at c s = (s, [])"
  by (induction s) (auto simp: split_at_def)

lemma url_unescape_plain: "CHR ''%'' \<notin> set s \<Longrightarrow> url_unescape False s = Some s"
  by (induction "False" s rule: url_unescape.induct) auto

lemma http_request_plain:
  assumes "CHR ''#'' \<notin> set path" "CHR ''?'' \<notin> set path" "CHR ''%'' \<notin> set path"
  shows "http_request verb path input = Inr \<lparr>rq_verb = verb, rq_path = path, rq_query = [],
    rq_body = (case input of None \<Rightarrow> [] | Some v \<Rightarrow> json_text v)\<rparr>"
proof -
  have "parse_query [] = []" by code_simp
  with assms show ?thesis by (simp add: http_request_def split_at_absent url_unescape_plain)
qed

lemma split_path_ident: "CHR ''/'' \<notin> set i \<Longrightarrow> split_byte CHR ''/'' (''/alert/'' @ i) = [[], ''alert'', i]"
  using split_byte_absent [of "CHR ''/''" i] by simp

lemma alert_routes:
  assumes "path_ident i"
  shows "find_route E ''GET'' (''/alert/'' @ i) = Some (handleGetAlert E, i)"
    "find_route E ''DELETE'' (''/alert/'' @ i) = Some (handleDeleteAlert E, i)"
    "find_route E ''POST'' ''/alert'' = Some (handlePostAlert E, [])"
proof -
  have i: "CHR ''/'' \<notin> set i" "i \<noteq> []" using assms by (auto simp: path_ident_def)
  show "find_route E ''GET'' (''/alert/'' @ i) = Some (handleGetAlert E, i)"
    "find_route E ''DELETE'' (''/alert/'' @ i) = Some (handleDeleteAlert E, i)"
    using i by (simp_all add: find_route_def Routes_def match_route_def split_path_ident [OF i(1), simplified])
  show "find_route E ''POST'' ''/alert'' = Some (handlePostAlert E, [])"
    by (simp add: find_route_def Routes_def match_route_def)
qed

section \<open>What a method returns\<close>

lemma wire_read_back [simp]: "wire (read_back v) = read_back v"
proof (induction v)
  case (VMap kvs)
  have "wire (read_back (snd p)) = read_back (snd p)" if "p \<in> set (sort_key fst kvs)" for p
    using VMap.IH [of p "snd p"] that by (cases p) simp
  then show ?case by (auto simp: map_prod_def split_beta comp_def)
qed simp_all

text \<open>The answer to a request, as the client method returns it.\<close>

lemma received_typed:
  assumes "writable (enc_payload p)" "in_int64 code"
  shows "read_response code (json_text (enc_response (typed_response code p)) @ [CHR 0x0A]) =
    \<lparr>pz_StatusCode = code, pz_Data = (if p = PNil then VNil else read_back (enc_payload p)), pz_Count = None, pz_Message = []\<rparr>"
proof -
  have t: "Pagination (typed_response code p) = None" "Message (typed_response code p) = []"
    by (simp_all add: typed_response_def SetType_data) (simp_all add: data_response_def)
  show ?thesis using read_response_text [of "typed_response code p"] assms by (simp add: paged_ok_def received_def t)
qed

text \<open>A post that is answered with 201, as the client method returns it.\<close>

lemma post_over_server:
  assumes "CHR ''#'' \<notin> set path" "CHR ''?'' \<notin> set path" "CHR ''%'' \<notin> set path"
    and "find_route E ''POST'' path = Some (h, i)"
    and "h i \<lparr>rq_verb = ''POST'', rq_path = path, rq_query = [], rq_body = json_text obj\<rparr> w =
      (Ret (Some (typed_response 201 p)), w')"
    and "p \<noteq> PNil" "writable (enc_payload p)" "dec (read_back (enc_payload p)) = Inr y"
  shows "postObject (server_transport E) obj path dec out w = (Ret (y, None), w')"
proof -
  have "server_transport E ''POST'' path (Some obj) w =
      (Ret (read_response (StatusCode (typed_response 201 p)) (json_text (enc_response (typed_response 201 p)) @ [CHR 0x0A])), w')"
    by (rule server_transport_app [OF http_request_plain [OF assms(1-3)], where serve = h and i = i])
      (simp_all add: assms(4,5))
  moreover have "StatusCode (typed_response 201 p) = 201" by simp
  ultimately have "server_transport E ''POST'' path (Some obj) w =
      (Ret \<lparr>pz_StatusCode = 201, pz_Data = read_back (enc_payload p), pz_Count = None, pz_Message = []\<rparr>, w')"
    using assms(6,7) by (simp add: received_typed in_int64_def)
  then show ?thesis using assms(8)
    by (simp add: postObject_def bnd_def ret_def answer_def pz_IsError_def ExtractData_def)
qed

section \<open>Alerts\<close>

lemma writable_alert [simp]: "writable (enc_alert a)"
  by (simp add: enc_alert_def)

lemma dec_alert_read_back [simp]: "dec_alert (read_back (enc_alert a)) = Inr a"
proof -
  let ?f = "[(''alertId'', VStr (al_AlertID a)), (''triggerId'', VStr (al_TriggerID a)), (''eventId'', VStr (al_EventID a)),
     (''jobId'', VStr (al_JobID a)), (''createdBy'', VStr (al_CreatedBy a)), (''createdOn'', VStr (al_CreatedOn a))]"
  have "map_get (map (map_prod id read_back) (sort_key fst ?f)) k = read_back (map_get ?f k)" for k
    by (rule map_get_read_back) simp
  moreover have "read_back (enc_alert a) = VMap (map (map_prod id read_back) (sort_key fst ?f))"
    unfolding enc_alert_def by (rule read_back_simps)
  ultimately show ?thesis
    by (simp add: dec_alert_def obj_fields_def str_field_def time_field_def del: read_back_simps(8) sort_key_simps)
       (simp add: map_get_def)
qed

lemma bind_alert_text: "bind_alert (json_text (enc_alert a)) = Inr a"
  by (simp add: bind_alert_def json_Decode_text)

lemma Client_PostAlert_app:
  assumes "Service_PostAlert E a w = (Ret (Some (typed_response 201 (PAlert b))), w')"
  shows "Client_PostAlert (server_transport E) a w = (Ret (b, None), w')"
  unfolding Client_PostAlert_def
  by (rule post_over_server [OF _ _ _ alert_routes(3) [of "''x''"], where p = "PAlert b"])
    (simp_all add: path_ident_def handlePostAlert_def with_body_def bind_alert_text assms enc_payload_def)

lemma alert_request:
  assumes "path_ident i"
  shows "http_request verb (''/alert/'' @ i) None = Inr \<lparr>rq_verb = verb, rq_path = ''/alert/'' @ i, rq_query = [], rq_body = []\<rparr>"
  using http_request_plain [of "''/alert/'' @ i" verb None] assms by (auto simp: path_ident_def)

lemma Client_GetAlert_app:
  assumes "path_ident i" "Service_GetAlert E i w = (Ret (Some r), w')"
  shows "r = typed_response 200 (PAlert a) \<Longrightarrow> Client_GetAlert (server_transport E) i w = (Ret (a, None), w')"
    and "StatusCode r = 404 \<Longrightarrow> \<exists>e. Client_GetAlert (server_transport E) i w = (Ret (zero_alert, Some e), w')"
proof -
  have s: "server_transport E ''GET'' (''/alert/'' @ i) None w =
      (Ret (read_response (StatusCode r) (json_text (enc_response r) @ [CHR 0x0A])), w')"
    by (rule server_transport_app [OF alert_request [OF assms(1)], where serve = "handleGetAlert E" and i = i])
      (simp_all add: alert_routes [OF assms(1), simplified] handleGetAlert_def assms(2))
  show "Client_GetAlert (server_transport E) i w = (Ret (a, None), w')" if "r = typed_response 200 (PAlert a)"
    using s that by (simp add: received_typed enc_payload_def in_int64_def Client_GetAlert_def getObject_def bnd_def ret_def
        answer_def pz_IsError_def ExtractData_def)
  show "\<exists>e. Client_GetAlert (server_transport E) i w = (Ret (zero_alert, Some e), w')" if "StatusCode r = 404"
    using s answer_error [OF read_response_error, of "StatusCode r"] that
    by (simp add: Client_GetAlert_def getObject_def bnd_def ret_def)
qed

lemma Client_DeleteAlert_app:
  assumes "path_ident i" "Service_DeleteAlert E i w = (Ret (Some r), w')"
  shows "r = typed_response 200 PNil \<Longrightarrow> Client_DeleteAlert (server_transport E) i w = (Ret None, w')"
    and "StatusCode r = 404 \<Longrightarrow> \<exists>e. Client_DeleteAlert (server_transport E) i w = (Ret (Some e), w')"
proof -
  have s: "server_transport E ''DELETE'' (''/alert/'' @ i) None w =
      (Ret (read_response (StatusCode r) (json_text (enc_response r) @ [CHR 0x0A])), w')"
    by (rule server_transport_app [OF alert_request [OF assms(1)], where serve = "handleDeleteAlert E" and i = i])
      (simp_all add: alert_routes [OF assms(1), simplified] handleDeleteAlert_def assms(2))
  show "Client_DeleteAlert (server_transport E) i w = (Ret None, w')" if "r = typed_response 200 PNil"
    using s that by (simp add: received_typed enc_payload_def in_int64_def Client_DeleteAlert_def deleteObject_def bnd_def ret_def
        answer_def pz_IsError_def ExtractData_def)
  show "\<exists>e. Client_DeleteAlert (server_transport E) i w = (Ret (Some e), w')" if "StatusCode r = 404"
  proof -
    have "pz_IsError (read_response 404 (json_text (enc_response r) @ [CHR 0x0A]))" by (rule read_response_error) simp
    from answer_error [OF this, of "[200]" "\<lambda>_. Inr ()" "()"] obtain e where
      "answer [200] (\<lambda>_. Inr ()) () (read_response 404 (json_text (enc_response r) @ [CHR 0x0A])) = ((), Some e)" by blast
    then show ?thesis using s that by (simp add: Client_DeleteAlert_def deleteObject_def bnd_def ret_def)
  qed
qed

section \<open>The client refines the store of alerts\<close>

fun ask_alert :: "'w transport \<Rightarrow> alertRequest \<Rightarrow> ('w, alert \<times> err) go" where
  "ask_alert h (CreateAlert a) = Client_PostAlert h a"
| "ask_alert h (ReadAlert i) = Client_GetAlert h i"
| "ask_alert h (RemoveAlert i) = bnd (Client_DeleteAlert h i) (\<lambda>err. ret (zero_alert, err))"

fun tells :: "alertReply \<Rightarrow> alert \<times> err \<Rightarrow> bool" where
  "tells (AlertCreated a) r \<longleftrightarrow> r = (a, None)"
| "tells (AlertRead a) r \<longleftrightarrow> r = (a, None)"
| "tells AlertRemoved r \<longleftrightarrow> r = (zero_alert, None)"
| "tells AlertMissing r \<longleftrightarrow> fst r = zero_alert \<and> snd r \<noteq> None"

definition askable :: "alertRequest \<Rightarrow> bool" where
  "askable rq \<longleftrightarrow> (case rq of CreateAlert a \<Rightarrow> True | ReadAlert i \<Rightarrow> path_ident i | RemoveAlert i \<Rightarrow> path_ident i)"

context silent_index
begin

lemma ask_refines:
  assumes "env_idx E = esi" "ready w s" "new_idents E [rq] s" "askable rq"
  shows "\<exists>x w'. ask_alert (server_transport E) rq w = (Ret x, w') \<and> tells (fst (answer_of E rq s)) x \<and>
    ready w' (snd (answer_of E rq s))"
proof (cases rq)
  case (CreateAlert a)
  from create_refines [OF assms(1,2), of a] assms(3) CreateAlert obtain p w' where
    "Service_PostAlert E a w = (Ret p, w')" "conveys (fst (answer_of E rq s)) p" "ready w' (snd (answer_of E rq s))" by auto
  then show ?thesis using Client_PostAlert_app CreateAlert by fastforce
next
  case (ReadAlert i)
  from read_refines [OF assms(1,2), of i] obtain p w' where
    p: "Service_GetAlert E i w = (Ret p, w')" "conveys (fst (answer_of E (ReadAlert i) s)) p" "ready w' s" by blast
  then obtain r where "p = Some r" by (cases p; cases "known s i") auto
  moreover have i: "path_ident i" using assms(4) ReadAlert by (simp add: askable_def)
  ultimately have r: "Service_GetAlert E i w = (Ret (Some r), w')" using p(1) by simp
  show ?thesis
  proof (cases "known s i")
    case None
    then show ?thesis using Client_GetAlert_app(2) [OF i r] p(2,3) ReadAlert \<open>p = Some r\<close> by auto
  next
    case (Some a)
    then show ?thesis using Client_GetAlert_app(1) [OF i r] p(2,3) ReadAlert \<open>p = Some r\<close> by auto
  qed
next
  case (RemoveAlert i)
  from remove_refines [OF assms(1,2), of i] obtain p w' where
    p: "Service_DeleteAlert E i w = (Ret p, w')" "conveys (fst (answer_of E (RemoveAlert i) s)) p"
      "ready w' (snd (answer_of E (RemoveAlert i) s))" by blast
  then obtain r where "p = Some r" by (cases p; cases "known s i = None") (auto split: if_splits)
  moreover have i: "path_ident i" using assms(4) RemoveAlert by (simp add: askable_def)
  ultimately show ?thesis using Client_DeleteAlert_app [OF i, of E w r w'] p RemoveAlert
    by (cases "known s i = None") (auto simp: bnd_def ret_def)
qed

lemma asks_refine:
  assumes "env_idx E = esi" "ready w s" "new_idents E rqs s" "list_all askable rqs"
  shows "\<exists>xs w'. mapM (ask_alert (server_transport E)) rqs w = (Ret xs, w') \<and>
    list_all2 tells (fst (answers_of E rqs s)) xs \<and> ready w' (snd (answers_of E rqs s))"
  using assms(2-4)
proof (induction rqs arbitrary: w s)
  case (Cons rq rqs)
  from ask_refines [OF assms(1) Cons.prems(1), of rq] Cons.prems(2,3) obtain x w1 where
    one: "ask_alert (server_transport E) rq w = (Ret x, w1)" "tells (fst (answer_of E rq s)) x" "ready w1 (snd (answer_of E rq s))"
    by auto
  from Cons.IH [OF one(3)] Cons.prems(2,3) obtain xs w2 where
    "mapM (ask_alert (server_transport E)) rqs w1 = (Ret xs, w2)"
    "list_all2 tells (fst (answers_of E rqs (snd (answer_of E rq s)))) xs"
    "ready w2 (snd (answers_of E rqs (snd (answer_of E rq s))))" by auto
  with one show ?case by (auto simp: bnd_def ret_def split: prod.split)
qed (simp add: ret_def)

end

end
