(* ===== verification/RemoteObjects.thy ===== *)
theory RemoteObjects
  imports Remote
begin

text \<open>
  Event types, triggers and events over the wire: the struct a client marshals is the one the
  server binds, and the one in the response is the one the client returns. The maps inside must
  be \<open>tidy\<close>, that is, equal to what parsing their own text gives; a value that was read from a
  JSON text is, up to the order of its keys. Then every answer that is no success reaches the
  caller as an error.
\<close>

section \<open>Structs read back\<close>

definition tidy :: "gomap \<Rightarrow> bool" where
  "tidy m \<longleftrightarrow> (case m of None \<Rightarrow> True | Some kvs \<Rightarrow> writable (VMap kvs) \<and> read_back (VMap kvs) = VMap kvs)"

lemma tidy_writable: "tidy m \<Longrightarrow> writable (of_gomap m)"
  by (cases m) (simp_all add: tidy_def of_gomap_def)

lemma map_field_tidy: "map_get f n = read_back (of_gomap m) \<Longrightarrow> tidy m \<Longrightarrow> map_field f n = Inr m"
  by (cases m) (simp_all add: tidy_def of_gomap_def map_field_def)

lemma read_back_struct:
  assumes "distinct (map fst f)"
  shows "\<exists>g. read_back (VMap f) = VMap g \<and> (\<forall>k. map_get g k = read_back (map_get f k))"
  using map_get_read_back [OF assms] read_back_simps(8) [of f] by blast


lemma dec_eventType_read_back:
  assumes "tidy (et_Mapping t)"
  shows "dec_eventType (read_back (enc_eventType t)) = Inr t"
proof -
  let ?f = "[(''eventTypeId'', VStr (et_EventTypeID t)), (''name'', VStr (et_Name t)),
     (''mapping'', of_gomap (et_Mapping t)), (''createdBy'', VStr (et_CreatedBy t)),
     (''createdOn'', VStr (et_CreatedOn t))]"
  have "distinct (map fst ?f)" by simp
  from read_back_struct [OF this] obtain g where g: "read_back (VMap ?f) = VMap g"
    "\<And>k. map_get g k = read_back (map_get ?f k)" by blast
  have m: "map_field g ''mapping'' = Inr (et_Mapping t)"
    by (rule map_field_tidy [OF _ assms]) (simp add: g(2), simp add: map_get_def)
  show ?thesis unfolding enc_eventType_def g(1)
    by (simp add: dec_eventType_def field_defs m g(2)) (simp add: map_get_def)
qed

lemma dec_event_read_back:
  assumes "tidy (ev_Data t)"
  shows "dec_event (read_back (enc_event t)) = Inr t"
proof -
  let ?f = "[(''eventId'', VStr (ev_EventID t)), (''eventTypeId'', VStr (ev_EventTypeID t)),
     (''data'', of_gomap (ev_Data t)), (''createdBy'', VStr (ev_CreatedBy t)),
     (''createdOn'', VStr (ev_CreatedOn t)), (''cronSchedule'', VStr (ev_CronSchedule t))]"
  have "distinct (map fst ?f)" by simp
  from read_back_struct [OF this] obtain g where g: "read_back (VMap ?f) = VMap g"
    "\<And>k. map_get g k = read_back (map_get ?f k)" by blast
  have m: "map_field g ''data'' = Inr (ev_Data t)"
    by (rule map_field_tidy [OF _ assms]) (simp add: g(2), simp add: map_get_def)
  show ?thesis unfolding enc_event_def g(1)
    by (simp add: dec_event_def field_defs m g(2)) (simp add: map_get_def)
qed

lemma dec_jobRequest_read_back:
  assumes "tidy (jt_Data (jr_JobType j))"
  shows "dec_jobRequest (read_back (enc_jobRequest j)) = Inr j"
proof -
  let ?h = "[(''data'', of_gomap (jt_Data (jr_JobType j))), (''type'', VStr (jt_Type (jr_JobType j)))]"
  let ?f = "[(''createdBy'', VStr (jr_CreatedBy j)), (''jobType'', VMap ?h)]"
  have "distinct (map fst ?h)" "distinct (map fst ?f)" by simp_all
  then obtain g h where g: "read_back (VMap ?f) = VMap g" "\<And>k. map_get g k = read_back (map_get ?f k)"
    and h: "read_back (VMap ?h) = VMap h" "\<And>k. map_get h k = read_back (map_get ?h k)"
    using read_back_struct by metis
  have m: "map_field h ''data'' = Inr (jt_Data (jr_JobType j))"
    by (rule map_field_tidy [OF _ assms]) (simp add: h(2), simp add: map_get_def)
  have j: "map_get g ''jobType'' = VMap h" "map_get g ''createdBy'' = VStr (jr_CreatedBy j)"
    "map_get h ''type'' = VStr (jt_Type (jr_JobType j))"
    unfolding g(2) h(2) using h(1) by (simp_all add: map_get_def)
  show ?thesis unfolding enc_jobRequest_def g(1) by (simp add: dec_jobRequest_def field_defs m j)
qed

lemma dec_trigger_read_back:
  assumes "tidy (tr_Condition t)" "tidy (jt_Data (jr_JobType (tr_Job t)))"
  shows "dec_trigger (read_back (enc_trigger t)) = Inr t"
proof -
  let ?f = "[(''triggerId'', VStr (tr_TriggerID t)), (''name'', VStr (tr_Name t)),
     (''eventTypeId'', VStr (tr_EventTypeID t)), (''condition'', of_gomap (tr_Condition t)),
     (''job'', enc_jobRequest (tr_Job t)), (''percolationId'', VStr (tr_PercolationID t)),
     (''createdBy'', VStr (tr_CreatedBy t)), (''createdOn'', VStr (tr_CreatedOn t)), (''enabled'', VBool (tr_Enabled t))]"
  have "distinct (map fst ?f)" by simp
  from read_back_struct [OF this] obtain g where g: "read_back (VMap ?f) = VMap g"
    "\<And>k. map_get g k = read_back (map_get ?f k)" by blast
  have m: "map_field g ''condition'' = Inr (tr_Condition t)"
    by (rule map_field_tidy [OF _ assms(1)]) (simp add: g(2), simp add: map_get_def)
  show ?thesis unfolding enc_trigger_def g(1)
    by (simp add: dec_trigger_def field_defs m g(2)) (simp add: map_get_def dec_jobRequest_read_back [OF assms(2)])
qed

lemma writable_structs:
  "tidy (et_Mapping et) \<Longrightarrow> writable (enc_eventType et)"
  "tidy (ev_Data ev) \<Longrightarrow> writable (enc_event ev)"
  "tidy (tr_Condition t) \<Longrightarrow> tidy (jt_Data (jr_JobType (tr_Job t))) \<Longrightarrow> writable (enc_trigger t)"
  by (simp_all add: enc_eventType_def enc_event_def enc_trigger_def enc_jobRequest_def tidy_writable)

section \<open>Binding\<close>

text \<open>The fields that are tagged as required are there.\<close>

definition sendable_type :: "eventType \<Rightarrow> bool" where
  "sendable_type et \<longleftrightarrow> et_Name et \<noteq> [] \<and> et_Mapping et \<noteq> None \<and> tidy (et_Mapping et)"

definition sendable_trigger :: "trigger \<Rightarrow> bool" where
  "sendable_trigger t \<longleftrightarrow> tr_Name t \<noteq> [] \<and> tr_EventTypeID t \<noteq> [] \<and> tr_Condition t \<noteq> None \<and> tidy (tr_Condition t) \<and>
     jt_Data (jr_JobType (tr_Job t)) \<noteq> None \<and> tidy (jt_Data (jr_JobType (tr_Job t))) \<and> jt_Type (jr_JobType (tr_Job t)) \<noteq> []"

definition sendable_event :: "event \<Rightarrow> bool" where
  "sendable_event ev \<longleftrightarrow> ev_EventTypeID ev \<noteq> [] \<and> tidy (ev_Data ev)"

lemma bind_eventType_text: "sendable_type et \<Longrightarrow> bind_eventType (json_text (enc_eventType et)) = Inr et"
  by (simp add: sendable_type_def bind_eventType_def json_Decode_text writable_structs dec_eventType_read_back require_def)

lemma bind_event_text: "sendable_event ev \<Longrightarrow> bind_event (json_text (enc_event ev)) = Inr ev"
  by (simp add: sendable_event_def bind_event_def json_Decode_text writable_structs dec_event_read_back require_def)

lemma default_enabled_read_back: "default_enabled (read_back (enc_trigger t)) t' = t'"
proof -
  have "distinct (map fst [(''triggerId'', VStr (tr_TriggerID t)), (''name'', VStr (tr_Name t)),
     (''eventTypeId'', VStr (tr_EventTypeID t)), (''condition'', of_gomap (tr_Condition t)),
     (''job'', enc_jobRequest (tr_Job t)), (''percolationId'', VStr (tr_PercolationID t)),
     (''createdBy'', VStr (tr_CreatedBy t)), (''createdOn'', VStr (tr_CreatedOn t)), (''enabled'', VBool (tr_Enabled t))])"
    by simp
  from read_back_struct [OF this] show ?thesis unfolding enc_trigger_def
    by (elim exE conjE) (simp add: default_enabled_def del: read_back_simps(8), simp add: map_get_def)
qed

lemma bind_trigger_text: "sendable_trigger t \<Longrightarrow> bind_trigger (json_text (enc_trigger t)) = Inr t"
  by (simp add: sendable_trigger_def bind_trigger_def json_Decode_text writable_structs dec_trigger_read_back
      require_def default_enabled_read_back)

section \<open>Posting\<close>

lemma post_routes:
  "find_route E ''POST'' ''/eventType'' = Some (handlePostEventType E, [])"
  "find_route E ''POST'' ''/trigger'' = Some (handlePostTrigger E, [])"
  "find_route E ''POST'' ''/event'' = Some (handlePostEvent E, [])"
  by (simp_all add: find_route_def Routes_def match_route_def)

lemma Client_PostEventType_app:
  assumes "sendable_type et" "Service_PostEventType E et w = (Ret (Some (typed_response 201 (PEventType y))), w')"
    "tidy (et_Mapping y)"
  shows "Client_PostEventType (server_transport E) et w = (Ret (y, None), w')"
  unfolding Client_PostEventType_def
  by (rule post_over_server [OF _ _ _ post_routes(1), where p = "PEventType y"])
    (simp_all add: handlePostEventType_def with_body_def bind_eventType_text assms enc_payload_def writable_structs
      dec_eventType_read_back)

lemma Client_PostTrigger_app:
  assumes "sendable_trigger t" "Service_PostTrigger E t w = (Ret (Some (typed_response 201 (PTrigger y))), w')"
    "tidy (tr_Condition y)" "tidy (jt_Data (jr_JobType (tr_Job y)))"
  shows "Client_PostTrigger (server_transport E) t w = (Ret (y, None), w')"
  unfolding Client_PostTrigger_def
  by (rule post_over_server [OF _ _ _ post_routes(2), where p = "PTrigger y"])
    (simp_all add: handlePostTrigger_def with_body_def bind_trigger_text assms enc_payload_def writable_structs
      dec_trigger_read_back)

lemma Client_PostEvent_app:
  assumes "sendable_event ev" "ev_CronSchedule ev = []" "tidy (ev_Data y)"
    "Service_PostEvent E ev w = (Ret (Some (typed_response 201 (PEvent y))), w')"
  shows "Client_PostEvent (server_transport E) ev w = (Ret (y, None), w')"
  unfolding Client_PostEvent_def
  by (rule post_over_server [OF _ _ _ post_routes(3), where p = "PEvent y"])
    (simp_all add: handlePostEvent_def with_body_def bind_event_text assms enc_payload_def writable_structs
      dec_event_read_back)

section \<open>Failures\<close>

text \<open>The server answers with a status that is no success, or panics.\<close>

definition server_fails :: "'x env \<Rightarrow> httpRequest \<Rightarrow> 'x world \<Rightarrow> 'x world \<Rightarrow> bool" where
  "server_fails E rq w w' \<longleftrightarrow> (case Server_serve E rq w of
     (Ret r, v) \<Rightarrow> v = w' \<and> (StatusCode r < 200 \<or> 299 < StatusCode r)
   | (Panic e, v) \<Rightarrow> v = w'
   | (Hang, v) \<Rightarrow> False)"

lemma server_transport_fails:
  assumes "http_request verb endpoint input = Inr rq" "server_fails E rq w w'"
  shows "\<exists>p. server_transport E verb endpoint input w = (Ret p, w') \<and> pz_IsError p"
proof -
  have f: "pz_IsError (pz_failure e)" for e by (simp add: pz_failure_def pz_IsError_def)
  show ?thesis using assms f read_response_error
    by (auto simp: server_transport_def server_fails_def split: prod.splits outcome.splits)
qed

text \<open>A verb and a path that no route has are answered by gin's page.\<close>

lemma unknown_route_fails: "find_route E (rq_verb rq) (rq_path rq) = None \<Longrightarrow> server_fails E rq w w"
  by (simp add: server_fails_def Server_serve_def ret_def not_found_page_def message_response_def)

lemma no_put_routes:
  "find_route E ''PUT'' ''/eventType'' = None" "find_route E ''PUT'' ''/event'' = None" "find_route E ''PUT'' ''/alert'' = None"
  by (simp_all add: find_route_def Routes_def match_route_def)

lemma put_unrouted:
  assumes "CHR ''#'' \<notin> set path" "CHR ''?'' \<notin> set path" "CHR ''%'' \<notin> set path" "find_route E ''PUT'' path = None"
  shows "\<exists>e. putObject (server_transport E) obj path dec out w = (Ret (out, Some e), w)"
proof -
  have "server_fails E \<lparr>rq_verb = ''PUT'', rq_path = path, rq_query = [], rq_body = json_text obj\<rparr> w w"
    by (rule unknown_route_fails) (simp add: assms(4))
  from server_transport_fails [OF http_request_plain [OF assms(1-3), of "''PUT''" "Some obj", simplified] this]
  obtain p where p: "server_transport E ''PUT'' path (Some obj) w = (Ret p, w)" "pz_IsError p" by blast
  then show ?thesis using answer_error [OF p(2), of "[200]" dec out] by (auto simp: putObject_def bnd_def ret_def)
qed

end
