(* ===== verification/Promises.thy ===== *)
theory Promises
  imports Runs Interleavings CleanUps CronLegal IdentLaws Listings Templates Refusals AlertStore Startups RemoteObjects
begin

text \<open>
  The vocabulary of the properties: what it means that a running service knows an event type or
  a trigger, and that the scheduler of the cron jobs is past a request.
\<close>

section \<open>Known event types\<close>

text \<open>The event type is stored, wrapped, with a JSON mapping, and its name is a type of the events.\<close>

definition knows_type :: "mockIndex world \<Rightarrow> eventType \<Rightarrow> entries \<Rightarrow> bool" where
  "knows_type w et m \<longleftrightarrow>
     mock_docs (w_eventTypes w) EventTypeDBMapping (et_EventTypeID et) =
       Some (wire (enc_eventType (wrapped_eventType et))) \<and>
     et_Mapping et = Some m \<and> json_entries m \<and> mock_has_type (w_events w) (et_Name et) \<and> et_Name et \<noteq> []"

lemma knows_typeD:
  assumes "knows_type w et m"
  shows "mock_docs (w_eventTypes w) EventTypeDBMapping (et_EventTypeID et) =
      Some (wire (enc_eventType (wrapped_eventType et)))"
    "et_Mapping et = Some m" "json_entries m" "mock_has_type (w_events w) (et_Name et)" "et_Name et \<noteq> []"
  using assms by (simp_all add: knows_type_def)

lemma knows_type_decodes:
  assumes "knows_type w et m"
  shows "dec_eventType (wire (enc_eventType (wrapped_eventType et))) = Inr (wrapped_eventType et)"
  using knows_typeD(2,3) [OF assms]
  by (simp add: dec_enc_eventType wrapped_eventType_def wire_map_addUniqueParams json_entries_def)

lemma healthyD:
  assumes "mock_healthy w"
  shows "mock_inv (w_eventTypes w)" "mock_inv (w_events w)" "mock_inv (w_triggers w)"
    "mock_inv (w_alerts w)" "mock_inv (w_crons w)" "mock_has_type (w_eventTypes w) EventTypeDBMapping"
    "mock_has_type (w_triggers w) TriggerDBMapping" "mock_has_type (w_alerts w) AlertDBMapping"
    "mock_has_type (w_crons w) CronDBMapping"
  using assms by (simp_all add: mock_healthy_def)

text \<open>The event, stored once, under the given type.\<close>

definition stored_under :: "mockIndex world \<Rightarrow> string \<Rightarrow> ident \<Rightarrow> bool" where
  "stored_under w t i \<longleftrightarrow> mock_docs (w_events w) t i \<noteq> None \<and>
     (\<forall>t'. t' \<noteq> t \<longrightarrow> mock_docs (w_events w) t' i = None)"

section \<open>The document an event is percolated as\<close>

definition percolated :: "string \<Rightarrow> event \<Rightarrow> val" where
  "percolated n ev = VMap [(''data'', of_gomap (addUniqueParams n (ev_Data ev)))]"

section \<open>Read triggers\<close>

lemma read_trigger_job: "tr_Job (read_trigger t) = wire_job (tr_Job t)"
  by (simp add: read_trigger_def)

lemma switchable_read:
  assumes "switchable t kvs"
  shows "switchable (read_trigger (new_trigger E w t)) kvs"
proof -
  have "jt_Data (jr_JobType (wire_job (tr_Job t))) = jt_Data (jr_JobType (tr_Job t))"
    using assms by (auto simp: switchable_def wire_job_def wire_map_def json_entries_def split: option.splits)
  with assms show ?thesis by (simp add: switchable_def read_trigger_job)
qed

text \<open>A trigger is posted, switched and read.\<close>

lemma post_put_get:
  assumes "env_idx E = mock_index" "mock_healthy w" "knows_type w et m" "type_name_ok (et_Name et)"
    "tr_EventTypeID t = et_EventTypeID et" "et_EventTypeID et \<noteq> []" "check_service E t = Inr ()"
    "mock_docs (w_triggers w) TriggerDBMapping (next_ident E w) = None"
    "switchable t kvs" "keys_ok_entries cond_key kvs" "map_of kvs (et_Name et) = None"
    "map_of (switched kvs) (et_Name et) = None"
  shows "\<exists>w1 w2. Service_PostTrigger E t w = (Ret (Some (typed_response 201 (PTrigger (new_trigger E w t)))), w1) \<and>
    Service_PutTrigger E (next_ident E w) \<lparr>tu_Enabled = b\<rparr> w1 =
      (Ret (Some (message_response 200 ''success'' ''Updated trigger'' (env_Name E))), w2) \<and>
    fst (Service_GetTrigger E (next_ident E w) w2) = Ret (Some (typed_response 200
      (PTrigger ((read_trigger (new_trigger E w t))\<lparr>tr_Enabled := b, tr_Condition := Some (switched kvs)\<rparr>))))"
proof -
  have c: "tr_Condition t = Some kvs" "json_entries kvs" using assms(9) by (simp_all add: switchable_def)
  let ?r = "read_trigger (new_trigger E w t)" and ?d = "wire (enc_eventType (wrapped_eventType et))"
  note ty = knows_typeD(1) [OF assms(3)] knows_type_decodes [OF assms(3)]
  from mock.post_then_get [OF assms(1), of w t ?d "wrapped_eventType et" kvs] assms(3-11) c ty
    healthyD [OF assms(2)] obtain w1 e where w1:
    "Service_PostTrigger E t w = (Ret (Some (typed_response 201 (PTrigger (new_trigger E w t)))), w1)"
    "mock_inv (w_triggers w1)" "w_eventTypes w1 = w_eventTypes w" "json_entries e" "decodeCondition (VMap e) = VMap kvs"
    "mock_docs (w_triggers w1) TriggerDBMapping (next_ident E w) = Some (wire (enc_trigger (?r\<lparr>tr_Condition := Some e\<rparr>)))"
    by auto
  have "\<exists>w2. Service_PutTrigger E (next_ident E w) \<lparr>tu_Enabled = b\<rparr> w1 =
      (Ret (Some (message_response 200 ''success'' ''Updated trigger'' (env_Name E))), w2) \<and>
    fst (Service_GetTrigger E (next_ident E w) w2) =
      Ret (Some (typed_response 200 (PTrigger (?r\<lparr>tr_Enabled := b, tr_Condition := Some (switched kvs)\<rparr>))))"
    by (rule mock.put_then_get [where t = ?r and d = ?d and et = "wrapped_eventType et", OF assms(1) _ w1(2,6,4,5)])
       (use w1(3) healthyD [OF assms(2)] switchable_read [OF assms(9)] ty assms(5,12) in \<open>simp_all add: read_trigger_job\<close>)
  with w1(1) show ?thesis by blast
qed

section \<open>Missing events\<close>

context trigger_index
begin

lemma missing_event:
  assumes "env_idx E = esi" "inv (w_events w)" "\<forall>t. docs (w_events w) t i = None"
  shows "(\<exists>r. fst (Service_GetEvent E i w) = Ret (Some r) \<and> StatusCode r = 404) \<and>
    (\<exists>r. fst (Service_DeleteEvent E i w) = Ret (Some r) \<and> StatusCode r = 404)"
proof -
  from lookup_type_miss [OF assms] obtain e where
    "EventDB_lookupEventTypeNameByEventID E i w = (Ret ([], Some e), w)" by blast
  then show ?thesis
    by (simp add: Service_GetEvent_def Service_DeleteEvent_def recovered_def bnd_def statusNotFound_def
        statusError_Some message_response_def)
qed

end

section \<open>Queries that crash\<close>

text \<open>
  A query text is taken to be an object; and if its size is zero, its offset is divided by zero.
\<close>

definition crashing_query :: "val \<Rightarrow> bool" where
  "crashing_query v \<longleftrightarrow> (case as_map v of None \<Rightarrow> True | Some m \<Rightarrow>
     (case (map_get (entries_of m) ''size'', map_get (entries_of m) ''from'') of
        (VFloat n e, VFloat n' e') \<Rightarrow> float_to_int n e = 0
      | _ \<Rightarrow> False))"

lemma SyncPagination_crash:
  assumes "json_Unmarshal body = Inr v" "crashing_query v"
  shows "\<exists>e. SyncPagination format body = Panic e"
  using assms
  by (auto simp: SyncPagination_def crashing_query_def assert_map_def sync_size_def sync_from_def obind_def
      split: option.splits val.splits)

lemma query_routes:
  "find_route E ''POST'' ''/eventType/query'' = Some (handleEventTypeQuery E, [])"
  "find_route E ''POST'' ''/trigger/query'' = Some (handleTriggerQuery E, [])"
  "find_route E ''POST'' ''/alert/query'' = Some (handleAlertQuery E, [])"
  by (simp_all add: find_route_def Routes_def match_route_def)

text \<open>The panic is recovered from without a response, which the server then dereferences.\<close>

lemma query_crashes:
  assumes "SyncPagination defaultJsonPagination body = Panic e"
  shows "fst (Service_QueryEventTypes E body \<lparr>raw = []\<rparr> w) = Ret None"
    "fst (Service_QueryTriggers E body \<lparr>raw = []\<rparr> w) = Ret None"
    "fst (Service_QueryAlerts E body \<lparr>raw = []\<rparr> w) = Ret None"
  using assms
  by (simp_all add: Service_QueryEventTypes_def Service_QueryTriggers_def Service_QueryAlerts_def recovered_def
      NewJsonPagination_default bnd_def audit_audited lift_def)

lemma nil_response_crashes:
  assumes "find_route E (rq_verb rq) (rq_path rq) = Some (h, i)" "fst (h i rq w) = Ret None"
  shows "fst (Server_serve E rq w) = nil_deref"
  using assms by (cases "h i rq w") (simp add: Server_serve_def bnd_def lift_def GinReturnJson_def)

end
