(* ===== verification/Pipeline.thy ===== *)
theory Pipeline
  imports Promises
begin

text \<open>
  The components together: an event type is created, a trigger is put on it, and an event of
  that type is posted. The three identifiers, that of the job and that of the alert are taken
  from the random source one after the other.
\<close>

section \<open>Identifiers to come\<close>

text \<open>The next \<open>n\<close> identifiers are distinct and none of them names a document.\<close>

definition unused_idents :: "mockIndex env \<Rightarrow> mockIndex world \<Rightarrow> nat \<Rightarrow> bool" where
  "unused_idents E w n \<longleftrightarrow> distinct (map (\<lambda>k. ident_at E (w_rand w + 16 * k)) [0..<n]) \<and>
     (\<forall>k < n. mock_docs (w_eventTypes w) EventTypeDBMapping (ident_at E (w_rand w + 16 * k)) = None \<and>
        mock_docs (w_triggers w) TriggerDBMapping (ident_at E (w_rand w + 16 * k)) = None \<and>
        mock_docs (w_alerts w) AlertDBMapping (ident_at E (w_rand w + 16 * k)) = None \<and>
        (\<forall>t. mock_docs (w_events w) t (ident_at E (w_rand w + 16 * k)) = None))"

lemma unused_identsD:
  assumes "unused_idents E w n" "k < n"
  shows "mock_docs (w_eventTypes w) EventTypeDBMapping (ident_at E (w_rand w + 16 * k)) = None"
    "mock_docs (w_triggers w) TriggerDBMapping (ident_at E (w_rand w + 16 * k)) = None"
    "mock_docs (w_alerts w) AlertDBMapping (ident_at E (w_rand w + 16 * k)) = None"
    "mock_docs (w_events w) t (ident_at E (w_rand w + 16 * k)) = None"
  using assms by (auto simp: unused_idents_def)

lemma unused_idents_inj:
  assumes "unused_idents E w n" "j < n" "k < n" "j \<noteq> k"
  shows "ident_at E (w_rand w + 16 * j) \<noteq> ident_at E (w_rand w + 16 * k)"
  using assms by (auto simp: unused_idents_def distinct_conv_nth)

section \<open>A trigger that is stored reads back\<close>

lemma stored_trigger_read:
  assumes "s TriggerDBMapping i = Some (wire (enc_trigger ((read_trigger t)\<lparr>tr_Condition := Some e\<rparr>)))"
    "json_entries e" "decodeCondition (VMap e) = VMap kvs" "tr_Condition t = Some kvs"
  shows "stored_trigger s i = Some (read_trigger t)"
proof -
  have "dec_trigger (wire (enc_trigger ((read_trigger t)\<lparr>tr_Condition := Some e\<rparr>))) =
      Inr ((read_trigger t)\<lparr>tr_Condition := Some e\<rparr>)"
    using stored_trigger_reads [OF assms(2), of "read_trigger t"] by (cases t) (simp add: read_trigger_def)
  with assms show ?thesis by (cases t) (simp add: stored_trigger_def of_gomap_def read_trigger_def)
qed

section \<open>From the event type to the job\<close>

text \<open>The event type, the trigger and the event, as they are posted one after the other.\<close>

definition fits_together :: "mockIndex env \<Rightarrow> mockIndex world \<Rightarrow> eventType \<Rightarrow> trigger \<Rightarrow> event \<Rightarrow>
    entries \<Rightarrow> entries \<Rightarrow> entries \<Rightarrow> bool" where
  "fits_together E w et t ev m c kvs \<longleftrightarrow>
     et_Mapping et = Some m \<and> mapping_ok_entries m \<and> json_entries m \<and> wf_entries m \<and>
     list_all (\<lambda>(k, v). \<not> str_contains k ''~'') (vars_of m) \<and> et_Name et \<noteq> [] \<and> type_name_ok (et_Name et) \<and>
     tr_EventTypeID t = next_ident E w \<and> check_service E t = Inr () \<and> tr_Condition t = Some c \<and>
     keys_ok_entries cond_key c \<and> json_entries c \<and> map_of c (et_Name et) = None \<and>
     ev_EventTypeID ev = next_ident E w \<and> ev_Data ev = Some kvs \<and> json_entries kvs \<and> event_check m kvs = None"

lemma pipeline:
  assumes idx: "env_idx E = percolating_mock matches" and w: "mock_healthy w"
    and free: "names_ok (mock_docs (w_eventTypes w))" "\<not> mock_has_type (w_events w) (et_Name et)"
      "\<not> name_taken (mock_docs (w_eventTypes w)) (et_Name et)"
    and unused: "unused_idents E w 5"
    and fit: "fits_together E w et t ev m c kvs"
    and hits: "\<And>x. matches x (et_Name et) (percolated (et_Name et) ev) = [ident_at E (w_rand w + 16)]"
    and ok: "access_granted E et" "\<And>body. queue_accepts E q body"
  shows "\<exists>w1 w2 w3.
    Service_PostEventType E et w = (Ret (Some (typed_response 201 (PEventType (new_eventType E w et)))), w1) \<and>
    Service_PostTrigger E t w1 = (Ret (Some (typed_response 201 (PTrigger (new_trigger E w1 t)))), w2) \<and>
    Service_PostEvent E ev w2 = (Ret (Some (typed_response 201 (PEvent (new_event E w2 ev)))), w3) \<and>
    w_mq w3 = w_mq w @ (if tr_Enabled t then [job_message q kvs (read_trigger (new_trigger E w1 t))] else []) \<and>
    (tr_Enabled t \<longrightarrow> alerted (mock_docs (w_alerts w3)) (new_event E w2 ev) (next_ident E w1))"
proof -
  let ?n = "et_Name et" and ?et = "new_eventType E w et" and ?id = "\<lambda>k. ident_at E (w_rand w + 16 * k)"
  have f: "et_Mapping et = Some m" "mapping_ok_entries m" "json_entries m" "wf_entries m"
    "list_all (\<lambda>(k, v). \<not> str_contains k ''~'') (vars_of m)" "?n \<noteq> []" "type_name_ok ?n"
    and ft: "tr_EventTypeID t = next_ident E w" "check_service E t = Inr ()" "tr_Condition t = Some c"
      "keys_ok_entries cond_key c" "json_entries c" "map_of c ?n = None"
    and fe: "ev_EventTypeID ev = next_ident E w" "ev_Data ev = Some kvs" "json_entries kvs" "event_check m kvs = None"
    using fit by (simp_all add: fits_together_def)
  note h = healthyD [OF w]
  have id0: "next_ident E w = ?id 0" by (simp add: next_ident_at)
  have fr0: "mock_docs (w_eventTypes w) EventTypeDBMapping (next_ident E w) = None"
    unfolding id0 by (rule unused_identsD [OF unused]) simp
  from perc.PostEventType_created [OF idx h(1,2) free(1) h(6) free(2,3) fr0] f(1,2,4,5) obtain x y l where post1:
    "Service_PostEventType E et w = (Ret (Some (typed_response 201 (PEventType ?et))),
       (drawn w)\<lparr>w_eventTypes := x, w_events := y, w_audit := l, w_stats := IncrEventTypes (w_stats w)\<rparr>)"
    and xy: "mock_inv x" "mock_inv y" "mock_docs x = store_put EventTypeDBMapping (next_ident E w)
      (Some (wire (enc_eventType (wrapped_eventType ?et)))) (mock_docs (w_eventTypes w))"
      "mock_docs y = mock_docs (w_events w)" "mock_has_type y = (mock_has_type (w_events w))(?n := True)" by auto
  let ?w1 = "(drawn w)\<lparr>w_eventTypes := x, w_events := y, w_audit := l, w_stats := IncrEventTypes (w_stats w)\<rparr>"
  have kt: "mock_docs x EventTypeDBMapping (next_ident E w) = Some (wire (enc_eventType (wrapped_eventType ?et)))"
    using xy(3) by (simp add: store_put_apply)
  have dec: "dec_eventType (wire (enc_eventType (wrapped_eventType ?et))) = Inr (wrapped_eventType ?et)"
    using f(1,3) by (simp add: dec_enc_eventType wrapped_eventType_def wire_map_addUniqueParams json_entries_def)
  have id1: "next_ident E ?w1 = ?id 1" by (simp add: next_ident_at drawn_def)
  have fr1: "mock_docs (w_triggers w) TriggerDBMapping (?id 1) = None"
    by (rule unused_identsD [OF unused]) simp
  from perc.post_then_get [OF idx, where w = ?w1 and ?t0.0 = t and et = "wrapped_eventType ?et" and kvs = c
      and d = "wire (enc_eventType (wrapped_eventType ?et))"] xy(1,2) h(3,7) fr1 ft f(7) kt dec
  obtain w2 e where w2: "Service_PostTrigger E t ?w1 = (Ret (Some (typed_response 201 (PTrigger (new_trigger E ?w1 t)))), w2)"
    "mock_inv (w_triggers w2)" "w_eventTypes w2 = x" "json_entries e" "decodeCondition (VMap e) = VMap c"
    "mock_docs (w_triggers w2) TriggerDBMapping (?id 1) =
      Some (wire (enc_trigger ((read_trigger (new_trigger E ?w1 t))\<lparr>tr_Condition := Some e\<rparr>)))"
    "w_alerts w2 = w_alerts w" "w_mq w2 = w_mq w" "w_rand w2 = w_rand ?w1 + 16" "mock_inv (w_events w2)"
    "\<forall>t' j. j \<noteq> ?id 1 \<longrightarrow> mock_docs (w_events w2) t' j = mock_docs (w_events w) t' j"
    "\<forall>t'. mock_has_type y t' \<longrightarrow> mock_has_type (w_events w2) t'"
    unfolding id1 by (auto simp: xy(4))
  have st: "stored_trigger (mock_docs (w_triggers w2)) (?id 1) = Some (read_trigger (new_trigger E ?w1 t))"
    by (rule stored_trigger_read [where kvs = c], rule w2(6), rule w2(4), rule w2(5))
      (use ft(3) in \<open>simp add: new_trigger_def\<close>)
  have r2: "w_rand w2 = w_rand w + 32" using w2(9) by (simp add: drawn_def)
  then have id2: "next_ident E w2 = ?id 2" by (simp add: next_ident_at)
  have fr2: "\<forall>t'. mock_docs (w_events w2) t' (next_ident E w2) = None"
  proof
    fix t'
    have "?id 2 \<noteq> ?id 1" by (rule unused_idents_inj [OF unused]) simp_all
    moreover have "mock_docs (w_events w) t' (?id 2) = None" by (rule unused_identsD [OF unused]) simp
    ultimately show "mock_docs (w_events w2) t' (next_ident E w2) = None" using w2(11) unfolding id2 by simp
  qed
  have fr3: "fresh_idents E (mock_docs (w_alerts w2)) (w_rand w2 + 16) (2 * length [?id 1])"
  proof -
    have "mock_docs (w_alerts w) AlertDBMapping (?id 3) = None" "mock_docs (w_alerts w) AlertDBMapping (?id 4) = None"
      by (rule unused_identsD [OF unused], simp)+
    moreover have "?id 3 \<noteq> ?id 4" by (rule unused_idents_inj [OF unused]) simp_all
    ultimately show ?thesis by (simp add: fresh_idents_def r2 w2(7) upt_rec numeral_2_eq_2 add.commute)
  qed
  have "mock_has_type (w_events w2) ?n" using w2(12) xy(5) by simp
  then have "\<exists>w'. Service_PostEvent E ev w2 = (Ret (Some (typed_response 201 (PEvent (new_event E w2 ev)))), w') \<and>
    w_mq w' = w_mq w2 @ map (\<lambda>i. job_message q kvs (read_trigger (new_trigger E ?w1 t)))
      (fired ?et (\<lambda>i. read_trigger (new_trigger E ?w1 t)) [?id 1]) \<and>
    (\<forall>i \<in> set (fired ?et (\<lambda>i. read_trigger (new_trigger E ?w1 t)) [?id 1]).
      alerted (mock_docs (w_alerts w')) (new_event E w2 ev) i) \<and>
    alerts_kept (mock_docs (w_alerts w2)) (mock_docs (w_alerts w')) \<and>
    fst (Service_GetEvent E (next_ident E w2) w') = Ret (Some (typed_response 200 (PEvent (new_event E w2 ev))))"
    by (intro perc.PostEvent_app [OF idx])
       (use w2(2,3,7,10) xy(1) h(4,8) kt f(1,3,6) fe fr2 fr3 hits st ok in
        \<open>simp_all add: percolated_def access_granted_def new_eventType_def cong: sum.case_cong\<close>)
  moreover have "fires ?et (read_trigger (new_trigger E ?w1 t)) = tr_Enabled t"
    using ft(1) by (simp add: fires_def read_trigger_def new_trigger_def new_eventType_def)
  ultimately show ?thesis
    using post1 w2(1,8) id1 by (auto simp: fired_def split: if_splits)
qed

end
