(* ===== verification/CronMarks.thy ===== *)
theory CronMarks
  imports CronLaws
begin

text \<open>
  What the runner does with a removal mark when several entries carry its key
  (\<open>vegertar-cron/cron.go\<close>, lines 198 to 217): the first of them that falls due takes the mark
  with it, and the others run on. Restoring several repeating events makes such entries.
\<close>

section \<open>Counting entries and jobs of a key\<close>

definition job_count :: "('j \<Rightarrow> string) \<Rightarrow> string \<Rightarrow> 'j list \<Rightarrow> nat" where
  "job_count key_of k js = length (filter (\<lambda>j. key_of j = k) js)"

lemma job_count_simps [simp]:
  "job_count key_of k [] = 0"
  "job_count key_of k (j # js) = (if key_of j = k then 1 else 0) + job_count key_of k js"
  by (simp_all add: job_count_def)

text \<open>The entries a tick at \<open>eff\<close> looks at: those at the head whose time it is.\<close>

definition due_count :: "('j \<Rightarrow> string) \<Rightarrow> string \<Rightarrow> int \<Rightarrow> 'j entry list \<Rightarrow> nat" where
  "due_count key_of k eff es = key_count key_of k (takeWhile (\<lambda>e. Next e = At eff) es)"

lemma due_count_simps [simp]:
  "due_count key_of k eff [] = 0"
  "due_count key_of k eff (e # es) = (if Next e = At eff
     then (if key_of (Job e) = k then 1 else 0) + due_count key_of k eff es else 0)"
  by (simp_all add: due_count_def)

text \<open>The one job that a mark suppresses.\<close>

definition spent :: "string \<Rightarrow> string set \<Rightarrow> nat \<Rightarrow> nat" where
  "spent k rem due = (if k \<in> rem \<and> 0 < due then 1 else 0)"

text \<open>Every schedule but \<open>@now\<close> goes on for ever.\<close>

definition goes_on :: "schedule \<Rightarrow> bool" where
  "goes_on sch = (case sch of NowSchedule _ \<Rightarrow> False | _ \<Rightarrow> True)"

definition all_go_on :: "('j \<Rightarrow> string) \<Rightarrow> string \<Rightarrow> 'j entry list \<Rightarrow> bool" where
  "all_go_on key_of k es = list_all (\<lambda>e. key_of (Job e) = k \<longrightarrow> goes_on (Schedule e)) es"

lemma all_go_on_simps [simp]:
  "all_go_on key_of k []"
  "all_go_on key_of k (e # es) \<longleftrightarrow> (key_of (Job e) = k \<longrightarrow> goes_on (Schedule e)) \<and> all_go_on key_of k es"
  "all_go_on key_of k (es @ es') \<longleftrightarrow> all_go_on key_of k es \<and> all_go_on key_of k es'"
  by (simp_all add: all_go_on_def)

lemma all_go_on_mset: "mset es = mset es' \<Longrightarrow> all_go_on key_of k es = all_go_on key_of k es'"
  unfolding all_go_on_def list_all_iff by (drule mset_eq_setD) simp

lemma schedule_Next_goes_on:
  "goes_on sch \<Longrightarrow> schedule_Next zone sch t = Ret (n, keepOn, sch') \<Longrightarrow> keepOn \<and> sch' = sch"
  by (auto simp: goes_on_def schedule_Next_def split: schedule.splits option.splits)

section \<open>One tick\<close>

text \<open>A tick starts every due job of the key but the one that takes the mark, which is then gone.\<close>

lemma tick_ref_starts:
  assumes "tick_ref zone key_of eff rem es = Ret (es', rem', st)" "k \<noteq> []"
  shows "job_count key_of k st + spent k rem (due_count key_of k eff es) = due_count key_of k eff es \<and>
    (k \<in> rem' \<longleftrightarrow> k \<in> rem \<and> due_count key_of k eff es = 0)"
  using assms
proof (induction es arbitrary: rem es' rem' st)
  case (Cons e es)
  show ?case
  proof (cases "Next e = At eff")
    case due: True
    from Cons.prems(1) due obtain n keep sch where
      nxt: "schedule_Next zone (Schedule e) eff = Ret (n, keep, sch)" by auto
    show ?thesis
    proof (cases "key_of (Job e) \<noteq> [] \<and> key_of (Job e) \<in> rem")
      case True
      with Cons.prems(1) due nxt have "tick_ref zone key_of eff (rem - {key_of (Job e)}) es = Ret (es', rem', st)"
        by simp
      from Cons.IH [OF this Cons.prems(2)] True due show ?thesis
        by (cases "key_of (Job e) = k") (auto simp: spent_def split: if_splits)
    next
      case False
      with Cons.prems(1) due nxt obtain es1 st1 where
        r: "tick_ref zone key_of eff rem es = Ret (es1, rem', st1)" "st = Job e # st1"
        by (auto simp: case_prod_unfold)
      from Cons.IH [OF r(1) Cons.prems(2)] r(2) False due Cons.prems(2) show ?thesis
        by (auto simp: spent_def split: if_splits)
    qed
  qed (use Cons.prems in \<open>auto simp: spent_def\<close>)
qed (auto simp: spent_def)

text \<open>It keeps every entry of the key but that one.\<close>

lemma tick_ref_keeps:
  assumes "tick_ref zone key_of eff rem es = Ret (es', rem', st)" "k \<noteq> []" "all_go_on key_of k es"
  shows "key_count key_of k es' + spent k rem (due_count key_of k eff es) = key_count key_of k es \<and>
    all_go_on key_of k es'"
  using assms
proof (induction es arbitrary: rem es' rem' st)
  case (Cons e es)
  show ?case
  proof (cases "Next e = At eff")
    case due: True
    from Cons.prems(1) due obtain n keep sch where
      nxt: "schedule_Next zone (Schedule e) eff = Ret (n, keep, sch)" by auto
    have go: "all_go_on key_of k es" using Cons.prems(3) by simp
    show ?thesis
    proof (cases "key_of (Job e) \<noteq> [] \<and> key_of (Job e) \<in> rem")
      case True
      with Cons.prems(1) due nxt have "tick_ref zone key_of eff (rem - {key_of (Job e)}) es = Ret (es', rem', st)"
        by simp
      from Cons.IH [OF this Cons.prems(2) go] True due show ?thesis
        by (cases "key_of (Job e) = k") (auto simp: spent_def split: if_splits)
    next
      case False
      with Cons.prems(1) due nxt obtain es1 st1 where
        r: "tick_ref zone key_of eff rem es = Ret (es1, rem', st1)"
           "es' = (if keep then [e\<lparr>Prev := Next e, Schedule := sch, Next := n\<rparr>] else []) @ es1"
        by (auto simp: case_prod_unfold)
      have "key_of (Job e) = k \<Longrightarrow> keep \<and> goes_on sch"
        using schedule_Next_goes_on [OF _ nxt] Cons.prems(3) by auto
      with Cons.IH [OF r(1) Cons.prems(2) go] r(2) False due Cons.prems(2) show ?thesis
        by (cases "key_of (Job e) = k") (auto simp: spent_def split: if_splits)
    qed
  qed (use Cons.prems in \<open>auto simp: spent_def\<close>)
qed (auto simp: spent_def)

section \<open>Any turns\<close>

text \<open>
  How many entries of a key are left if the mark is spent: what no turn without a new removal of
  the key makes fewer.
\<close>

definition survivors :: "('j \<Rightarrow> string) \<Rightarrow> string \<Rightarrow> 'j cron \<Rightarrow> nat" where
  "survivors key_of k c = key_count key_of k (entries c) - (if k \<in> removes c then 1 else 0)"

definition marks :: "string \<Rightarrow> 'j cron_event \<Rightarrow> bool" where
  "marks k ev = (case ev of Removed key \<Rightarrow> key = k | _ \<Rightarrow> False)"

lemma all_go_on_sorted:
  "sorted_by_time c es \<Longrightarrow> all_go_on key_of k (entries c) \<Longrightarrow>
    all_go_on key_of k es \<and> key_count key_of k es = key_count key_of k (entries c)"
  using all_go_on_mset [of es "entries c"] key_count_mset [of es "entries c"]
  by (simp add: sorted_by_time_def)

lemma cron_turn_keeps:
  assumes turn: "cron_turn zone key_of c ev c'" and "k \<noteq> []" "\<not> marks k ev" "\<not> adds_key key_of k ev"
    and go: "all_go_on key_of k (entries c)"
  shows "survivors key_of k c \<le> survivors key_of k c' \<and> all_go_on key_of k (entries c')"
  using turn
proof cases
  case (turn_tick es t st)
  note es = all_go_on_sorted [OF turn_tick(2) go]
  show ?thesis
  proof (cases "effective zone (c\<lparr>entries := es\<rparr>)")
    case ZeroTime
    with turn_tick es show ?thesis by (auto simp: recv_tick_def survivors_def)
  next
    case (At eff)
    with turn_tick(3) obtain es' rem' where
      r: "tick_ref zone key_of eff (removes c) es = Ret (es', rem', st)"
      "c' = c\<lparr>entries := es', removes := rem', now := t\<rparr>"
      by (auto simp: recv_tick_ref case_prod_unfold)
    from tick_ref_starts [OF r(1) assms(2)] tick_ref_keeps [OF r(1) assms(2) conjunct1 [OF es]] es r(2)
    show ?thesis by (auto simp: survivors_def spent_def split: if_splits)
  qed
next
  case (turn_add es t sch j)
  then obtain e' where e': "set_Next zone t (new_entry sch j) = Ret e'" "c' = c\<lparr>entries := es @ [e'], now := t\<rparr>"
    by (auto simp: recv_add_def)
  have "key_of (Job e') \<noteq> k"
    using set_Next_Job [OF e'(1)] assms(4) turn_add(1) by (simp add: new_entry_def adds_key_def)
  with all_go_on_sorted [OF turn_add(2) go] e'(2) show ?thesis by (simp add: survivors_def)
next
  case (turn_del es key t)
  with all_go_on_sorted [OF turn_del(3) go] assms(3) show ?thesis
    by (simp add: survivors_def recv_del_def marks_def)
next
  case (turn_snapshot es t)
  with all_go_on_sorted [OF turn_snapshot(3) go] show ?thesis
    by (simp add: survivors_def recv_snapshot_def)
qed

lemma cron_turns_keep:
  assumes "cron_turns zone key_of c evs c'" "k \<noteq> []"
    "list_all (\<lambda>ev. \<not> marks k ev \<and> \<not> adds_key key_of k ev) evs" "all_go_on key_of k (entries c)"
  shows "survivors key_of k c \<le> survivors key_of k c' \<and> all_go_on key_of k (entries c')"
  using assms
proof (induction rule: cron_turns.induct)
  case (turns_more c ev c' evs c'')
  have "survivors key_of k c \<le> survivors key_of k c' \<and> all_go_on key_of k (entries c')"
    using turns_more by (intro cron_turn_keeps [OF turns_more(1)]) auto
  with turns_more show ?case by fastforce
qed simp

text \<open>Once the mark is spent, a tick starts every job of the key that is due.\<close>

lemma recv_tick_starts:
  assumes "effective zone c = At eff" "recv_tick zone key_of t c = Ret (st, c')" "k \<noteq> []"
  shows "job_count key_of k st = due_count key_of k eff (entries c) -
    spent k (removes c) (due_count key_of k eff (entries c))"
proof -
  from assms(1,2) obtain es' rem' where
    "tick_ref zone key_of eff (removes c) (entries c) = Ret (es', rem', st)"
    by (auto simp: recv_tick_ref case_prod_unfold)
  from tick_ref_starts [OF this assms(3)] show ?thesis by linarith
qed

text \<open>Removing a key costs at most one of the entries that carry it.\<close>

lemma cron_Remove_survivors:
  "survivors key_of k (cron_Remove t k c) = key_count key_of k (entries c) - 1"
  "all_go_on key_of k (entries (cron_Remove t k c)) = all_go_on key_of k (entries c)"
  using all_go_on_mset [of "sort_key Next (entries c)" "entries c" key_of k]
  by (auto simp: survivors_def cron_Remove_def recv_del_def cron_sort_def key_count_sort)

end
