(* ===== verification/CronHang.thy ===== *)
theory CronHang
  imports CronLegal CronLaws
begin

text \<open>
  Which schedules the parser never returns on, told from the text alone and without the parser's
  own steps: every range of every field reads as a start, an end and a step, or is refused, and the
  parser stops at the first range that does not simply read.
\<close>

section \<open>Reading a range\<close>

text \<open>A number that is not negative, and a number or a name.\<close>

definition number :: "string \<Rightarrow> u64 option" where
  "number e = (case atoi e of Some v \<Rightarrow> if 0 \<le> v then Some (word_of_int v) else None | None \<Rightarrow> None)"

definition named_number :: "bounds \<Rightarrow> string \<Rightarrow> u64 option" where
  "named_number r e = (case map_of (b_names r) (toLower e) of Some n \<Rightarrow> Some n | None \<Rightarrow> number e)"

text \<open>
  The ends: all values for a star, one number or two. One number with a step goes to the maximum.
\<close>

definition ends_of :: "bounds \<Rightarrow> bool \<Rightarrow> string list \<Rightarrow> (u64 \<times> u64) option" where
  "ends_of r with_step es =
     (if hd es \<in> {''*'', ''?''} then Some (b_min r, b_max r)
      else case es of
        [a] \<Rightarrow> (case named_number r a of None \<Rightarrow> None
          | Some n \<Rightarrow> Some (n, if with_step then b_max r else n))
      | [a, b] \<Rightarrow> (case (named_number r a, named_number r b) of
            (Some n, Some k) \<Rightarrow> Some (n, k) | _ \<Rightarrow> None)
      | _ \<Rightarrow> None)"

definition reading :: "string \<Rightarrow> bounds \<Rightarrow> (u64 \<times> u64 \<times> u64) option" where
  "reading expr r = (case split_byte CHR ''/'' expr of
     [e] \<Rightarrow> map_option (\<lambda>(a, b). (a, b, 1)) (ends_of r False (split_byte CHR ''-'' e))
   | [e, s] \<Rightarrow> (case (ends_of r True (split_byte CHR ''-'' e), number s) of
         (Some (a, b), Some c) \<Rightarrow> Some (a, b, c) | _ \<Rightarrow> None)
   | _ \<Rightarrow> None)"

definition within_bounds :: "bounds \<Rightarrow> u64 \<Rightarrow> u64 \<Rightarrow> bool" where
  "within_bounds r a b \<longleftrightarrow> b_min r \<le> a \<and> a \<le> b \<and> b \<le> b_max r"

datatype verdict = Reads | Loops | Refused

text \<open>A range within the bounds reads, unless its step is zero: then the loop never ends.\<close>

definition verdict_of :: "string \<Rightarrow> bounds \<Rightarrow> verdict" where
  "verdict_of expr r = (case reading expr r of None \<Rightarrow> Refused
     | Some (a, b, c) \<Rightarrow> if \<not> within_bounds r a b then Refused else if c = 0 then Loops else Reads)"

primrec first_trouble :: "verdict list \<Rightarrow> verdict" where
  "first_trouble [] = Reads"
| "first_trouble (v # vs) = (if v = Reads then first_trouble vs else v)"

section \<open>Reading a schedule\<close>

definition all_bounds :: "bounds list" where
  "all_bounds = [seconds, minutes, hours, dom_bounds, months, dow_bounds]"

definition range_verdicts :: "string \<Rightarrow> bounds \<Rightarrow> verdict list" where
  "range_verdicts field r = map (\<lambda>e. verdict_of e r) (fieldsFunc (\<lambda>c. c = CHR '','') field)"

text \<open>
  A schedule of five or six fields, no descriptor, whose first range that does not read has a
  legal start and end and the step zero.
\<close>

definition hanging_schedule :: "string \<Rightarrow> bool" where
  "hanging_schedule spec \<longleftrightarrow> spec \<noteq> [] \<and> hd spec \<noteq> CHR ''@'' \<and> length (strings_Fields spec) \<in> {5, 6} \<and>
     first_trouble (concat (map2 range_verdicts (strings_Fields spec @ [''*'']) all_bounds)) = Loops"

section \<open>The parser agrees\<close>

definition verdict :: "'a outcome \<Rightarrow> verdict" where
  "verdict m = (case m of Ret x \<Rightarrow> Reads | Hang \<Rightarrow> Loops | Panic e \<Rightarrow> Refused)"

lemma verdict_simps [simp]: "verdict (Ret x) = Reads" "verdict Hang = Loops" "verdict (Panic e) = Refused"
  by (simp_all add: verdict_def)

lemma verdict_Loops_iff: "verdict m = Loops \<longleftrightarrow> m = Hang"
  by (cases m) simp_all

lemma verdict_obind: "(\<And>x. m = Ret x \<Longrightarrow> verdict (f x) = v) \<Longrightarrow>
    verdict (obind m f) = (if verdict m = Reads then v else verdict m)"
  by (cases m) simp_all

text \<open>An outcome that does not hang, and the value it stands for.\<close>

definition gives :: "'a outcome \<Rightarrow> 'a option \<Rightarrow> bool" where
  "gives m p \<longleftrightarrow> (case p of Some x \<Rightarrow> m = Ret x | None \<Rightarrow> (\<exists>e. m = Panic e))"

lemma gives_simps [simp]: "gives (Ret x) (Some y) \<longleftrightarrow> x = y" "gives (Panic e) None" "gives m (Some x) \<longleftrightarrow> m = Ret x"
  by (auto simp: gives_def)

lemma mustParseInt_number: "gives (mustParseInt e) (number e)"
  by (auto simp: mustParseInt_def number_def gives_def split: option.split)

lemma parseIntOrName_named: "gives (parseIntOrName e (b_names r)) (named_number r e)"
  using mustParseInt_number [of e] by (simp add: parseIntOrName_def named_number_def split: option.split)

text \<open>The two ends as the code finds them, with the end that a step may move.\<close>

lemma range_ends_reading:
  assumes "es \<noteq> []"
  shows "gives (obind (range_ends expr es r) (\<lambda>(a, b, x). Ret (a, if with_step \<and> length es = 1 then b_max r else b)))
    (ends_of r with_step es)"
proof -
  obtain a es' where es: "es = a # es'" using assms by (cases es) auto
  have a: "gives (parseIntOrName a (b_names r)) (named_number r a)" by (rule parseIntOrName_named)
  consider "es' = []" | b where "es' = [b]" | b c es'' where "es' = b # c # es''"
    by (metis neq_Nil_conv)
  then show ?thesis
  proof cases
    case 1
    with es a show ?thesis by (auto simp: range_ends_def ends_of_def gives_def split: option.splits)
  next
    case 2
    have "gives (parseIntOrName b (b_names r)) (named_number r b)" by (rule parseIntOrName_named)
    with es 2 a show ?thesis by (auto simp: range_ends_def ends_of_def gives_def split: option.splits)
  next
    case 3
    with es a show ?thesis by (auto simp: range_ends_def ends_of_def gives_def split: option.splits)
  qed
qed

lemma number_bound: "number s = Some c \<Longrightarrow> unat c < 2 ^ 63"
  using mustParseInt_number [of s] mustParseInt_bound [of s c] by simp

lemma range_bits_verdict:
  assumes "unat (b_max r) < 63" "unat c < 2 ^ 63"
  shows "verdict (range_bits expr a b c x r) =
    (if \<not> within_bounds r a b then Refused else if c = 0 then Loops else Reads)"
proof (cases "within_bounds r a b")
  case False
  then show ?thesis by (auto simp: within_bounds_def range_bits_def not_le)
next
  case True
  then have le: "\<not> a < b_min r" "\<not> b > b_max r" "\<not> a > b" by (auto simp: within_bounds_def)
  then have mx: "unat b < 64" using assms(1) by (simp add: word_le_nat_alt not_less)
  show ?thesis
  proof (cases "c = 0")
    case True
    with range_bits_Hang_iff [OF assms, of expr a b x] \<open>within_bounds r a b\<close> show ?thesis
      by (simp add: within_bounds_def)
  next
    case False
    then have "0 < unat c" by (simp add: unat_gt_0)
    from getBits_spec [OF mx this assms(2), of a] obtain y where "getBits a b c = Ret y" by blast
    with le True False show ?thesis by (simp add: range_bits_def)
  qed
qed

lemma getRange_verdict:
  assumes "unat (b_max r) < 63"
  shows "verdict (getRange expr r) = verdict_of expr r"
proof -
  let ?es = "split_byte CHR ''-'' (hd (split_byte CHR ''/'' expr))"
  have ends: "gives (obind (range_ends expr ?es r)
      (\<lambda>(a, b, x). Ret (a, if with_step \<and> length ?es = 1 then b_max r else b))) (ends_of r with_step ?es)" for with_step
    by (rule range_ends_reading) simp
  consider e where "split_byte CHR ''/'' expr = [e]" | e s where "split_byte CHR ''/'' expr = [e, s]"
    | e s t ts where "split_byte CHR ''/'' expr = e # s # t # ts"
    by (metis neq_Nil_conv split_byte_not_Nil)
  then show ?thesis
  proof cases
    case 1
    then show ?thesis using ends [of False] range_bits_verdict [OF assms, of 1]
      by (cases "range_ends expr ?es r")
         (auto simp: getRange_def Let_def range_step_def verdict_of_def reading_def gives_def split: option.splits)
  next
    case 2
    have s: "gives (mustParseInt s) (number s)" by (rule mustParseInt_number)
    from 2 show ?thesis using ends [of True] s range_bits_verdict [OF assms number_bound, of s]
      by (cases "range_ends expr ?es r"; cases "number s")
         (auto simp: getRange_def Let_def range_step_def verdict_of_def reading_def gives_def split: option.splits)
  next
    case 3
    then show ?thesis using range_ends_not_Hang [of expr ?es r]
      by (cases "range_ends expr ?es r")
         (auto simp: getRange_def Let_def range_step_def verdict_of_def reading_def)
  qed
qed

lemma or_ranges_verdict:
  "unat (b_max r) < 63 \<Longrightarrow> verdict (or_ranges r b es) = first_trouble (map (\<lambda>e. verdict_of e r) es)"
proof (induction es arbitrary: b)
  case (Cons e es)
  then show ?case using getRange_verdict [of r e] by (cases "getRange e r") auto
qed simp

lemma getField_verdict: "unat (b_max r) < 63 \<Longrightarrow> verdict (getField f r) = first_trouble (range_verdicts f r)"
  by (simp add: getField_def range_verdicts_def or_ranges_verdict)

lemma first_trouble_append:
  "first_trouble (xs @ ys) = (if first_trouble xs = Reads then first_trouble ys else first_trouble xs)"
  by (induction xs) simp_all

lemma spec_of_verdict:
  "verdict (spec_of [a, b, c, d, e, f]) =
    first_trouble [verdict a, verdict b, verdict c, verdict d, verdict e, verdict f]"
  by (cases a; cases b; cases c; cases d; cases e; cases f) (simp_all add: spec_of_def)

text \<open>So it never returns on exactly the hanging schedules.\<close>

lemma cron_Parse_Hang_iff: "cron_Parse spec = Hang \<longleftrightarrow> hanging_schedule spec"
proof -
  have p: "cron_Parse spec = Hang \<longleftrightarrow> parse_body spec = Hang"
    by (simp add: cron_Parse_def split: outcome.split)
  consider "spec = []" | "spec \<noteq> []" "hd spec = CHR ''@''"
    | "spec \<noteq> []" "hd spec \<noteq> CHR ''@''" "length (strings_Fields spec) \<notin> {5, 6}"
    | "spec \<noteq> []" "hd spec \<noteq> CHR ''@''" "length (strings_Fields spec) \<in> {5, 6}" by blast
  then show ?thesis
  proof cases
    case 1
    then show ?thesis by (simp add: hanging_schedule_def cron_Parse_def parse_body_def)
  next
    case 4
    then obtain f0 f1 f2 f3 f4 fs where fs: "strings_Fields spec = f0 # f1 # f2 # f3 # f4 # fs" "length fs \<le> 1"
      by (auto simp: numeral_eq_Suc length_Suc_conv)
    let ?f5 = "hd (fs @ [''*''])"
    have "parse_body spec = spec_of [getField f0 seconds, getField f1 minutes, getField f2 hours,
        getField f3 dom_bounds, getField f4 months, getField ?f5 dow_bounds]"
      using 4(1,2) fs by (cases fs) (auto simp: parse_body_def)
    moreover have "map2 range_verdicts (strings_Fields spec @ [''*'']) all_bounds =
        [range_verdicts f0 seconds, range_verdicts f1 minutes, range_verdicts f2 hours,
         range_verdicts f3 dom_bounds, range_verdicts f4 months, range_verdicts ?f5 dow_bounds]"
      using fs by (cases fs) (simp_all add: all_bounds_def)
    ultimately have "verdict (parse_body spec) =
        first_trouble (concat (map2 range_verdicts (strings_Fields spec @ [''*'']) all_bounds))"
      by (simp add: spec_of_verdict getField_verdict first_trouble_append)
    with 4 p verdict_Loops_iff [of "parse_body spec"] show ?thesis by (simp add: hanging_schedule_def)
  qed (auto simp: p hanging_schedule_def parse_body_def parseDescriptor_not_Hang simp del: obind_eq_Hang_iff)
qed

section \<open>Nothing else in a request hangs\<close>

definition halts :: "('w, 'a) go \<Rightarrow> bool" where
  "halts m \<longleftrightarrow> (\<forall>w. fst (m w) \<noteq> Hang)"

named_theorems halts

lemma halts_bnd [halts]: "halts m \<Longrightarrow> (\<And>x. halts (f x)) \<Longrightarrow> halts (bnd m f)"
  by (auto simp: halts_def bnd_def split: prod.split outcome.split) (metis fst_conv)

lemma halts_lift [halts]: "r \<noteq> Hang \<Longrightarrow> halts (lift r)"
  by (simp add: halts_def lift_def)

lemma halts_basic [halts]:
  "halts (ret x)" "halts (gets f)" "halts (modify g)" "halts (audit a b c)" "halts (newIdent E)"
  "halts (time_Now E)" "halts (upd_stats h)"
  by (auto simp: halts_def ret_def gets_def audit_def newIdent_app time_Now_def upd_stats_def modify_def)

lemma halts_zoom [halts]: "halts m \<Longrightarrow> halts (zoom g p m)"
  by (auto simp: halts_def zoom_def split: prod.split) (metis fst_conv)

lemma halts_split [halts]:
  "halts a \<Longrightarrow> halts b \<Longrightarrow> halts (if c then a else b)"
  "halts a \<Longrightarrow> (\<And>x. halts (f x)) \<Longrightarrow> halts (case p of None \<Rightarrow> a | Some x \<Rightarrow> f x)"
  "(\<And>x. halts (f x)) \<Longrightarrow> (\<And>x. halts (g x)) \<Longrightarrow> halts (case s of Inl x \<Rightarrow> f x | Inr x \<Rightarrow> g x)"
  "(\<And>x y. halts (h x y)) \<Longrightarrow> halts (case q of (x, y) \<Rightarrow> h x y)"
  "halts (k v) \<Longrightarrow> halts (let x = v in k x)"
  by (auto split: option.split sum.split prod.split)

lemma halts_recovered [halts]: "halts m \<Longrightarrow> halts (recovered z m)"
  by (auto simp: halts_def recovered_def split: prod.split outcome.split) (metis fst_conv)

lemma deref_not_Hang [simp]: "deref p \<noteq> Hang"
  by (cases p) (simp_all add: nil_deref_def)

lemma not_Hang [simp]: "assert_map v \<noteq> Hang" "removeUniqueParams k m \<noteq> Hang"
  "err_Error e \<noteq> Hang" "post_result n pr \<noteq> Hang" "delete_result n dr \<noteq> Hang"
  "get_result n found_in b dec wrap gr \<noteq> Hang"
proof -
  show "assert_map v \<noteq> Hang" by (simp add: assert_map_def split: option.split)
  show "removeUniqueParams k m \<noteq> Hang" by (simp add: removeUniqueParams_def assert_map_def split: option.split)
  show "err_Error e \<noteq> Hang" by (simp add: err_Error_def)
  show "post_result n pr \<noteq> Hang" by (auto simp: post_result_def split: prod.split option.split)
  show "delete_result n dr \<noteq> Hang" by (auto simp: delete_result_def nil_deref_def split: prod.split option.split)
  show "get_result n found_in b dec wrap gr \<noteq> Hang"
    by (auto simp: get_result_def nil_deref_def found_in_def decode_source_def split: prod.split option.split sum.split)
qed

lemma halts_status [halts]:
  "halts (statusError E code e)" "halts (statusBadRequest E e)" "halts (statusNotFound E e)"
  "halts (statusInternalError E e)" "halts (status_data E code obj)" "halts (statusOK E obj)" "halts (statusCreated E obj)"
  unfolding statusBadRequest_def statusNotFound_def statusInternalError_def statusCreated_def statusOK_def
    status_data_def statusError_def by (rule halts deref_not_Hang not_Hang)+

text \<open>The operations of the mock index that the request calls.\<close>

lemma halts_mock [halts]:
  "halts (ix_GetByID mock_index t i)" "halts (ix_PostData mock_index t i v)" "halts (ix_DeleteByID mock_index t i)"
  unfolding mock_index_def iIndex.simps mock_GetByID_def mock_PostData_def mock_DeleteByID_def mock_ItemExists_def
    mock_TypeExists_def mock_IndexExists_def mock_type_ptr_def mock_store_def mock_newId_def
  by (rule halts deref_not_Hang not_Hang)+

lemma halts_AddJob: "\<not> hanging_schedule spec \<Longrightarrow> halts (Service_AddJob E spec c)"
  using cron_AddJob_Hang [of "env_zone E" _ spec c] cron_Parse_Hang_iff [of spec]
  by (auto simp: halts_def Service_AddJob_def bnd_def time_Now_def split: outcome.split)

lemma halts_payload [halts]:
  "(\<And>et. halts (f et)) \<Longrightarrow> halts d \<Longrightarrow> halts (case p of PEventType et \<Rightarrow> f et | _ \<Rightarrow> d)"
  by (cases p) simp_all

lemma halts_databases:
  assumes "env_idx E = mock_index"
  shows "halts (EventTypeDB_GetOne E i)" "halts (CronDB_PostData E ev)" "halts (EventDB_PostData E ev n)"
    "halts (CronDB_DeleteByID E i)" "halts (Service_RemoveJob E i)"
  unfolding EventTypeDB_GetOne_def on_defs assms CronDB_PostData_def EventDB_PostData_def
    EventDB_verifyEventReadyToPost_def Service_GetEventType_def CronDB_DeleteByID_def Service_RemoveJob_def
  by (rule halts deref_not_Hang not_Hang)+

lemma PostRepeatingEvent_halts:
  assumes "env_idx E = mock_index" "\<not> hanging_schedule (ev_CronSchedule ev)"
  shows "halts (Service_PostRepeatingEvent E ev)"
proof -
  have parse: "cron_Parse (ev_CronSchedule ev) \<noteq> Hang" using assms(2) by (simp add: cron_Parse_Hang_iff)
  have job: "halts (Service_AddJob E (ev_CronSchedule (ev\<lparr>ev_EventID := i, ev_CreatedOn := t, ev_Data := d\<rparr>)) c)"
    for i t d c using halts_AddJob [OF assms(2)] by simp
  note steps = halts halts_databases [OF assms(1)] job deref_not_Hang not_Hang parse
  show ?thesis
    unfolding Service_PostRepeatingEvent_def NewTimeStamp_def fail_with_def
    by (rule steps)+
qed

text \<open>A hanging schedule hangs the request, and only that does.\<close>

lemma PostRepeatingEvent_Hang_iff:
  assumes "env_idx E = mock_index" "mock_inv (w_eventTypes w)"
    "mock_docs (w_eventTypes w) EventTypeDBMapping (ev_EventTypeID ev) = Some (wire (enc_eventType (wrapped_eventType et)))"
  shows "fst (Service_PostRepeatingEvent E ev w) = Hang \<longleftrightarrow> hanging_schedule (ev_CronSchedule ev)"
proof (cases "hanging_schedule (ev_CronSchedule ev)")
  case True
  then show ?thesis using mock.PostRepeatingEvent_hangs [OF assms] by (simp add: cron_Parse_Hang_iff)
next
  case False
  then show ?thesis using PostRepeatingEvent_halts [OF assms(1)] by (simp add: halts_def)
qed

end
