(* ===== verification/EventFits.thy ===== *)
theory EventFits
  imports Refusals
begin

text \<open>
  When the data of an event fits the mapping of its type, told from the leaves of both and
  without the check's own steps (\<open>verifyEventReadyToPost\<close>, \<open>workflow/EventDB.go\<close>): they have as
  many variables, and a variable of both is an array in both or in neither.
\<close>

section \<open>Variables and their values\<close>

text \<open>Of two leaves with one path the later one counts.\<close>

definition value_at :: "entries \<Rightarrow> string \<Rightarrow> val option" where
  "value_at ls k = map_of (rev ls) k"

definition names_of :: "entries \<Rightarrow> string set" where
  "names_of ls = fst ` set ls"

definition geo_type :: "val \<Rightarrow> bool" where
  "geo_type v \<longleftrightarrow> sprint v \<in> {''geo_point'', ''geo_shape''}"

text \<open>The variables a mapping declares, and those an event carries: an object counts as one
  variable where the mapping declares a geographic one.\<close>

definition declared :: "entries \<Rightarrow> entries" where
  "declared m = leaves [] [] m"

definition geo_names :: "entries \<Rightarrow> string list" where
  "geo_names m = filter (\<lambda>k. \<exists>v \<in> set_option (value_at (declared m) k). geo_type v) (map fst (declared m))"

definition carried :: "entries \<Rightarrow> entries \<Rightarrow> entries" where
  "carried m kvs = leaves (geo_names m) [] kvs"

definition missing :: "entries \<Rightarrow> entries \<Rightarrow> string set" where
  "missing m kvs = names_of (declared m) - names_of (carried m kvs)"

definition unknown :: "entries \<Rightarrow> entries \<Rightarrow> string set" where
  "unknown m kvs = names_of (carried m kvs) - names_of (declared m)"

definition array_clash :: "entries \<Rightarrow> entries \<Rightarrow> string \<Rightarrow> bool" where
  "array_clash m kvs k \<longleftrightarrow> (case (value_at (declared m) k, value_at (carried m kvs) k) of
     (Some ty, Some v) \<Rightarrow> IsValidArrayTypeMapping ty \<noteq> ValueIsValidArray v | _ \<Rightarrow> False)"

definition fits :: "entries \<Rightarrow> entries \<Rightarrow> bool" where
  "fits m kvs \<longleftrightarrow> card (names_of (declared m)) = card (names_of (carried m kvs)) \<and>
     (\<forall>k \<in> names_of (declared m). \<not> array_clash m kvs k)"

text \<open>What the answer says about data that does not fit.\<close>

definition unfit_reason :: "entries \<Rightarrow> entries \<Rightarrow> string \<Rightarrow> bool" where
  "unfit_reason m kvs e \<longleftrightarrow>
     (if card (names_of (carried m kvs)) < card (names_of (declared m))
      then \<exists>ks. distinct ks \<and> set ks = missing m kvs \<and> e = ''EventDB.PostData failed: the variables '' @
        bracketed ks @ '' were specified in the EventType but were not found in the Event''
      else if card (names_of (declared m)) < card (names_of (carried m kvs))
      then \<exists>ks. distinct ks \<and> set ks = unknown m kvs \<and> e = ''EventDB.PostData failed: the variables '' @
        bracketed ks @ '' were not specified in the EventType but were found in the Event''
      else \<exists>k. array_clash m kvs k \<and> (\<exists>v. value_at (carried m kvs) k = Some v \<and>
        e = ''EventDB.PostData failed: '' @ (if ValueIsValidArray v
          then ''an array was passed into the non-array field ''
          else ''a non-array was pasted into the array field '') @ k))"

section \<open>The check decides it\<close>

lemma map_of_write_all: "map_of (write_all ls res) k =
    (case value_at ls k of Some v \<Rightarrow> Some v | None \<Rightarrow> map_of res k)"
proof (induction ls arbitrary: res)
  case (Cons kv ls)
  obtain k' v' where kv: "kv = (k', v')" by (cases kv)
  show ?case unfolding kv using Cons.IH [of "AList.update k' v' res"]
    by (simp add: value_at_def update_conv' map_add_def split: option.split)
qed (simp add: value_at_def)

lemma write_all_Nil:
  "map_of (write_all ls []) k = value_at ls k" "fst ` set (write_all ls []) = names_of ls"
  "length (write_all ls []) = card (names_of ls)"
proof -
  show names: "fst ` set (write_all ls []) = names_of ls" by (simp add: dom_write_all names_of_def)
  show "map_of (write_all ls []) k = value_at ls k" by (simp add: map_of_write_all split: option.split)
  have "card (set (map fst (write_all ls []))) = length (write_all ls [])"
    using distinct_write_all [of "[]" ls] distinct_card by fastforce
  with names show "length (write_all ls []) = card (names_of ls)" by simp
qed

lemma leaves_skip_cong: "set skip = set skip' \<Longrightarrow> leaves skip path kvs = leaves skip' path kvs"
  by (induction skip path kvs rule: leaves.induct) (auto split: val.split)

lemma names_of_value: "k \<in> names_of ls \<longleftrightarrow> value_at ls k \<noteq> None"
  by (simp add: names_of_def value_at_def map_of_eq_None_iff)

lemma geo_vars_names: "set (geo_vars (vars_of m)) = set (geo_names m)"
proof -
  have d: "distinct (map fst (vars_of m))" by (simp add: vars_of_leaves distinct_write_all)
  have "k \<in> set (geo_vars (vars_of m)) \<longleftrightarrow> (\<exists>v. map_of (vars_of m) k = Some v \<and> geo_type v)" for k
    using map_of_eq_Some_iff [OF d] by (force simp: geo_vars_def geo_type_def MappingElementTypeGeoPoint_def
        MappingElementTypeGeoShape_def)
  also have "\<dots> k \<longleftrightarrow> k \<in> set (geo_names m)" for k
    using names_of_value [of k "declared m"]
    by (auto simp: geo_names_def vars_of_leaves write_all_Nil names_of_def simp flip: declared_def)
  finally show ?thesis by blast
qed

lemma event_check_leaves:
  "event_check m kvs = check_vars (write_all (declared m) []) (write_all (carried m kvs) [])"
  using leaves_skip_cong [OF geo_vars_names]
  by (simp add: event_check_def vars_helper_leaves vars_of_leaves declared_def carried_def)

lemma array_mismatch_clash:
  assumes "(k, ty) \<in> set (write_all (declared m) [])"
  shows "array_mismatch (write_all (carried m kvs) []) (k, ty) \<noteq> None \<longleftrightarrow> array_clash m kvs k"
proof -
  have "value_at (declared m) k = Some ty"
    using assms map_of_is_SomeI [OF distinct_write_all [of "[]" "declared m"] assms] by (simp add: write_all_Nil)
  then show ?thesis
    by (simp add: array_mismatch_def array_clash_def write_all_Nil split: option.split)
qed

text \<open>The first complaint about a list of variables.\<close>

lemma first_complaint_None:
  "(case find (\<lambda>x. f x \<noteq> None) xs of None \<Rightarrow> None | Some x \<Rightarrow> f x) = None \<longleftrightarrow> (\<forall>x \<in> set xs. f x = None)"
  by (induction xs) auto

lemma first_complaint_Some:
  "(case find (\<lambda>x. f x \<noteq> None) xs of None \<Rightarrow> None | Some x \<Rightarrow> f x) = Some e \<Longrightarrow> \<exists>x \<in> set xs. f x = Some e"
  by (induction xs) (auto split: if_splits)

lemma no_mismatch_iff:
  "(\<forall>kv \<in> set (write_all (declared m) []). array_mismatch (write_all (carried m kvs) []) kv = None) \<longleftrightarrow>
    (\<forall>k \<in> names_of (declared m). \<not> array_clash m kvs k)"
proof -
  let ?D = "write_all (declared m) []" and ?C = "write_all (carried m kvs) []"
  have "(\<forall>kv \<in> set ?D. array_mismatch ?C kv = None) \<longleftrightarrow> (\<forall>kv \<in> set ?D. \<not> array_clash m kvs (fst kv))"
  proof (rule ball_cong [OF refl])
    fix kv assume "kv \<in> set ?D"
    with array_mismatch_clash [of "fst kv" "snd kv" m kvs] show "array_mismatch ?C kv = None \<longleftrightarrow> \<not> array_clash m kvs (fst kv)"
      by auto
  qed
  then show ?thesis unfolding write_all_Nil(2) [symmetric] by simp
qed

text \<open>The check refuses exactly what does not fit, and says why.\<close>

lemma event_check_None_iff: "event_check m kvs = None \<longleftrightarrow> fits m kvs"
  by (simp only: event_check_leaves check_vars_def fits_def write_all_Nil no_mismatch_iff [symmetric]
      first_complaint_None split: if_split) auto

lemma missing_keys_write_all: "distinct (missing_keys (write_all a []) (write_all b []))"
  "set (missing_keys (write_all a []) (write_all b [])) = names_of a - names_of b"
proof -
  show "distinct (missing_keys (write_all a []) (write_all b []))"
    by (simp add: missing_keys_def distinct_write_all)
  show "set (missing_keys (write_all a []) (write_all b [])) = names_of a - names_of b"
    using names_of_value [of _ b]
    by (auto simp: missing_keys_def write_all_Nil(1) simp flip: write_all_Nil(2) [of a])
qed

lemma event_check_reason:
  assumes "event_check m kvs = Some e"
  shows "unfit_reason m kvs e"
proof -
  let ?D = "write_all (declared m) []" and ?C = "write_all (carried m kvs) []"
  note e = assms [unfolded event_check_leaves check_vars_def]
  consider "length ?C < length ?D" | "length ?D < length ?C" | "length ?D = length ?C" by linarith
  then show ?thesis
  proof cases
    case 1
    with e have "e = ''EventDB.PostData failed: the variables '' @ bracketed (missing_keys ?D ?C) @
        '' were specified in the EventType but were not found in the Event''" by simp
    with 1 missing_keys_write_all [of "declared m" "carried m kvs"] show ?thesis
      unfolding unfit_reason_def write_all_Nil(3) missing_def by (simp only: if_True) blast
  next
    case 2
    with e have "e = ''EventDB.PostData failed: the variables '' @ bracketed (missing_keys ?C ?D) @
        '' were not specified in the EventType but were found in the Event''" by simp
    with 2 missing_keys_write_all [of "carried m kvs" "declared m"] show ?thesis
      unfolding unfit_reason_def write_all_Nil(3) unknown_def by (simp only: less_not_sym if_True if_False) blast
  next
    case 3
    with e obtain kv where "kv \<in> set ?D" "array_mismatch ?C kv = Some e"
      using first_complaint_Some [of "array_mismatch ?C" ?D e] by auto
    then obtain k ty where k: "(k, ty) \<in> set ?D" "array_mismatch ?C (k, ty) = Some e" by (metis surj_pair)
    have "array_clash m kvs k" using array_mismatch_clash [OF k(1), of kvs] k(2) by simp
    moreover have "\<exists>v. value_at (carried m kvs) k = Some v \<and> e = ''EventDB.PostData failed: '' @
        (if ValueIsValidArray v then ''an array was passed into the non-array field ''
         else ''a non-array was pasted into the array field '') @ k"
      using k(2) by (auto simp: array_mismatch_def write_all_Nil(1) split: option.splits if_splits)
    ultimately show ?thesis
      using 3 unfolding unfit_reason_def write_all_Nil(3) by (simp only: less_irrefl if_False) blast
  qed
qed

section \<open>Firing the triggers leaves the events alone\<close>

definition same_events :: "('x world, 'a) go \<Rightarrow> bool" where
  "same_events m \<longleftrightarrow> (\<forall>w. w_events (snd (m w)) = w_events w)"

named_theorems same_events

lemma same_events_bnd [same_events]:
  "same_events m \<Longrightarrow> (\<And>x. same_events (f x)) \<Longrightarrow> same_events (bnd m f)"
  unfolding same_events_def
proof
  fix w assume m: "\<forall>w. w_events (snd (m w)) = w_events w" "\<And>x. \<forall>w. w_events (snd (f x w)) = w_events w"
  obtain r w1 where r: "m w = (r, w1)" by fastforce
  then have "w_events w1 = w_events w" using m(1) by (metis snd_conv)
  with r m(2) show "w_events (snd (bnd m f w)) = w_events w" by (cases r) (simp_all add: bnd_def)
qed

lemma same_events_basic [same_events]:
  "same_events (ret x)" "same_events (lift r)" "same_events (audit a b c)" "same_events (newIdent E)"
  "same_events (time_Now E)" "same_events (upd_stats f)" "same_events (modify (w_mq_update g))"
  "same_events (on_triggers m)" "same_events (on_alerts n)"
  by (auto simp: same_events_def ret_def lift_def audit_def newIdent_def time_Now_def upd_stats_def
      modify_def on_defs zoom_def split: prod.split)

lemma same_events_split [same_events]:
  "same_events a \<Longrightarrow> same_events b \<Longrightarrow> same_events (if c then a else b)"
  "same_events a \<Longrightarrow> (\<And>x. same_events (f x)) \<Longrightarrow> same_events (case p of None \<Rightarrow> a | Some x \<Rightarrow> f x)"
  "(\<And>x. same_events (f x)) \<Longrightarrow> (\<And>x. same_events (g x)) \<Longrightarrow> same_events (case s of Inl x \<Rightarrow> f x | Inr x \<Rightarrow> g x)"
  "(\<And>x y. same_events (h x y)) \<Longrightarrow> same_events (case q of (x, y) \<Rightarrow> h x y)"
  "same_events (k v) \<Longrightarrow> same_events (let x = v in k x)"
  by (auto split: option.split sum.split prod.split)

lemma same_events_wrapped [same_events]:
  assumes "same_events m"
  shows "same_events (recovered z m)" "same_events (goroutine m)"
proof -
  have "w_events (snd (recovered z m w)) = w_events w \<and> w_events (snd (goroutine m w)) = w_events w" for w
  proof -
    obtain r w1 where r: "m w = (r, w1)" by fastforce
    moreover have "w_events w1 = w_events w" using assms r by (metis same_events_def snd_conv)
    ultimately show ?thesis by (cases r) (simp_all add: recovered_def goroutine_def)
  qed
  then show "same_events (recovered z m)" "same_events (goroutine m)" by (simp_all add: same_events_def)
qed

lemma same_events_status [same_events]:
  "same_events (statusError E code e)" "same_events (statusBadRequest E e)" "same_events (statusForbidden E e)"
  "same_events (statusInternalError E e)" "same_events (status_data E code obj)" "same_events (statusCreated E obj)"
  unfolding statusBadRequest_def statusForbidden_def statusInternalError_def statusCreated_def status_data_def
    statusError_def by (rule same_events)+

lemma same_events_fire_triggers: "same_events (fire_triggers E et ev is rs)"
proof -
  have "same_events (fire_trigger E et ev i)" for i
    unfolding fire_trigger_def TriggerDB_GetOne_def check_access_def sendToRabbitMQ_def rabbit_failure_def
      Service_PostAlert_def NewTimeStamp_def AlertDB_PostData_def fail_with_def
    by (rule same_events)+
  then show ?thesis by (induction "is" arbitrary: rs) (auto intro!: same_events split: option.split)
qed

text \<open>So an event that fits is stored, whatever its triggers do.\<close>

context trigger_index
begin

lemma PostEvent_stores:
  assumes "env_idx E = esi" "inv (w_eventTypes w)" "inv (w_events w)"
    "docs (w_eventTypes w) EventTypeDBMapping (ev_EventTypeID ev) = Some (wire (enc_eventType (wrapped_eventType et)))"
    "et_Mapping et = Some m" "json_entries m" "has_type (w_events w) (et_Name et)"
    "ev_Data ev = Some kvs" "event_check m kvs = None" "docs (w_events w) (et_Name et) (next_ident E w) = None"
    "et_Name et \<noteq> percolateTypeName"
  shows "docs (w_events (snd (Service_PostEvent E ev w))) (et_Name et) (next_ident E w) =
    Some (wire (enc_event (wrapped_event (et_Name et) (new_event E w ev))))"
proof -
  let ?n = "et_Name et" and ?ev = "new_event E w ev"
  from PostEvent_stored [OF assms(1-10)] obtain x1 x2 l et' where p:
    "Service_PostEvent E ev w = recovered None (
      bnd (fire_triggers E et' (wrapped_event ?n ?ev)
        (matches x1 ?n (VMap [(''data'', of_gomap (addUniqueParams ?n (ev_Data ev)))])) []) (\<lambda>results.
      case first_failure results of
        Some v \<Rightarrow> ret (Some v)
      | None \<Rightarrow> bnd (upd_stats IncrEvents) (\<lambda>_. statusCreated E (PEvent ?ev))))
      ((drawn w)\<lparr>w_events := x2, w_audit := l\<rparr>)"
    and x: "docs x1 = store_put ?n (next_ident E w) (Some (wire (enc_event (wrapped_event ?n ?ev)))) (docs (w_events w))"
      "\<forall>t' i. t' \<noteq> percolateTypeName \<or> i \<noteq> ''0'' \<longrightarrow> docs x2 t' i = docs x1 t' i"
    by (elim exE conjE) (rule that; assumption)
  have "same_events (recovered None (
      bnd (fire_triggers E et' (wrapped_event ?n ?ev)
        (matches x1 ?n (VMap [(''data'', of_gomap (addUniqueParams ?n (ev_Data ev)))])) []) (\<lambda>results.
      case first_failure results of
        Some v \<Rightarrow> ret (Some v)
      | None \<Rightarrow> bnd (upd_stats IncrEvents) (\<lambda>_. statusCreated E (PEvent ?ev)))))"
    by (rule same_events same_events_fire_triggers)+
  then have "w_events (snd (Service_PostEvent E ev w)) = x2" by (simp add: p same_events_def)
  with x assms(11) show ?thesis by (simp add: store_put_apply)
qed

end

end
