(* ===== verification/Samples.thy ===== *)
theory Samples
  imports Pipeline CronMarks CronHang EventFits
begin

text \<open>
  A small service to try the properties on: one event type, a trigger of it, a repeating event
  with its job, on mock indices with a given percolator.
\<close>

section \<open>Surroundings\<close>

definition mock_world_env :: "mockIndex iIndex \<Rightarrow> mockIndex env" where
  "mock_world_env idx = \<lparr>env_idx = idx, env_rand = (\<lambda>p. word_of_nat (p div 16)),
     env_clock = (\<lambda>n. int n * 1000000000), env_zone = 0, env_DOMAIN = [],
     env_PiazzaSystem = ''piazza'', env_Name = ''pz-workflow'', env_Space = ''int'',
     env_GetAddress = Inr ''rabbit'', env_GetURL = Inl ''no pz-idam'',
     env_http_get = (\<lambda>_. Inl ''unreachable''), env_http_post = (\<lambda>_ _. Inl ''unreachable''),
     env_amqp_dial = (\<lambda>_. None), env_amqp_channel = (\<lambda>_. None), env_amqp_queue = (\<lambda>q. Inr q),
     env_amqp_publish = (\<lambda>_ _ _. None)\<rparr>"

definition demo_env :: "mockIndex env" where
  "demo_env = mock_world_env mock_index"

definition demo_matches :: "mockIndex \<Rightarrow> string \<Rightarrow> val \<Rightarrow> string list" where
  "demo_matches x t v = [''T1'', ''T2'']"

definition demo_perc :: "mockIndex env" where
  "demo_perc = mock_world_env (percolating_mock demo_matches)"

section \<open>Data\<close>

definition demo_mapping :: entries where
  "demo_mapping = [(''num'', VStr ''integer''), (''txt'', VStr ''string'')]"

definition demo_type :: eventType where
  "demo_type = \<lparr>et_EventTypeID = ''E1'', et_Name = ''alpha'', et_Mapping = Some demo_mapping,
     et_CreatedBy = ''tester'', et_CreatedOn = zero_time\<rparr>"

definition demo_data :: entries where
  "demo_data = [(''num'', VFloat 7 0), (''txt'', VStr ''seven'')]"

definition demo_event :: event where
  "demo_event = \<lparr>ev_EventID = [], ev_EventTypeID = ''E1'', ev_Data = Some demo_data,
     ev_CreatedBy = ''tester'', ev_CreatedOn = zero_time, ev_CronSchedule = []\<rparr>"

definition demo_repeating :: event where
  "demo_repeating = \<lparr>ev_EventID = ''R1'', ev_EventTypeID = ''E1'',
     ev_Data = addUniqueParams ''alpha'' (Some demo_data), ev_CreatedBy = ''tester'',
     ev_CreatedOn = zero_time, ev_CronSchedule = ''@every 5s''\<rparr>"

definition demo_repeating2 :: event where
  "demo_repeating2 = demo_repeating\<lparr>ev_EventID := ''R2'', ev_CronSchedule := ''@every 7s''\<rparr>"

definition demo_job :: jobRequest where
  "demo_job = \<lparr>jr_CreatedBy = ''tester'', jr_JobType = \<lparr>jt_Data = Some [(''input'', VStr ''$txt''),
     (''serviceId'', VStr ''S1'')], jt_Type = ''execute-service''\<rparr>\<rparr>"

definition demo_condition :: entries where
  "demo_condition = [(''query'', VMap [(''match'', VMap [(''data.num'', VFloat 7 0)])])]"

definition demo_stored_condition :: entries where
  "demo_stored_condition = [(''query'', VMap [(''match'', VMap [(''data~alpha~num'', VFloat 7 0)])])]"

definition demo_trigger :: "ident \<Rightarrow> bool \<Rightarrow> trigger" where
  "demo_trigger i b = \<lparr>tr_TriggerID = i, tr_Name = ''t'', tr_EventTypeID = ''E1'',
     tr_Condition = Some demo_condition, tr_Job = demo_job, tr_PercolationID = i,
     tr_CreatedBy = ''tester'', tr_CreatedOn = zero_time, tr_Enabled = b\<rparr>"

definition demo_trigger_doc :: "ident \<Rightarrow> bool \<Rightarrow> val" where
  "demo_trigger_doc i b = wire (enc_trigger ((demo_trigger i b)\<lparr>tr_Condition := Some demo_stored_condition\<rparr>))"

definition demo_alert :: alert where
  "demo_alert = \<lparr>al_AlertID = [], al_TriggerID = ''T1'', al_EventID = ''E7'', al_JobID = ''J1'',
     al_CreatedBy = ''tester'', al_CreatedOn = zero_time\<rparr>"

text \<open>At five thirty, from Monday to Friday.\<close>

definition demo_spec :: specSchedule where
  "demo_spec = \<lparr>Second = 1, Minute = 1073741824, Hour = 32, Dom = 9223372041149743102,
     Month = 9223372036854783998, Dow = 62\<rparr>"

text \<open>Every day at five.\<close>

definition demo_five :: specSchedule where
  "demo_five = \<lparr>Second = 1, Minute = 1, Hour = 32, Dom = 9223372041149743102,
     Month = 9223372036854783998, Dow = 9223372036854775935\<rparr>"

section \<open>The service\<close>

definition demo_index :: "string \<Rightarrow> (string \<times> (string \<times> val) list) list \<Rightarrow> mockIndex" where
  "demo_index n ts = (NewMockIndex n)\<lparr>exists := True,
     types := map (\<lambda>(t, its). (t, \<lparr>items = its, mapping = VMap []\<rparr>)) ts\<rparr>"

text \<open>The scheduler runs, and the job of the repeating event is due at five seconds.\<close>

definition demo_cron :: "cronEvent cron" where
  "demo_cron = \<lparr>entries = [(new_entry (ConstantDelaySchedule 5000000000)
       \<lparr>ce_Event = demo_repeating, ce_eventTypeName = ''alpha''\<rparr>)\<lparr>Next := At 5000000000\<rparr>],
     removes = {}, running = True, now = 0\<rparr>"

definition demo_world :: "mockIndex world" where
  "demo_world = \<lparr>
     w_eventTypes = demo_index ''eventtypes''
       [(''EventType'', [(''E1'', wire (enc_eventType (wrapped_eventType demo_type)))])],
     w_events = demo_index ''events''
       [(''_default_'', []), (''alpha'', [(''R1'', wire (enc_event demo_repeating))]),
        (''piazza:ingest'', [(''S1'', VMap [])])],
     w_triggers = demo_index ''triggers''
       [(''Trigger'', [(''T1'', demo_trigger_doc ''T1'' True), (''T2'', demo_trigger_doc ''T2'' False)])],
     w_alerts = demo_index ''alerts'' [(''Alert'', [])],
     w_crons = demo_index ''crons'' [(''Cron'', [(''R1'', wire (enc_event demo_repeating))])],
     w_tests = demo_index ''testElasticsearch'' [(''TestElasticsearch'', [])],
     w_stats = zero_stats, w_cron = demo_cron, w_rand = 0, w_time = 0,
     w_audit = [], w_mq = [], w_crashed = None\<rparr>"

section \<open>Facts about it\<close>

lemma demo_world_sel [simp]:
  "w_stats demo_world = zero_stats" "w_rand demo_world = 0" "w_time demo_world = 0" "w_mq demo_world = []"
  "w_cron demo_world = demo_cron"
  by (simp_all add: demo_world_def)

lemma demo_env_sel [simp]:
  "env_idx demo_env = mock_index" "env_idx demo_perc = percolating_mock demo_matches"
  "env_DOMAIN demo_env = []"
  by (simp_all add: demo_env_def demo_perc_def mock_world_env_def)

lemma demo_docs [simp]:
  "mock_docs (w_eventTypes demo_world) t i = (if t = ''EventType'' \<and> i = ''E1''
     then Some (wire (enc_eventType (wrapped_eventType demo_type))) else None)"
  "mock_docs (w_events demo_world) t i = (if t = ''alpha'' \<and> i = ''R1'' then Some (wire (enc_event demo_repeating))
     else if t = ''piazza:ingest'' \<and> i = ''S1'' then Some (VMap []) else None)"
  "mock_docs (w_triggers demo_world) t i = (if t = ''Trigger'' \<and> i = ''T1'' then Some (demo_trigger_doc ''T1'' True)
     else if t = ''Trigger'' \<and> i = ''T2'' then Some (demo_trigger_doc ''T2'' False) else None)"
  "mock_docs (w_alerts demo_world) t i = None"
  "mock_docs (w_crons demo_world) t i = (if t = ''Cron'' \<and> i = ''R1''
     then Some (wire (enc_event demo_repeating)) else None)"
  by (auto simp: demo_world_def mock_docs_def demo_index_def)

lemma demo_types [simp]:
  "mock_has_type (w_eventTypes demo_world) t \<longleftrightarrow> t = ''EventType''"
  "mock_has_type (w_events demo_world) t \<longleftrightarrow> t \<in> {''_default_'', ''alpha'', ''piazza:ingest''}"
  "mock_has_type (w_triggers demo_world) t \<longleftrightarrow> t = ''Trigger''"
  "mock_has_type (w_alerts demo_world) t \<longleftrightarrow> t = ''Alert''"
  "mock_has_type (w_crons demo_world) t \<longleftrightarrow> t = ''Cron''"
  by (auto simp: demo_world_def mock_has_type_def demo_index_def)

lemma demo_inv [simp]:
  "mock_inv (w_eventTypes demo_world)" "mock_inv (w_events demo_world)" "mock_inv (w_triggers demo_world)"
  "mock_inv (w_alerts demo_world)" "mock_inv (w_crons demo_world)" "mock_inv (w_tests demo_world)"
  by (simp_all add: demo_world_def mock_inv_def demo_index_def NewMockIndex_def)

lemmas mapping_names = EventTypeDBMapping_def EventDBMapping_def TriggerDBMapping_def AlertDBMapping_def
  CronDBMapping_def

lemma demo_healthy: "mock_healthy demo_world"
  by (simp add: mock_healthy_def mapping_names)

lemma demo_json: "json_entries demo_mapping" "json_entries demo_data" "json_entries demo_condition"
  "json_entries demo_stored_condition" "event_check demo_mapping demo_data = None"
  by code_simp+

text \<open>An identifier made by the service is none of the short ones above.\<close>

lemma length_ident_at: "length (ident_at E p) = 36"
  by (simp add: ident_at_def length_encodeHex)

lemma fresh_ident_long: "length i \<noteq> 36 \<Longrightarrow> ident_at E p \<noteq> i"
  using length_ident_at [of E p] by auto

lemma next_ident_short [simp]: "length i \<noteq> 36 \<Longrightarrow> next_ident E w \<noteq> i"
  by (simp add: next_ident_at fresh_ident_long)

lemma demo_idents_differ: "ident_at demo_perc 16 \<noteq> ident_at demo_perc 32"
  "ident_at demo_perc 16 \<noteq> ident_at demo_perc 48"  "ident_at demo_perc 16 \<noteq> ident_at demo_perc 64"
  by code_simp+

lemma demo_names: "names_ok (mock_docs (w_eventTypes demo_world))" "names_unique (mock_docs (w_eventTypes demo_world))"
  by (auto simp: names_ok_def names_unique_def dec_enc_eventType doc_name)

lemma demo_stored: "i \<in> set [''T1'', ''T2''] \<Longrightarrow>
    stored_trigger (mock_docs (w_triggers demo_world)) i = Some (demo_trigger i (i = ''T1''))"
proof -
  have dec: "dec_trigger (demo_trigger_doc i b) =
      Inr ((demo_trigger i b)\<lparr>tr_Condition := Some demo_stored_condition\<rparr>)" for i b
  proof -
    have "wire_job demo_job = demo_job"
      by (simp add: wire_job_def demo_job_def wire_map_def wire_entries_def)
    then show ?thesis
      using stored_trigger_reads [OF demo_json(4), of "demo_trigger i b"]
      by (simp add: demo_trigger_doc_def demo_trigger_def)
  qed
  have c: "decodeCondition (VMap demo_stored_condition) = VMap demo_condition" by code_simp
  assume "i \<in> set [''T1'', ''T2'']"
  then show ?thesis
    by (auto simp: stored_trigger_def mapping_names dec of_gomap_def c demo_trigger_def)
qed

text \<open>The same service, with two jobs of one key in the runner, as a restart leaves them.\<close>

definition demo_shared_job :: cronEvent where
  "demo_shared_job = \<lparr>ce_Event = demo_repeating, ce_eventTypeName = ''alpha''\<rparr>"

definition demo_shared_cron :: "cronEvent cron" where
  "demo_shared_cron = demo_cron\<lparr>entries :=
     [(new_entry (ConstantDelaySchedule 5000000000) demo_shared_job)\<lparr>Next := At 5000000000\<rparr>,
      (new_entry (ConstantDelaySchedule 7000000000) demo_shared_job)\<lparr>Next := At 7000000000\<rparr>]\<rparr>"

definition demo_shared :: "mockIndex world" where
  "demo_shared = demo_world\<lparr>w_cron := demo_shared_cron\<rparr>"

lemma demo_shared_sel [simp]: "w_cron demo_shared = demo_shared_cron" "w_events demo_shared = w_events demo_world"
  "w_crons demo_shared = w_crons demo_world" "w_time demo_shared = 0"
  by (simp_all add: demo_shared_def)

lemma demo_healthy_shared: "mock_healthy demo_shared"
  using demo_healthy by (simp add: mock_healthy_def demo_shared_def)

section \<open>The hypotheses of the properties, here\<close>

lemma demo_event_sel [simp]: "ev_EventTypeID demo_event = ''E1''" "ev_Data demo_event = Some demo_data"
  "ev_CronSchedule demo_event = []"
  by (simp_all add: demo_event_def)

lemma demo_type_sel [simp]: "et_EventTypeID demo_type = ''E1''" "et_Name demo_type = ''alpha''"
  "et_Mapping demo_type = Some demo_mapping"
  by (simp_all add: demo_type_def)

lemma demo_knows: "knows_type demo_world demo_type demo_mapping"
  by (simp add: knows_type_def mapping_names demo_json)

lemma demo_fresh: "fresh_idents demo_perc (mock_docs (w_alerts demo_world)) 16 4"
proof -
  have "distinct (map (\<lambda>k. ident_at demo_perc (16 + 16 * k)) [0..<4])" by code_simp
  then show ?thesis by (simp add: fresh_idents_def list_all_iff)
qed

lemma demo_accepts: "access_granted demo_perc et" "queue_accepts demo_perc ''Request-Job-int'' body"
  by (simp_all add: access_granted_def queue_accepts_def demo_perc_def mock_world_env_def)

lemma demo_fired: "fired demo_type (\<lambda>i. demo_trigger i (i = ''T1'')) [''T1'', ''T2''] = [''T1'']"
  by (simp add: fired_def fires_def demo_trigger_def)

lemma demo_fresh0: "fresh_idents demo_perc (mock_docs (w_alerts demo_world)) 0 4"
proof -
  have "distinct (map (\<lambda>k. ident_at demo_perc (0 + 16 * k)) [0..<4])" by code_simp
  then show ?thesis by (simp add: fresh_idents_def list_all_iff)
qed

lemma demo_trigger_ok [simp]: "type_name_ok ''alpha''" "check_service demo_env (demo_trigger i b) = Inr ()"
  "tr_EventTypeID (demo_trigger i b) = ''E1''" "tr_Condition (demo_trigger i b) = Some demo_condition"
  "keys_ok_entries cond_key demo_condition" "map_of demo_condition ''alpha'' = None"
proof -
  show "type_name_ok ''alpha''" "keys_ok_entries cond_key demo_condition" by code_simp+
  show "check_service demo_env (demo_trigger i b) = Inr ()"
    by (simp add: check_service_def demo_trigger_def demo_job_def map_get_def)
qed (simp_all add: demo_trigger_def demo_condition_def)

lemmas system_names = IsSystemEvent_def ingestTypeName_def executeTypeName_def

lemma demo_GetOne: "w_eventTypes w = w_eventTypes demo_world \<Longrightarrow>
    EventTypeDB_GetOne demo_env ''E1'' w = (Ret (Some (wrapped_eventType demo_type), True, None), w)"
  using mock.EventTypeDB_GetOne_hit [of demo_env w "''E1''", OF _ _ _ knows_type_decodes [OF demo_knows]]
  by (simp add: mapping_names)

lemma demo_restore: "\<exists>w'. initCron_loop demo_env 0 [demo_repeating, demo_repeating2]
    (demo_world\<lparr>w_cron := cron_New\<rparr>) = (Ret None, w')"
proof -
  have p: "cron_Parse ''@every 5s'' = Ret (Inr (ConstantDelaySchedule 5000000000))"
    "cron_Parse ''@every 7s'' = Ret (Inr (ConstantDelaySchedule 7000000000))" by code_simp+
  show ?thesis
    by (simp add: bnd_def modify_def lift_def ret_def demo_GetOne Service_AddJob_def time_Now_def cron_AddJob_def
        cron_Schedule_def p assign_loop_var_def cron_New_def demo_repeating_def demo_repeating2_def)
qed

text \<open>A second event type, not stored yet.\<close>

definition demo_mapping2 :: entries where
  "demo_mapping2 = [(''where'', VStr ''geo_point''), (''tags'', VStr ''[string]''),
     (''size'', VMap [(''width'', VStr ''double'')])]"

definition demo_type2 :: eventType where
  "demo_type2 = \<lparr>et_EventTypeID = [], et_Name = ''beta'', et_Mapping = Some demo_mapping2,
     et_CreatedBy = ''tester'', et_CreatedOn = zero_time\<rparr>"

lemma demo_type2_ok [simp]: "et_Name demo_type2 = ''beta''" "et_Mapping demo_type2 = Some demo_mapping2"
  "mapping_ok_entries demo_mapping2" "json_entries demo_mapping2" "wf_entries demo_mapping2"
  "list_all (\<lambda>(k, v). CHR ''~'' \<notin> set k) (vars_of demo_mapping2)"
proof -
  show "mapping_ok_entries demo_mapping2" "json_entries demo_mapping2" "wf_entries demo_mapping2"
    "list_all (\<lambda>(k, v). CHR ''~'' \<notin> set k) (vars_of demo_mapping2)" by code_simp+
qed (simp_all add: demo_type2_def)

lemma demo_names_taken: "name_taken (mock_docs (w_eventTypes demo_world)) n \<longleftrightarrow> n = ''alpha''"
  by (auto simp: name_taken_def mapping_names doc_name)

text \<open>The same service, with a system event type stored as well.\<close>

definition demo_type9 :: eventType where
  "demo_type9 = demo_type\<lparr>et_EventTypeID := ''E9'', et_Name := ''piazza:ingest''\<rparr>"

definition demo_world9 :: "mockIndex world" where
  "demo_world9 = demo_world\<lparr>w_eventTypes := demo_index ''eventtypes''
     [(''EventType'', [(''E9'', wire (enc_eventType (wrapped_eventType demo_type9)))])]\<rparr>"

lemma demo_healthy9: "mock_healthy demo_world9"
proof -
  have "mock_inv (w_eventTypes demo_world9)" "mock_has_type (w_eventTypes demo_world9) ''EventType''"
    by (simp_all add: demo_world9_def mock_inv_def mock_has_type_def demo_index_def NewMockIndex_def)
  then show ?thesis by (simp add: mock_healthy_def mapping_names) (simp add: demo_world9_def)
qed

lemma demo_knows9: "knows_type demo_world9 demo_type9 demo_mapping"
  by (simp add: knows_type_def mapping_names demo_json demo_type9_def demo_world9_def mock_docs_def demo_index_def)

text \<open>The text of a job with two variables, and names that are not separate.\<close>

definition demo_template :: template where
  "demo_template = [Lit ''run '', Var ''txt'', Lit '' on '', Var ''num'', Lit '' times '', Var ''other'']"

lemma demo_separate: "separate {''num'', ''txt'', ''other''}"
  by (auto simp: separate_def)

text \<open>The same service, with three alerts.\<close>

definition demo_alert_doc :: "ident \<Rightarrow> string \<times> val" where
  "demo_alert_doc i = (i, wire (enc_alert (demo_alert\<lparr>al_AlertID := i\<rparr>)))"

definition demo_world3 :: "mockIndex world" where
  "demo_world3 = demo_world\<lparr>w_alerts := demo_index ''alerts''
     [(''Alert'', [demo_alert_doc ''A2'', demo_alert_doc ''A1'', demo_alert_doc ''A3''])]\<rparr>"

lemma demo_alerts3: "mock_inv (w_alerts demo_world3)" "mock_has_type (w_alerts demo_world3) ''Alert''"
  by (simp_all add: demo_world3_def mock_inv_def mock_has_type_def demo_index_def NewMockIndex_def demo_alert_doc_def)

lemma demo_docs3: "mock_docs (w_alerts demo_world3) t i = (if t = ''Alert'' \<and> i \<in> {''A1'', ''A2'', ''A3''}
    then Some (wire (enc_alert (demo_alert\<lparr>al_AlertID := i\<rparr>))) else None)"
  by (auto simp: demo_world3_def mock_docs_def demo_index_def demo_alert_doc_def)

lemma demo_healthy3: "mock_healthy demo_world3"
  using demo_alerts3 by (simp add: mock_healthy_def mapping_names) (simp add: demo_world3_def)

lemma demo_decode3: "all_decode dec_alert (w_alerts demo_world3) ''Alert''"
  by (auto simp: all_decode_def demo_docs3 dec_enc_alert split: if_splits)

text \<open>The same surroundings, but the authorisation service says no.\<close>

definition demo_denied :: "mockIndex env" where
  "demo_denied = demo_perc\<lparr>env_GetURL := Inr ''http://idam'',
     env_http_post := (\<lambda>_ _. Inr (200, ''{'' @ dquoted ''isAuthSuccess'' @ '':false}''))\<rparr>"

lemma demo_denied_sel [simp]: "env_idx demo_denied = percolating_mock demo_matches"
  by (simp add: demo_denied_def)

lemma demo_access_denied: "access_denied demo_denied et"
proof -
  have "sbind (json_Unmarshal (''{'' @ dquoted ''isAuthSuccess'' @ '':false}'')) obj_fields =
      Inr [(''isAuthSuccess'', VBool False)]" by code_simp
  then show ?thesis by (simp add: access_denied_def demo_denied_def RequestAuthZAccess_def)
qed

text \<open>Requests for alerts, from an empty store.\<close>

definition demo_store :: alertStore where
  "demo_store = \<lparr>known = (\<lambda>i. None), randoms = 0, readings = 0\<rparr>"

definition demo_requests :: "alertRequest list" where
  "demo_requests = [ReadAlert ''A1'', CreateAlert demo_alert, CreateAlert demo_alert, ReadAlert (ident_at demo_env 0),
     RemoveAlert (ident_at demo_env 0), ReadAlert (ident_at demo_env 0), RemoveAlert ''A1'']"

lemma demo_represents: "represents mock_docs demo_world demo_store"
  by (simp add: represents_def demo_store_def mapping_names fun_eq_iff)

lemma demo_new_idents: "new_idents demo_env demo_requests demo_store"
proof -
  have "ident_at demo_env 0 \<noteq> ident_at demo_env 16" by code_simp
  then show ?thesis by (simp add: demo_requests_def demo_store_def)
qed

lemma demo_askable: "list_all askable demo_requests"
  by code_simp

text \<open>A trigger for a type that is still to be created, an event of it, and what they need.\<close>

definition demo_later :: trigger where
  "demo_later = (demo_trigger [] True)\<lparr>tr_EventTypeID := ident_at demo_perc 0\<rparr>"

definition demo_mapping4 :: entries where
  "demo_mapping4 = [(''num'', VStr ''integer''), (''txt'', VStr ''string'')]"

definition demo_type4 :: eventType where
  "demo_type4 = demo_type\<lparr>et_Name := ''beta'', et_Mapping := Some demo_mapping4\<rparr>"

definition demo_event4 :: event where
  "demo_event4 = demo_event\<lparr>ev_EventTypeID := ident_at demo_perc 0\<rparr>"

definition demo_perc4 :: "mockIndex env" where
  "demo_perc4 = mock_world_env (percolating_mock (\<lambda>x t v. [ident_at demo_perc 16]))"

lemma demo_perc4_idents: "ident_at demo_perc4 p = ident_at demo_perc p"
  by (simp add: ident_at_def demo_perc4_def demo_perc_def mock_world_env_def)

lemma demo_unused: "unused_idents demo_perc4 demo_world 5"
proof -
  have "distinct (map (\<lambda>k. ident_at demo_perc (0 + 16 * k)) [0..<5])" by code_simp
  then show ?thesis by (auto simp: unused_idents_def demo_perc4_idents fresh_ident_long mapping_names)
qed

lemma demo_fits: "fits_together demo_perc4 demo_world demo_type4 demo_later demo_event4 demo_mapping4 demo_condition demo_data"
proof -
  have "mapping_ok_entries demo_mapping4" "json_entries demo_mapping4" "wf_entries demo_mapping4"
    "list_all (\<lambda>(k, v). \<not> str_contains k ''~'') (vars_of demo_mapping4)" "type_name_ok ''beta''"
    "event_check demo_mapping4 demo_data = None" "map_of demo_condition ''beta'' = None" by code_simp+
  moreover have "check_service demo_perc4 demo_later = Inr ()"
    by (simp add: check_service_def demo_later_def demo_trigger_def demo_job_def map_get_def demo_perc4_def mock_world_env_def)
  ultimately show ?thesis
    using demo_json demo_trigger_ok
    by (simp add: fits_together_def demo_type4_def demo_later_def demo_event4_def next_ident_at demo_perc4_idents)
qed

lemma demo_sendable: "sendable_type demo_type4" "sendable_trigger demo_later" "sendable_event demo_event4"
  "ev_CronSchedule demo_event4 = []"
proof -
  show "sendable_type demo_type4" "sendable_trigger demo_later" "sendable_event demo_event4"
    "ev_CronSchedule demo_event4 = []" by code_simp+
qed

text \<open>An answer with data, a page and a message.\<close>

definition demo_answer :: jsonResponse where
  "demo_answer = (data_response 200 (PAlerts [demo_alert]))
     \<lparr>Pagination := Some (defaultJsonPagination\<lparr>Count := 2\<rparr>), Message := ''two''\<rparr>"

text \<open>A condition on a nested variable, and a query with the size zero and an offset.\<close>

definition demo_nested :: "string \<Rightarrow> entries" where
  "demo_nested k = [(''query'', VMap [(''match'', VMap [(k, VFloat 7 0)])])]"

definition demo_nested_trigger :: trigger where
  "demo_nested_trigger = (demo_trigger ''T1'' True)\<lparr>tr_Condition := Some (demo_nested ''data.pos.x'')\<rparr>"

lemma demo_nested_ok [simp]: "switchable demo_nested_trigger (demo_nested ''data.pos.x'')"
  "keys_ok_entries cond_key (demo_nested ''data.pos.x'')" "switched (demo_nested ''data.pos.x'') = demo_nested ''data.x''"
  "map_of (demo_nested k) ''alpha'' = None" "check_service demo_env demo_nested_trigger = Inr ()"
  "tr_EventTypeID demo_nested_trigger = ''E1''"
proof -
  have "keys_ok_entries plain_key (demo_nested ''data.pos.x'')" "rename_ok drop_renaming (VMap (demo_nested ''data.pos.x''))"
    "json_entries (demo_nested ''data.pos.x'')" "json_entries [(''input'', VStr ''$txt''), (''serviceId'', VStr ''S1'')]"
    by code_simp+
  then show "switchable demo_nested_trigger (demo_nested ''data.pos.x'')"
    by (simp add: switchable_def demo_nested_trigger_def demo_trigger_def demo_job_def dotfree_key_def)
  show "keys_ok_entries cond_key (demo_nested ''data.pos.x'')" "switched (demo_nested ''data.pos.x'') = demo_nested ''data.x''"
    by code_simp+
  show "check_service demo_env demo_nested_trigger = Inr ()"
    by (simp add: demo_nested_trigger_def check_service_def demo_trigger_def demo_job_def map_get_def)
qed (simp_all add: demo_nested_def demo_nested_trigger_def)

definition demo_zero_query :: string where
  "demo_zero_query = ''{'' @ dquoted ''size'' @ '':0,'' @ dquoted ''from'' @ '':1}''"

definition demo_query :: string where
  "demo_query = ''{'' @ dquoted ''size'' @ '':20,'' @ dquoted ''from'' @ '':57}''"

section \<open>A transport\<close>

text \<open>One that answers every request with no data and a count.\<close>

definition demo_transport :: "int \<Rightarrow> unit transport" where
  "demo_transport n verb endpoint body = ret \<lparr>pz_StatusCode = 200, pz_Data = VNil, pz_Count = Some n, pz_Message = []\<rparr>"

lemma demo_transport_answers: "answers (demo_transport n)"
  by (simp add: answers_def demo_transport_def ret_def)

section \<open>A request\<close>

definition demo_request :: httpRequest where
  "demo_request = \<lparr>rq_verb = ''GET'', rq_path = ''/version'', rq_query = [], rq_body = []\<rparr>"

lemma demo_route: "find_route E ''GET'' ''/version'' = Some (handleGetVersion E, [])"
  by (simp add: find_route_def Routes_def match_route_def)

lemma demo_request_served:
  "Server_serve E demo_request w = (Ret (data_response 200 (PVersion Version)), w)"
  by (simp add: Server_serve_def demo_request_def demo_route handleGetVersion_def bnd_def lift_def ret_def
      GinReturnJson_def)

lemma demo_run: "service_run E w [Served demo_request (Ret (data_response 200 (PVersion Version)))] w"
  by (auto simp: service_run_Cons service_run_Nil intro!: exI [of _ w] step_request demo_request_served)

lemma demo_env_mock: "mock_env demo_env = demo_env"
  by (simp add: mock_env_def demo_env_def mock_world_env_def)

section \<open>A host\<close>

definition demo_output :: string where
  "demo_output = ''created'' @ [CHR 0x0A, CHR 0x09] @ ''{'' @ dquoted ''status'' @ '':'' @ dquoted ''success'' @ '','' @
     dquoted ''message'' @ '':'' @ dquoted [] @ '','' @ dquoted ''mapping'' @ '':'' @ dquoted ''{}'' @ ''}''"

definition demo_host :: "(unit, string) host" where
  "demo_host = \<lparr>ho_Getwd = Inr ''/app'', ho_GetURL = Inr ''http://es'', ho_ReadDir = (\<lambda>_. Inr db_files),
     ho_bash = (\<lambda>args. ret (Inr demo_output)), ho_NewIndex = (\<lambda>n. ret (Inr n)),
     ho_GetMapping = (\<lambda>h typ. ret (Inr (VMap [])))\<rparr>"

lemma demo_host_steady: "steady demo_host (\<lambda>args. Inr demo_output) Inr (\<lambda>h typ. Inr (VMap []))"
  by (simp add: steady_def demo_host_def ret_def)

lemma demo_script_ok:
  "script_ok (\<lambda>args. Inr demo_output) Inr (\<lambda>h typ. Inr (VMap [])) pwd esURL n True s"
proof -
  have "sbind (json_Unmarshal (format_output demo_output)) dec_scriptRes =
      Inr \<lparr>sc_Status = ''success'', sc_Message = [], sc_Mapping = ''{}''\<rparr>" by code_simp
  moreover have "json_Unmarshal ''{}'' = Inr (VMap [])" by code_simp
  ultimately show ?thesis by (simp add: script_ok_def declares_def mapping_agrees_def DeepEqual_def)
qed

end
