(* ===== verification/Spec2Isabelle.thy ===== *)
theory Spec2Isabelle
  imports Samples
begin

text \<open>
  Verification of the Piazza workflow service (\<open>pz-workflow\<close>).

  The program. Clients register \<^emph>\<open>event types\<close> (a name and a mapping of variables to element
  types), put \<^emph>\<open>triggers\<close> on them (a condition and a job), and post \<^emph>\<open>events\<close>. An event is checked
  against its type, stored, and percolated: Elasticsearch names the triggers whose condition it
  meets. Each enabled one has its job's text filled with the event's data and sent to RabbitMQ, and
  leaves an \<^emph>\<open>alert\<close>. An event with a cron schedule registers a job with a runner, which posts a
  plain event at each activation. \<open>Server.go\<close> routes HTTP requests to the methods of \<open>Service.go\<close>,
  these call the databases (\<open>EventTypeDB.go\<close>, \<open>EventDB.go\<close>, \<open>TriggerDB.go\<close>, \<open>AlertDB.go\<close>, \<open>CronDB.go\<close>,
  \<open>TestElasticsearchDB.go\<close>), and these a document index behind the interface \<open>IIndex\<close>. \<open>Kit.go\<close> puts
  the parts together, \<open>Client.go\<close> is the library that calls the service, and \<open>tools/main.go\<close> a tool
  that deletes everything.

  The model. A stateful call of type \<open>('w, 'a) go\<close> takes the state and returns an outcome and the
  new state; an outcome is \<open>Ret\<close>, \<open>Panic\<close> or \<open>Hang\<close>, and \<open>recovered\<close> is the deferred
  \<open>handlePanic\<close>. The state \<open>world\<close> holds the six indices, the statistics, the cron runner, the audit
  log, the messages sent to the queue, and how much was taken of the random source and the clock;
  \<open>env\<close> holds what the service cannot change: the methods of the index, the bytes of the random
  source, the readings of the clock, the answers of the queue and of the authorisation service.
  Theorems hold for every \<open>env\<close>.

  \<^item> \<open>Prelude\<close>, \<open>GoStrings\<close>, \<open>GoValues\<close>, \<open>JsonText\<close>, \<open>JsonParse\<close>: outcomes and combinators with their
    simplification rules, the functions of Go's \<open>strings\<close> and \<open>strconv\<close> the program calls, dynamic
    values and their JSON text. \<open>JsonRound\<close>: the text of a value parses to the value, its numbers as
    floats and its keys in order (\<open>read_back\<close>), which is \<open>wire\<close> up to the order of keys.
  \<^item> \<open>Structs\<close>, \<open>Responses\<close>, \<open>Pagination\<close>, \<open>Uuids\<close>, \<open>Vars\<close>: the structs of \<open>common.go\<close> with their JSON
    encodings, and the parts of \<open>pz-gocommon/gocommon\<close> the program rests on.
  \<^item> \<open>Indexes\<close>: \<open>IIndex\<close> as a record of operations, and its contract as locales that extend one
    another (\<open>doc_lookup\<close>, \<open>doc_index\<close>, \<open>search_index\<close>, \<open>trigger_index\<close>). \<open>MockIndexes\<close>: \<open>mock_index.go\<close>
    as one implementation, and the proof that it keeps the contract (interpretations \<open>mock\<close>, \<open>plain\<close>,
    and \<open>perc\<close> for a mock index that percolates by a given function; the program's own mock always
    answers that nothing matches).
  \<^item> \<open>CronParse\<close>, \<open>CronRun\<close>: the vendored cron package. \<open>CronRun\<close> has the run loop's turn as one
    step (\<open>recv_tick\<close>, in-place traversal included) and \<open>SpecSchedule.Next\<close> as one recursion over its
    loops (\<open>next_loop\<close>).
  \<^item> \<open>Worlds\<close>, \<open>Conditions\<close>, \<open>Mappings\<close>, \<open>Databases\<close>, \<open>Events\<close>: the state, and the databases method by
    method.
  \<^item> \<open>EventTypeHandlers\<close>, \<open>AlertHandlers\<close>, \<open>EventHandlers\<close>: the methods of \<open>Service\<close>. \<open>Servers\<close>: the
    route table and the handlers. \<open>Hosting\<close>: the generic server around them and the wait for a
    service to answer. \<open>Kits\<close>, \<open>Startups\<close>: \<open>Service.Init\<close>, \<open>Kit.go\<close> and \<open>main.go\<close>. \<open>Clients\<close>, \<open>Tools\<close>:
    \<open>Client.go\<close> over a transport, and \<open>tools/main.go\<close>.
  \<^item> \<open>Remote\<close>, \<open>RemoteObjects\<close>: the server as the client's transport (\<open>server_transport\<close>, after
    \<open>gocommon/http.go\<close>): the request a call becomes, the text of the response, what is decoded from
    it, and the methods of the client over it. The lemmas of \<open>AlertStore\<close> are carried to the client
    inside the same locale.
  \<^item> \<open>DatabaseLaws\<close>, \<open>AlertLaws\<close>, \<open>EventTypeLaws\<close>, \<open>TriggerLaws\<close>, \<open>EventLaws\<close>, \<open>FiringLaws\<close>, \<open>CronLaws\<close>,
    \<open>Refusals\<close>: what each component does, proved once inside the locales of \<open>Indexes\<close>.
  \<^item> \<open>AlertStore\<close>: the alerts of the service as a simulation of an abstract store (locale
    \<open>silent_index\<close>, an index that reports the removal of a missing document without an error).
    \<open>Interleavings\<close>: the goroutines of \<open>PostEvent\<close> as an inductive relation in which they run in any
    order. \<open>Pipeline\<close>: event type, trigger and event after one another.
  \<^item> \<open>Orders\<close>, \<open>Replies\<close>, \<open>Safety\<close>, \<open>Runs\<close>: every request respects an order on states that the primitive
    operations respect (locale \<open>service_order\<close>, interpreted for the invariant of the mock indices and
    for the growth of log and queue); runs of the service as an inductive step relation.
    \<open>StartLaws\<close>: starting on the mock indices.
  \<^item> \<open>CronNext\<close>, \<open>CronLeast\<close>, \<open>CronLegal\<close>: the calendar and when \<open>Next\<close> ends, that it skips nothing,
    and what the parser guarantees. \<open>CronHang\<close>: the schedules the parser never returns on, read from
    their text (\<open>hanging_schedule\<close>), and that no other part of a request hangs. \<open>CronMarks\<close>: what a
    removal mark does when several entries of the runner share a key, by counting entries and jobs.
    \<open>EventFits\<close>: when data fits a mapping, read from the leaves of both (\<open>fits\<close>), that the check of an
    event decides it, and that firing triggers leaves the events alone. \<open>IdentLaws\<close>, \<open>Listings\<close>, \<open>Templates\<close>, \<open>CleanUps\<close>: identifiers,
    pages, substitution, the clean-up tool.
  \<^item> \<open>Promises\<close> has the vocabulary of the properties, \<open>Samples\<close> the small service their witnesses run on,
    and this theory the properties.

  Bounds and fuel. There is no fuel: the loop of \<open>getBits\<close> and the recursion of \<open>Next\<close> are
  \<open>partial_function (option)\<close>, so that a loop without end is the value \<open>None\<close>, and it is proved when
  they return (\<open>parse_ends_unless_step_is_zero\<close>,
  \<open>request_hangs_iff_schedule_does\<close>, \<open>next_activation_is_due\<close>). \<open>PollFunction\<close> polls
  twenty times, which is five seconds in steps of 250 milliseconds; \<open>WaitForService\<close> is a recursion
  on the time left and asks thirteen times. Go's \<open>int\<close> is an integer with
  \<open>wrap64\<close> after each operation that could leave 64 bits; bit sets of schedules and bytes of
  identifiers are words. Years are those of the proleptic Gregorian calendar, without bounds.

  What the model simplifies. The goroutines of \<open>PostEvent\<close> and of the tools run one after the other,
  each to its end; \<open>any_order_fires_the_same\<close> shows that the order does not matter where all of them
  succeed, but their unsynchronised writes to one Go map are not modelled. Go's order over a map is the order of an
  association list; a statement about every list is one about every order. A JSON number is the
  decimal its text denotes, not the nearest \<open>float64\<close>; the texts of errors of \<open>encoding/json\<close> are
  shortened; object keys are matched exactly. The members of a struct are written in the order of
  their keys. A time stamp that is read, the field \<open>createdOn\<close> of a body, may be any string: Go's
  \<open>TimeStamp.UnmarshalJSON\<close> refuses a text that is no time, and that error path is left out; the stamps
  the service makes itself are texts of times. A request's body is its first JSON value, as
  \<open>Decoder.Decode\<close> of gin's binding reads it. The network between client and server delivers what is sent, and the connection of
  a request whose handler panics breaks, because the generic server installs no recovery. The fields \<open>Inner\<close> and \<open>Metadata\<close> of a response are
  never set by the program and left out, and so are log lines, except for the audit log. A zone is
  a fixed offset.

  Not modelled: the client of the real Elasticsearch
  (\<open>pz-gocommon/elasticsearch/index.go\<close>), whose contract is the locales' assumption and which
  \<open>makeIndices\<close> takes as a parameter; the transport of the system log; gin's redirects, the AMQP
  connection, HTTP connections and the listening socket (parameters of \<open>GenericServer_Start\<close>); the
  discovery of hosts (\<open>VcapServices.go\<close>, \<open>SystemConfig.go\<close>); the shell scripts under \<open>db\<close>; the tests.
\<close>

section \<open>Events and triggers\<close>

text \<open>
  C1: A valid event posted to a healthy service is stored and answered with 201; every matching
  trigger that is enabled and of the event's type sends one job, with the event's data put into
  the job's text, and leaves one alert; the others send nothing. The event reads back.
\<close>
theorem event_fires_triggers:
  assumes "env_idx E = percolating_mock matches" "mock_healthy w"
    and et: "knows_type w et m" "ev_EventTypeID ev = et_EventTypeID et"
    and ev: "ev_Data ev = Some kvs" "json_entries kvs" "event_check m kvs = None"
    and fresh: "\<And>t. mock_docs (w_events w) t (next_ident E w) = None"
      "fresh_idents E (mock_docs (w_alerts w)) (w_rand w + 16) (2 * length ids)"
    and ids: "\<And>x. matches x (et_Name et) (percolated (et_Name et) ev) = ids"
      "\<And>i. i \<in> set ids \<Longrightarrow> stored_trigger (mock_docs (w_triggers w)) i = Some (trg i)"
    and ok: "access_granted E et"
      "\<And>i. i \<in> set ids \<Longrightarrow> fires et (trg i) \<Longrightarrow> queue_accepts E q (mq_body (job_message q kvs (trg i)))"
  shows "\<exists>w'. Service_PostEvent E ev w = (Ret (Some (typed_response 201 (PEvent (new_event E w ev)))), w') \<and>
    w_mq w' = w_mq w @ map (\<lambda>i. job_message q kvs (trg i)) (fired et trg ids) \<and>
    (\<forall>i \<in> set (fired et trg ids). alerted (mock_docs (w_alerts w')) (new_event E w ev) i) \<and>
    alerts_kept (mock_docs (w_alerts w)) (mock_docs (w_alerts w')) \<and>
    fst (Service_GetEvent E (next_ident E w) w') = Ret (Some (typed_response 200 (PEvent (new_event E w ev))))"
  by (rule perc.PostEvent_app [OF assms(1)])
     (use assms knows_typeD [OF et(1)] healthyD [OF assms(2)] in \<open>simp_all add: percolated_def\<close>)

theorem event_fires_triggers_witness:
  "\<exists>w'. Service_PostEvent demo_perc demo_event demo_world =
      (Ret (Some (typed_response 201 (PEvent (new_event demo_perc demo_world demo_event)))), w') \<and>
    w_mq w' = [job_message ''Request-Job-int'' demo_data (demo_trigger ''T1'' True)] \<and>
    alerted (mock_docs (w_alerts w')) (new_event demo_perc demo_world demo_event) ''T1''"
proof -
  let ?trg = "\<lambda>i. demo_trigger i (i = ''T1'')"
  have "\<exists>w'. Service_PostEvent demo_perc demo_event demo_world =
      (Ret (Some (typed_response 201 (PEvent (new_event demo_perc demo_world demo_event)))), w') \<and>
    w_mq w' = w_mq demo_world @ map (\<lambda>i. job_message ''Request-Job-int'' demo_data (?trg i))
      (fired demo_type ?trg [''T1'', ''T2'']) \<and>
    (\<forall>i \<in> set (fired demo_type ?trg [''T1'', ''T2'']).
      alerted (mock_docs (w_alerts w')) (new_event demo_perc demo_world demo_event) i) \<and>
    alerts_kept (mock_docs (w_alerts demo_world)) (mock_docs (w_alerts w')) \<and>
    fst (Service_GetEvent demo_perc (next_ident demo_perc demo_world) w') =
      Ret (Some (typed_response 200 (PEvent (new_event demo_perc demo_world demo_event))))"
    by (rule event_fires_triggers [where m = demo_mapping and matches = demo_matches])
       (simp_all add: demo_healthy demo_knows demo_json demo_fresh demo_stored demo_accepts demo_event_sel
         demo_matches_def)
  then show ?thesis by (simp add: demo_fired) blast
qed

text \<open>
  C11: The goroutines that fire the triggers may run in any order: every order sends the same jobs,
  counted with multiplicity, counts the same statistics, records no failure and leaves an alert
  for every fired trigger.
\<close>
theorem any_order_fires_the_same:
  assumes "env_idx E = percolating_mock matches" "mock_healthy w"
    and ids: "\<And>i. i \<in> set ids \<Longrightarrow> stored_trigger (mock_docs (w_triggers w)) i = Some (trg i)"
    and ok: "access_granted E et"
      "\<And>i. i \<in> set ids \<Longrightarrow> fires et (trg i) \<Longrightarrow> queue_accepts E q (mq_body (job_message q kvs (trg i)))"
    and ev: "map_of (entries_of (ev_Data ev)) (et_Name et) = Some (VMap kvs)"
    and fresh: "fresh_idents E (mock_docs (w_alerts w)) (w_rand w) (2 * length ids)"
    and run: "firing E et ev ids [] w rs w'"
  shows "rs = [] \<and> (\<exists>ms. w_mq w' = w_mq w @ ms \<and>
      mset ms = mset (map (\<lambda>i. job_message q kvs (trg i)) (fired et trg ids))) \<and>
    w_stats w' = ((\<lambda>s. IncrAlerts (IncrTriggerJobs s)) ^^ length (fired et trg ids)) (w_stats w) \<and>
    alerts_kept (mock_docs (w_alerts w)) (mock_docs (w_alerts w')) \<and>
    (\<forall>i \<in> set (fired et trg ids). alerted (mock_docs (w_alerts w')) ev i)"
proof (rule perc.firing_result [OF assms(1) _ ok ev _ _ fresh run])
  show "TriggerDB_GetOne E i v = (Ret (Some (trg i), True, None), v)"
    if "i \<in> set ids" "w_triggers v = w_triggers w" for i v
    using perc.TriggerDB_GetOne_stored [OF assms(1), of v i "trg i"] that ids healthyD [OF assms(2)] by simp
qed (use healthyD [OF assms(2)] in simp_all)

theorem any_order_fires_the_same_witness:
  "\<exists>w'. firing demo_perc demo_type (wrapped_event ''alpha'' demo_event) [''T2'', ''T1''] [] demo_world [] w' \<and>
    mset (w_mq w') = {#job_message ''Request-Job-int'' demo_data (demo_trigger ''T1'' True)#}"
proof -
  let ?trg = "\<lambda>i. demo_trigger i (i = ''T1'')" and ?ev = "wrapped_event ''alpha'' demo_event"
  have d: "map_of (entries_of (ev_Data ?ev)) (et_Name demo_type) = Some (VMap demo_data)"
    by (simp add: addUniqueParams_def of_gomap_def)
  have fr: "fresh_idents demo_perc (mock_docs (w_alerts demo_world)) (w_rand demo_world) (2 * length [''T2'', ''T1''])"
    using demo_fresh0 by simp
  have get: "TriggerDB_GetOne demo_perc i v = (Ret (Some (?trg i), True, None), v)"
    if "i \<in> set [''T2'', ''T1'']" "w_triggers v = w_triggers demo_world" for i v
    using perc.TriggerDB_GetOne_stored [of demo_perc demo_matches v i] demo_stored [of i] that by auto
  have "\<exists>w'. fire_triggers demo_perc demo_type ?ev [''T2'', ''T1''] [] demo_world = (Ret [], w')"
    using perc.fire_triggers_app [where rs = "[]" and w = demo_world, OF demo_env_sel(2) get demo_accepts(1)
      demo_accepts(2) d _ _ fr] by (auto simp: mapping_names)
  then obtain w' where run: "firing demo_perc demo_type ?ev [''T2'', ''T1''] [] demo_world [] w'"
    using fire_triggers_firing by blast
  note r = any_order_fires_the_same [OF demo_env_sel(2) demo_healthy _ demo_accepts(1) demo_accepts(2) d fr run,
      where trg = ?trg]
  have "fired demo_type ?trg [''T2'', ''T1''] = [''T1'']" by (simp add: fired_def fires_def demo_trigger_def)
  then have "mset (w_mq w') = {#job_message ''Request-Job-int'' demo_data (demo_trigger ''T1'' True)#}"
    using r demo_stored by auto
  with run show ?thesis by blast
qed

text \<open>
  C6: A trigger posted over a known event type is answered as posted, and reads back with the
  condition it was posted with, although it is stored under the type's name with tildes for
  dots; the numbers of the job's data are then JSON numbers. This holds for a type whose name has
  neither dot nor tilde (\<open>type_name_ok\<close>) and is no key of the condition itself, and for a condition
  whose keys have no tilde and either no dot or the prefix \<open>data.\<close> (\<open>cond_key\<close>): for a type named
  \<open>a.b\<close> the key \<open>data.x\<close> would read back as \<open>data.b.x\<close>.
\<close>
theorem trigger_roundtrip:
  assumes "env_idx E = mock_index" "mock_healthy w" "knows_type w et m" "type_name_ok (et_Name et)"
    "tr_EventTypeID t = et_EventTypeID et" "et_EventTypeID et \<noteq> []" "check_service E t = Inr ()"
    "mock_docs (w_triggers w) TriggerDBMapping (next_ident E w) = None"
    "tr_Condition t = Some kvs" "keys_ok_entries cond_key kvs" "json_entries kvs" "map_of kvs (et_Name et) = None"
  shows "\<exists>w'. Service_PostTrigger E t w = (Ret (Some (typed_response 201 (PTrigger (new_trigger E w t)))), w') \<and>
    fst (Service_GetTrigger E (next_ident E w) w') =
      Ret (Some (typed_response 200 (PTrigger (read_trigger (new_trigger E w t)))))"
  using mock.post_then_get [OF assms(1), of w t _ "wrapped_eventType et" kvs] assms(3-12)
    knows_typeD(1) [OF assms(3)] healthyD [OF assms(2)] knows_type_decodes [OF assms(3)] by auto

theorem trigger_roundtrip_witness:
  "\<exists>w'. Service_PostTrigger demo_env (demo_trigger [] True) demo_world =
      (Ret (Some (typed_response 201 (PTrigger (new_trigger demo_env demo_world (demo_trigger [] True))))), w') \<and>
    fst (Service_GetTrigger demo_env (next_ident demo_env demo_world) w') =
      Ret (Some (typed_response 200 (PTrigger (read_trigger (new_trigger demo_env demo_world (demo_trigger [] True))))))"
  by (rule trigger_roundtrip [OF demo_env_sel(1) demo_healthy demo_knows, where kvs = demo_condition])
     (simp_all add: demo_trigger_ok mapping_names demo_json)

section \<open>Repeating events\<close>

text \<open>
  C7: Deleting a stored repeating event of no system type marks its cron job. If at most one entry of the runner carries the
  event's key, as when \<open>PostRepeatingEvent\<close> registered it, then whatever the scheduler does
  afterwards, in any order, a job of that event is never started again, unless one is added anew.
  After a restart with several stored events more than one entry may carry the key
  (\<open>restored_jobs_share_the_last_event\<close>), and then \<open>shared_key_outlives_its_deletion\<close> holds instead.
\<close>
theorem deleted_repeating_event_never_runs:
  assumes "env_idx E = mock_index" "mock_healthy w" "stored_under w t i" "t \<noteq> []" "\<not> IsSystemEvent t"
    "mock_docs (w_crons w) CronDBMapping i \<noteq> None" "i \<noteq> []"
    "key_count cronEvent_Key i (entries (w_cron w)) \<le> 1"
    "cron_turns zone cronEvent_Key (w_cron (snd (Service_DeleteEvent E i w))) evs c'"
    "list_all (\<lambda>ev. \<not> adds_key cronEvent_Key i ev) evs"
  shows "fst (Service_DeleteEvent E i w) = Ret (Some (typed_response 200 PNil)) \<and>
    list_all (quiet cronEvent_Key i) evs"
proof -
  from assms(3) obtain d where "mock_docs (w_events w) t i = Some d" "\<forall>t'. t' \<noteq> t \<longrightarrow> mock_docs (w_events w) t' i = None"
    by (auto simp: stored_under_def)
  from plain.DeleteEvent_app [OF assms(1) _ _ this assms(4,5)] healthyD [OF assms(2)] assms(6)
  have del: "fst (Service_DeleteEvent E i w) = Ret (Some (typed_response 200 PNil))"
    "w_cron (snd (Service_DeleteEvent E i w)) = cron_Remove (env_clock E (w_time w)) i (w_cron w)" by auto
  from removed_job_never_runs [OF assms(9,7,10)] cron_Remove_gone [OF assms(8)] del show ?thesis by simp
qed

theorem deleted_repeating_event_never_runs_witness:
  "\<exists>c'. cron_turns 0 cronEvent_Key (w_cron (snd (Service_DeleteEvent demo_env ''R1'' demo_world))) [Fired []] c' \<and>
    fst (Service_DeleteEvent demo_env ''R1'' demo_world) = Ret (Some (typed_response 200 PNil)) \<and>
    list_all (quiet cronEvent_Key ''R1'') [Fired []]"
proof -
  have stored: "stored_under demo_world ''alpha'' ''R1''" by (simp add: stored_under_def)
  have cnt: "key_count cronEvent_Key ''R1'' (entries (w_cron demo_world)) \<le> 1" by code_simp
  have "w_cron (snd (Service_DeleteEvent demo_env ''R1'' demo_world)) = cron_Remove 0 ''R1'' demo_cron"
    using plain.DeleteEvent_app [of demo_env demo_world "''alpha''" "''R1''"]
    by (auto simp: mapping_names system_names demo_env_def mock_world_env_def)
  moreover have "recv_tick 0 cronEvent_Key 5 (cron_sort (cron_Remove 0 ''R1'' demo_cron)) =
      Ret ([], (cron_Remove 0 ''R1'' demo_cron)\<lparr>entries := [], removes := {}, now := 5\<rparr>)" by code_simp
  ultimately have turns: "cron_turns 0 cronEvent_Key (w_cron (snd (Service_DeleteEvent demo_env ''R1'' demo_world)))
      [Fired []] ((cron_Remove 0 ''R1'' demo_cron)\<lparr>entries := [], removes := {}, now := 5\<rparr>)"
    using cron_turn.turn_tick [OF cron_sort_sorted, of 0 cronEvent_Key 5 "cron_Remove 0 ''R1'' demo_cron" "[]"]
    by (auto simp: cron_sort_def intro!: cron_turns.intros)
  have "fst (Service_DeleteEvent demo_env ''R1'' demo_world) = Ret (Some (typed_response 200 PNil)) \<and>
      list_all (quiet cronEvent_Key ''R1'') [Fired []]"
    by (rule deleted_repeating_event_never_runs [OF demo_env_sel(1) demo_healthy stored _ _ _ _ cnt turns])
       (simp_all add: mapping_names system_names adds_key_def)
  with turns show ?thesis by blast
qed

text \<open>
  C17: Deleting a stored repeating event of no system type whose key several entries of the runner carry, as after a restart
  with several stored events, stops one of them only. Whatever the scheduler does afterwards, as
  long as no job of that key is added and the key is not removed again, all but one of the entries
  stay, when their schedules go on (all but \<open>@now\<close> do); and a later tick starts every job of the
  deleted event that is due, but for the one that takes the mark with it.
\<close>
theorem shared_key_outlives_its_deletion:
  assumes "env_idx E = mock_index" "mock_healthy w" "stored_under w t i" "t \<noteq> []" "\<not> IsSystemEvent t"
    "mock_docs (w_crons w) CronDBMapping i \<noteq> None" "i \<noteq> []"
    "all_go_on cronEvent_Key i (entries (w_cron w))"
    "cron_turns zone cronEvent_Key (w_cron (snd (Service_DeleteEvent E i w))) evs c'"
    "list_all (\<lambda>ev. \<not> marks i ev \<and> \<not> adds_key cronEvent_Key i ev) evs"
    "sorted_by_time c' es" "effective zone (c'\<lparr>entries := es\<rparr>) = At eff"
    "recv_tick zone cronEvent_Key tm (c'\<lparr>entries := es\<rparr>) = Ret (st, c'')"
  shows "fst (Service_DeleteEvent E i w) = Ret (Some (typed_response 200 PNil)) \<and>
    key_count cronEvent_Key i (entries (w_cron w)) - 1 \<le> key_count cronEvent_Key i (entries c') \<and>
    job_count cronEvent_Key i st =
      due_count cronEvent_Key i eff es - spent i (removes c') (due_count cronEvent_Key i eff es)"
proof -
  from assms(3) obtain d where "mock_docs (w_events w) t i = Some d" "\<forall>t'. t' \<noteq> t \<longrightarrow> mock_docs (w_events w) t' i = None"
    by (auto simp: stored_under_def)
  from plain.DeleteEvent_app [OF assms(1) _ _ this assms(4,5)] healthyD [OF assms(2)] assms(6)
  have del: "fst (Service_DeleteEvent E i w) = Ret (Some (typed_response 200 PNil))"
    "w_cron (snd (Service_DeleteEvent E i w)) = cron_Remove (env_clock E (w_time w)) i (w_cron w)" by auto
  have "key_count cronEvent_Key i (entries (w_cron w)) - 1 \<le> survivors cronEvent_Key i c'"
    using cron_turns_keep [OF assms(9,7,10)] assms(8) by (simp add: del(2) cron_Remove_survivors)
  then have "key_count cronEvent_Key i (entries (w_cron w)) - 1 \<le> key_count cronEvent_Key i (entries c')"
    by (simp add: survivors_def split: if_splits)
  with del(1) recv_tick_starts [OF assms(12,13,7)] show ?thesis by simp
qed

text \<open>
  Two jobs carry the key of a deleted event, every five and every seven seconds: the tick at five
  drops the first with the mark, and the tick at seven starts the second.
\<close>
theorem shared_key_outlives_its_deletion_witness:
  "\<exists>c' st c''. cron_turns 0 cronEvent_Key (w_cron (snd (Service_DeleteEvent demo_env ''R1'' demo_shared))) [Fired []] c' \<and>
    fst (Service_DeleteEvent demo_env ''R1'' demo_shared) = Ret (Some (typed_response 200 PNil)) \<and>
    1 \<le> key_count cronEvent_Key ''R1'' (entries c') \<and>
    recv_tick 0 cronEvent_Key 7 c' = Ret (st, c'') \<and> job_count cronEvent_Key ''R1'' st = 1"
proof -
  let ?e = "(new_entry (ConstantDelaySchedule 7000000000) demo_shared_job)\<lparr>Next := At 7000000000\<rparr>"
  let ?r = "cron_Remove 0 ''R1'' demo_shared_cron"
  let ?c = "?r\<lparr>entries := [?e], removes := {}, now := 5\<rparr>"
  have stored: "stored_under demo_shared ''alpha'' ''R1''" by (simp add: stored_under_def)
  have cr: "w_cron (snd (Service_DeleteEvent demo_env ''R1'' demo_shared)) = ?r"
    using plain.DeleteEvent_app [of demo_env demo_shared "''alpha''" "''R1''"]
    by (auto simp: mapping_names system_names demo_env_def mock_world_env_def)
  have go: "all_go_on cronEvent_Key ''R1'' (entries (w_cron demo_shared))"
    "key_count cronEvent_Key ''R1'' (entries (w_cron demo_shared)) = 2"
    unfolding demo_shared_sel by code_simp+
  have ticks: "recv_tick 0 cronEvent_Key 5 (cron_sort ?r) = Ret ([], ?c)"
    "sort_key Next (entries ?c) = entries ?c" "effective 0 ?c = At 7000000000"
    "\<exists>st c''. recv_tick 0 cronEvent_Key 7 ?c = Ret (st, c'')" "due_count cronEvent_Key ''R1'' 7000000000 (entries ?c) = 1"
    "removes ?c = {}" subgoal by code_simp subgoal by code_simp subgoal by code_simp
    subgoal by (rule recv_tick_returns) subgoal by code_simp subgoal by simp done
  then obtain st c'' where st: "recv_tick 0 cronEvent_Key 7 ?c = Ret (st, c'')" by blast
  have turns: "cron_turns 0 cronEvent_Key (w_cron (snd (Service_DeleteEvent demo_env ''R1'' demo_shared))) [Fired []] ?c"
    using cron_turn.turn_tick [OF cron_sort_sorted, of 0 cronEvent_Key 5 ?r "[]"] ticks(1) cr
    by (auto simp: cron_sort_def intro!: cron_turns.intros)
  have same: "?c\<lparr>entries := entries ?c\<rparr> = ?c" by simp
  have sorted: "sorted_by_time ?c (entries ?c)" using cron_sort_sorted [of ?c] ticks(2) by (simp add: cron_sort_def)
  have "fst (Service_DeleteEvent demo_env ''R1'' demo_shared) = Ret (Some (typed_response 200 PNil)) \<and>
      key_count cronEvent_Key ''R1'' (entries (w_cron demo_shared)) - 1 \<le> key_count cronEvent_Key ''R1'' (entries ?c) \<and>
      job_count cronEvent_Key ''R1'' st = due_count cronEvent_Key ''R1'' 7000000000 (entries ?c) -
        spent ''R1'' (removes ?c) (due_count cronEvent_Key ''R1'' 7000000000 (entries ?c))"
    by (rule shared_key_outlives_its_deletion [OF demo_env_sel(1) demo_healthy_shared stored _ _ _ _ go(1) turns _ sorted,
          unfolded same, OF _ _ _ _ _ ticks(3) st])
       (simp_all add: mapping_names system_names adds_key_def marks_def)
  then show ?thesis unfolding go(2) ticks(5,6) using turns st
    by (intro exI [of _ ?c] exI [of _ st] exI [of _ c'']) (simp add: spent_def)
qed

text \<open>
  C12: One tick of the scheduler starts exactly the jobs that are due and not marked, keeps the
  others, and gives each kept entry its next time: the loop with its index and slice copies
  computes the plain recursion \<open>tick_ref\<close>.
\<close>
theorem tick_loop_is_reference:
  assumes "effective zone c = At eff"
  shows "recv_tick zone key_of t c = obind (tick_ref zone key_of eff (removes c) (entries c))
    (\<lambda>(es, rem, st). Ret (st, c\<lparr>entries := es, removes := rem, now := t\<rparr>))"
  by (rule recv_tick_ref [OF assms])

theorem tick_loop_is_reference_witness:
  "effective 0 demo_cron = At 5000000000 \<and>
   recv_tick 0 cronEvent_Key 5 demo_cron = obind (tick_ref 0 cronEvent_Key 5000000000 (removes demo_cron) (entries demo_cron))
    (\<lambda>(es, rem, st). Ret (st, demo_cron\<lparr>entries := es, removes := rem, now := 5\<rparr>))"
proof -
  have "effective 0 demo_cron = At 5000000000" by code_simp
  with tick_loop_is_reference [OF this] show ?thesis by blast
qed

text \<open>
  C18: Restoring the repeating events at startup registers one job per event, but all of these jobs
  run the last of the events: each took the address of the loop's one variable.
\<close>
theorem restored_jobs_share_the_last_event:
  assumes "initCron_loop E n0 es w = (Ret None, w')" "es \<noteq> []" "\<not> running (w_cron w)"
    "n0 \<le> length (entries (w_cron w))"
  shows "list_all (\<lambda>j. ce_Event j = last es) (jobs_from n0 w') \<and>
    length (jobs_from n0 w') = length (jobs_from n0 w) + length es"
  by (rule initCron_loop_shares [OF assms])

theorem restored_jobs_share_the_last_event_witness:
  "\<exists>w'. initCron_loop demo_env 0 [demo_repeating, demo_repeating2] (demo_world\<lparr>w_cron := cron_New\<rparr>) = (Ret None, w') \<and>
    map ce_Event (jobs_from 0 w') = [demo_repeating2, demo_repeating2] \<and> demo_repeating \<noteq> demo_repeating2"
proof -
  obtain w' where r: "initCron_loop demo_env 0 [demo_repeating, demo_repeating2]
      (demo_world\<lparr>w_cron := cron_New\<rparr>) = (Ret None, w')" using demo_restore by blast
  from restored_jobs_share_the_last_event [OF r] have
    "list_all (\<lambda>j. ce_Event j = demo_repeating2) (jobs_from 0 w')" "length (jobs_from 0 w') = 2"
    by (auto simp: cron_New_def jobs_from_def)
  then have "map ce_Event (jobs_from 0 w') = [demo_repeating2, demo_repeating2]"
    by (auto simp: numeral_2_eq_2 length_Suc_conv)
  with r show ?thesis by (simp add: demo_repeating2_def demo_repeating_def)
qed

text \<open>C19: A schedule that does not parse is refused with its error, and nothing changes.\<close>
theorem bad_schedule_is_refused:
  assumes "env_idx E = mock_index" "mock_healthy w" "knows_type w et m" "ev_EventTypeID ev = et_EventTypeID et"
    "cron_Parse (ev_CronSchedule ev) = Ret (Inl e)"
  shows "Service_PostRepeatingEvent E ev w = (Ret (Some (message_response 400 [] e (env_Name E))), w)"
  using mock.PostRepeatingEvent_refused [OF assms(1)] healthyD [OF assms(2)] knows_typeD(1) [OF assms(3)] assms(4,5)
  by simp

theorem bad_schedule_is_refused_witness:
  "Service_PostRepeatingEvent demo_env (demo_event\<lparr>ev_CronSchedule := ''@never''\<rparr>) demo_world =
    (Ret (Some (message_response 400 [] ''Unrecognized descriptor: @never'' (env_Name demo_env))), demo_world)"
proof -
  have p: "cron_Parse ''@never'' = Ret (Inl ''Unrecognized descriptor: @never'')" by code_simp
  show ?thesis
    by (rule bad_schedule_is_refused [OF demo_env_sel(1) demo_healthy demo_knows]) (simp_all add: p)
qed

text \<open>
  C20: Posting a repeating event of a known type never returns exactly when its schedule is a hanging one: five or
  six fields whose first range that does not simply read has a start and an end within the bounds
  and the step zero, so that the parser's loop adds zero for ever. Every other schedule is accepted
  or refused: with step zero in a range that is out of bounds, or after a range that does not
  read, the parser panics first.
\<close>
theorem request_hangs_iff_schedule_does:
  assumes "env_idx E = mock_index" "mock_healthy w" "knows_type w et m" "ev_EventTypeID ev = et_EventTypeID et"
  shows "if hanging_schedule (ev_CronSchedule ev) then Service_PostRepeatingEvent E ev w = (Hang, w)
    else fst (Service_PostRepeatingEvent E ev w) \<noteq> Hang"
  using PostRepeatingEvent_Hang_iff [OF assms(1), of w ev et] mock.PostRepeatingEvent_hangs [OF assms(1), of w ev et]
    healthyD [OF assms(2)] knows_typeD(1) [OF assms(3)] assms(4) by (simp add: cron_Parse_Hang_iff)

theorem request_hangs_iff_schedule_does_witness:
  "Service_PostRepeatingEvent demo_env (demo_event\<lparr>ev_CronSchedule := ''*/0 * * * *''\<rparr>) demo_world = (Hang, demo_world) \<and>
   Service_PostRepeatingEvent demo_env (demo_event\<lparr>ev_CronSchedule := ''0 0 5 1,jan-mar,3-9/0 *''\<rparr>) demo_world \<noteq> (Hang, demo_world) \<and>
   Service_PostRepeatingEvent demo_env (demo_event\<lparr>ev_CronSchedule := ''0 0 5 1,7/0 jan-mar *''\<rparr>) demo_world = (Hang, demo_world) \<and>
   fst (Service_PostRepeatingEvent demo_env (demo_event\<lparr>ev_CronSchedule := ''3-2/0 * * * *''\<rparr>) demo_world) \<noteq> Hang \<and>
   fst (Service_PostRepeatingEvent demo_env (demo_event\<lparr>ev_CronSchedule := ''70/0 * * * *''\<rparr>) demo_world) \<noteq> Hang"
proof -
  have h: "hanging_schedule ''*/0 * * * *''" "\<not> hanging_schedule ''0 0 5 1,jan-mar,3-9/0 *''"
    "hanging_schedule ''0 0 5 1,7/0 jan-mar *''" "\<not> hanging_schedule ''3-2/0 * * * *''"
    "\<not> hanging_schedule ''70/0 * * * *''" by code_simp+
  have p: "if hanging_schedule s then Service_PostRepeatingEvent demo_env (demo_event\<lparr>ev_CronSchedule := s\<rparr>) demo_world = (Hang, demo_world)
    else fst (Service_PostRepeatingEvent demo_env (demo_event\<lparr>ev_CronSchedule := s\<rparr>) demo_world) \<noteq> Hang" for s
    using request_hangs_iff_schedule_does [OF demo_env_sel(1) demo_healthy demo_knows,
        where ev = "demo_event\<lparr>ev_CronSchedule := s\<rparr>"] by simp
  show ?thesis using p [of "''*/0 * * * *''"] p [of "''0 0 5 1,jan-mar,3-9/0 *''"] p [of "''0 0 5 1,7/0 jan-mar *''"]
      p [of "''3-2/0 * * * *''"] p [of "''70/0 * * * *''"] by (auto simp: h)
qed

section \<open>Event types\<close>



text \<open>
  C21: A name that is already the name of an event type, or of any type of the events, is refused
  and nothing changes.
\<close>
theorem taken_name_is_refused:
  assumes "env_idx E = mock_index" "mock_healthy w" "names_ok (mock_docs (w_eventTypes w))"
    "mock_has_type (w_events w) (et_Name et) \<or> name_taken (mock_docs (w_eventTypes w)) (et_Name et)"
  shows "\<exists>r. Service_PostEventType E et w = (Ret (Some r), w) \<and> StatusCode r \<in> {400, 500}"
  using mock.PostEventType_taken [OF assms(1) _ _ assms(3,4)] healthyD [OF assms(2)] by blast

theorem taken_name_is_refused_witness:
  "\<exists>r. Service_PostEventType demo_env demo_type demo_world = (Ret (Some r), demo_world) \<and> StatusCode r \<in> {400, 500}"
  by (rule taken_name_is_refused [OF demo_env_sel(1) demo_healthy demo_names(1)]) simp

text \<open>C15: However a request to create an event type ends, names of event types stay unique.\<close>
theorem event_type_names_stay_unique:
  assumes "env_idx E = mock_index" "mock_healthy w" "names_ok (mock_docs (w_eventTypes w))"
    "mock_docs (w_eventTypes w) EventTypeDBMapping (next_ident E w) = None"
    "names_unique (mock_docs (w_eventTypes w))"
  shows "names_unique (mock_docs (w_eventTypes (snd (Service_PostEventType E et w))))"
  using mock.PostEventType_names_unique [OF assms(1) _ _ assms(3) _ assms(4,5)] healthyD [OF assms(2)] by blast

theorem event_type_names_stay_unique_witness:
  "names_unique (mock_docs (w_eventTypes (snd (Service_PostEventType demo_env demo_type2 demo_world))))"
  by (rule event_type_names_stay_unique [OF demo_env_sel(1) demo_healthy demo_names(1) _ demo_names(2)])
     (simp add: mapping_names)

text \<open>
  C22: The schema sent to the index exists exactly for the mappings whose leaves, at every depth,
  name an element type of the index (or an array of one).
\<close>
theorem schema_exists_iff_types_valid:
  assumes "wf_entries m"
  shows "(\<exists>v. ConstructEventMappingSchema name (Some m) = Inr v) \<longleftrightarrow> mapping_ok_entries m"
  using buildMapping_iff [OF assms] by (auto simp: ConstructEventMappingSchema_def split: sum.splits)

theorem schema_exists_iff_types_valid_witness:
  "(\<exists>v. ConstructEventMappingSchema ''beta'' (Some demo_mapping2) = Inr v) \<longleftrightarrow> mapping_ok_entries demo_mapping2"
  by (rule schema_exists_iff_types_valid) simp

text \<open>
  C23: System event types are never deleted, nor is an event of one of them, and the refusal changes
  nothing.
\<close>
theorem system_objects_are_kept:
  assumes "env_idx E = mock_index" "mock_healthy w"
  shows "(knows_type w et m \<and> IsSystemEvent (et_Name et) \<longrightarrow>
      (\<exists>r. Service_DeleteEventType E (et_EventTypeID et) w = (Ret (Some r), w) \<and> StatusCode r = 400)) \<and>
    (stored_under w t i \<and> IsSystemEvent t \<longrightarrow>
      (\<exists>r. Service_DeleteEvent E i w = (Ret (Some r), w) \<and> StatusCode r = 400))"
proof (intro conjI impI; elim conjE)
  show "\<exists>r. Service_DeleteEventType E (et_EventTypeID et) w = (Ret (Some r), w) \<and> StatusCode r = 400"
    if "knows_type w et m" "IsSystemEvent (et_Name et)"
    using mock.DeleteEventType_system [OF assms(1) _ knows_typeD(1) [OF that(1)] knows_type_decodes [OF that(1)]]
      healthyD [OF assms(2)] that(2) by simp
  show "\<exists>r. Service_DeleteEvent E i w = (Ret (Some r), w) \<and> StatusCode r = 400"
    if "stored_under w t i" "IsSystemEvent t"
    using plain.DeleteEvent_system [OF assms(1) _ _ _ that(2)] healthyD [OF assms(2)] that(1)
    by (auto simp: stored_under_def)
qed

theorem system_objects_are_kept_witness:
  "(\<exists>r. Service_DeleteEventType demo_env ''E9'' demo_world9 = (Ret (Some r), demo_world9) \<and> StatusCode r = 400) \<and>
   (\<exists>r. Service_DeleteEvent demo_env ''S1'' demo_world = (Ret (Some r), demo_world) \<and> StatusCode r = 400)"
proof
  show "\<exists>r. Service_DeleteEventType demo_env ''E9'' demo_world9 = (Ret (Some r), demo_world9) \<and> StatusCode r = 400"
    using system_objects_are_kept [OF demo_env_sel(1) demo_healthy9, of demo_type9 demo_mapping] demo_knows9
    by (simp add: demo_type9_def system_names)
  show "\<exists>r. Service_DeleteEvent demo_env ''S1'' demo_world = (Ret (Some r), demo_world) \<and> StatusCode r = 400"
    using system_objects_are_kept [OF demo_env_sel(1) demo_healthy, of _ _ "''piazza:ingest''" "''S1''"]
    by (simp add: stored_under_def system_names)
qed

section \<open>Alerts\<close>

text \<open>
  A posted alert reads back as it was answered, is deleted once, and is then not found; the
  number of alerts in the statistics only counts the creation.
\<close>
theorem alert_is_read_then_deleted:
  assumes "env_idx E = mock_index" "mock_healthy w"
    "mock_docs (w_alerts w) AlertDBMapping (next_ident E w) = None"
  shows "\<exists>w1 w2 r.
    Service_PostAlert E a w = (Ret (Some (typed_response 201 (PAlert (new_alert E w a)))), w1) \<and>
    fst (Service_GetAlert E (next_ident E w) w1) = Ret (Some (typed_response 200 (PAlert (new_alert E w a)))) \<and>
    Service_DeleteAlert E (next_ident E w) w1 = (Ret (Some (typed_response 200 PNil)), w2) \<and>
    fst (Service_GetAlert E (next_ident E w) w2) = Ret (Some r) \<and> StatusCode r = 404 \<and>
    w_stats w2 = IncrAlerts (w_stats w)"
  using mock.alert_lifecycle [OF assms(1) _ _ assms(3)] healthyD [OF assms(2)] by blast

theorem alert_is_read_then_deleted_witness:
  "\<exists>w1 w2 r.
    Service_PostAlert demo_env demo_alert demo_world =
      (Ret (Some (typed_response 201 (PAlert (new_alert demo_env demo_world demo_alert)))), w1) \<and>
    fst (Service_GetAlert demo_env (next_ident demo_env demo_world) w1) =
      Ret (Some (typed_response 200 (PAlert (new_alert demo_env demo_world demo_alert)))) \<and>
    Service_DeleteAlert demo_env (next_ident demo_env demo_world) w1 = (Ret (Some (typed_response 200 PNil)), w2) \<and>
    fst (Service_GetAlert demo_env (next_ident demo_env demo_world) w2) = Ret (Some r) \<and> StatusCode r = 404 \<and>
    w_stats w2 = IncrAlerts (w_stats demo_world)"
  by (rule alert_is_read_then_deleted [OF demo_env_sel(1) demo_healthy]) simp

text \<open>C24: What was never stored, or is gone, is answered with 404, for each kind of object.\<close>
theorem missing_objects_are_not_found:
  assumes "env_idx E = mock_index" "mock_healthy w"
    "mock_docs (w_eventTypes w) EventTypeDBMapping i = None" "mock_docs (w_triggers w) TriggerDBMapping i = None"
    "mock_docs (w_alerts w) AlertDBMapping i = None" "\<And>t. mock_docs (w_events w) t i = None"
  shows "(\<exists>r. fst (Service_GetEventType E i actor w) = Ret (Some r) \<and> StatusCode r = 404) \<and>
    (\<exists>r. fst (Service_GetTrigger E i w) = Ret (Some r) \<and> StatusCode r = 404) \<and>
    (\<exists>r. fst (Service_GetAlert E i w) = Ret (Some r) \<and> StatusCode r = 404) \<and>
    (\<exists>r. fst (Service_GetEvent E i w) = Ret (Some r) \<and> StatusCode r = 404) \<and>
    (\<exists>r. fst (Service_DeleteEvent E i w) = Ret (Some r) \<and> StatusCode r = 404)"
  using mock.GetEventType_miss [OF assms(1) _ assms(3)] mock.GetTrigger_miss [OF assms(1) _ assms(4)]
    mock.GetAlert_miss [OF assms(1) _ assms(5)] plain.missing_event [OF assms(1), of w i] healthyD [OF assms(2)]
    assms(6) by simp

theorem missing_objects_are_not_found_witness:
  "(\<exists>r. fst (Service_GetEventType demo_env ''none'' ''reader'' demo_world) = Ret (Some r) \<and> StatusCode r = 404) \<and>
    (\<exists>r. fst (Service_GetTrigger demo_env ''none'' demo_world) = Ret (Some r) \<and> StatusCode r = 404) \<and>
    (\<exists>r. fst (Service_GetAlert demo_env ''none'' demo_world) = Ret (Some r) \<and> StatusCode r = 404) \<and>
    (\<exists>r. fst (Service_GetEvent demo_env ''none'' demo_world) = Ret (Some r) \<and> StatusCode r = 404) \<and>
    (\<exists>r. fst (Service_DeleteEvent demo_env ''none'' demo_world) = Ret (Some r) \<and> StatusCode r = 404)"
  by (rule missing_objects_are_not_found [OF demo_env_sel(1) demo_healthy]) simp_all

section \<open>The running service\<close>

text \<open>
  C25: The service starts on fresh indices: every index is created, the polling ends, both system
  event types are there, under names that are unique, and the cron runner is empty.
\<close>
theorem service_starts_ready:
  assumes "env_idx E = mock_index" "ident_at E 0 \<noteq> ident_at E 16"
  shows "\<exists>w. NewKit E True makeMockIndices = (Ret None, w) \<and> mock_healthy w \<and>
    names_unique (mock_docs (w_eventTypes w)) \<and>
    name_taken (mock_docs (w_eventTypes w)) ingestTypeName \<and>
    name_taken (mock_docs (w_eventTypes w)) executeTypeName \<and>
    NumEventTypes (w_stats w) = 2 \<and> w_cron w = cron_New"
  using start_app [OF assms] by blast

theorem service_starts_ready_witness:
  "\<exists>w. NewKit demo_env True makeMockIndices = (Ret None, w) \<and> mock_healthy w \<and>
    names_unique (mock_docs (w_eventTypes w)) \<and>
    name_taken (mock_docs (w_eventTypes w)) ingestTypeName \<and>
    name_taken (mock_docs (w_eventTypes w)) executeTypeName \<and>
    NumEventTypes (w_stats w) = 2 \<and> w_cron w = cron_New"
proof (rule service_starts_ready)
  show "ident_at demo_env 0 \<noteq> ident_at demo_env 16" by code_simp
qed simp

text \<open>
  C13: Whatever requests the started service serves and whenever its runner ticks, its six indices
  stay well formed and keep the types that the service stores in them.
\<close>
theorem service_stays_ready:
  assumes "ident_at E 0 \<noteq> ident_at E 16" "NewKit (mock_env E) True makeMockIndices = (Ret None, w)"
    "service_run (mock_env E) w evs w'"
  shows "mock_healthy w'"
proof -
  have "ident_at (mock_env E) 0 \<noteq> ident_at (mock_env E) 16"
    using assms(1) by (simp add: ident_at_def mock_env_def)
  with start_app [of "mock_env E"] assms(2) have "mock_healthy w" by auto
  with mock_kept.run_respects [OF assms(3)] show ?thesis by (simp add: healthy_kept_def)
qed

theorem service_stays_ready_witness:
  "\<exists>w w'. NewKit (mock_env demo_env) True makeMockIndices = (Ret None, w) \<and>
    service_run (mock_env demo_env) w [Served demo_request (Ret (data_response 200 (PVersion Version)))] w' \<and>
    mock_healthy w'"
proof -
  have ids: "ident_at demo_env 0 \<noteq> ident_at demo_env 16" by code_simp
  with start_app [OF demo_env_sel(1)] obtain w where w: "NewKit (mock_env demo_env) True makeMockIndices = (Ret None, w)"
    by (auto simp: demo_env_mock)
  with service_stays_ready [OF ids w demo_run] demo_run show ?thesis by blast
qed

text \<open>
  C16: Over any index: the audit log and the messages sent only grow while the service runs, the
  positions in the random source and in the clock's readings never go back, and every answer a
  client gets has a status of the service.
\<close>
theorem runs_answer_and_only_append:
  assumes "service_run E w evs w'"
  shows "list_all ok_event evs \<and> log_grows w w'"
  using log_grows.run_respects [OF assms] by simp

theorem runs_answer_and_only_append_witness:
  "\<exists>w'. service_run demo_env demo_world [Served demo_request (Ret (data_response 200 (PVersion Version)))] w' \<and>
    ok_response (data_response 200 (PVersion Version)) \<and> log_grows demo_world w'"
  using runs_answer_and_only_append [OF demo_run [of demo_env demo_world]] demo_run
  by (auto simp: ok_event_def)

section \<open>Schedules\<close>

text \<open>
  C26: A specification that parses is legal: no bit of a field lies outside the field's bounds, a
  delay is a positive number of whole seconds, and a \<open>@now\<close> has not run yet.
\<close>
theorem parsed_schedules_are_legal:
  assumes "cron_Parse spec = Ret (Inr sch)"
  shows "legal_schedule sch"
  by (rule cron_Parse_legal [OF assms])

theorem parsed_schedules_are_legal_witness:
  "\<exists>s. cron_Parse ''0 30 5 * * mon-fri'' = Ret (Inr (SpecSchedule s)) \<and> legal_schedule (SpecSchedule s)"
proof -
  have "\<exists>s. cron_Parse ''0 30 5 * * mon-fri'' = Ret (Inr (SpecSchedule s))"
    by (rule exI [of _ demo_spec]) code_simp
  then show ?thesis using parsed_schedules_are_legal by blast
qed

text \<open>
  C27: The parser never panics, since it recovers, and it fails to return only if the step of some
  range reads as zero.
\<close>
theorem parse_ends_unless_step_is_zero:
  "(\<exists>r. cron_Parse spec = Ret r) \<or>
   (cron_Parse spec = Hang \<and> (\<exists>field \<in> set (strings_Fields spec). zero_step field))"
proof -
  have "\<not> zero_step ''*''"
  proof -
    have "fieldsFunc (\<lambda>c. c = CHR '','') ''*'' = [''*'']" "step_text ''*'' = None" by code_simp+
    then show ?thesis by (simp add: zero_step_def)
  qed
  then show ?thesis using cron_Parse_Hang [of spec] cron_Parse_no_panic [of spec]
    by (cases "cron_Parse spec") auto
qed

text \<open>
  C28: The next activation of a specification always exists as a value: either it is a later time on
  a whole second that matches every field, or it is Go's zero time, for never.
\<close>
theorem next_activation_is_due:
  "\<exists>r. spec_Next zone s t0 = Some r \<and> (r = ZeroTime \<or> (\<exists>t. r = At t \<and> t0 < t \<and>
     nanos_per_second dvd t \<and> due zone s t))"
  by (rule spec_Next_returns)

text \<open>
  C8: In a zone of whole hours nothing is skipped: no earlier whole second after the present
  matches, and with the zero time none of the next five years does.
\<close>
theorem next_activation_is_least:
  assumes "zone mod 3600 = 0" "spec_Next zone s t0 = Some r" "t0 < v" "nanos_per_second dvd v" "At v < r"
    "t_Year zone v \<le> t_Year zone t0 + 5"
  shows "\<not> due zone s v"
  by (rule spec_Next_least [OF assms])

theorem next_activation_is_least_witness:
  "spec_Next 0 demo_spec 0 = Some (At 19800000000000) \<and> \<not> due 0 demo_spec 7000000000"
proof -
  have n: "spec_Next 0 demo_spec 0 = Some (At 19800000000000)" by code_simp
  have y: "t_Year 0 7000000000 \<le> t_Year 0 0 + 5" by code_simp
  have "\<not> due 0 demo_spec 7000000000"
    by (rule next_activation_is_least [OF _ n _ _ _ y]) (simp_all add: less_gtime_def nanos_per_second_def)
  with n show ?thesis by simp
qed

text \<open>
  In a zone with a half hour an activation can be missed: every day at five, asked at ten past
  one, is the next day's five, although this day's is due.
\<close>
theorem half_hour_zone_misses_an_activation:
  "cron_Parse ''0 0 5 * * *'' = Ret (Inr (SpecSchedule demo_five)) \<and>
   t_Hour 19800 70800000000000 = 1 \<and> t_Minute 19800 70800000000000 = 10 \<and>
   due 19800 demo_five 84600000000000 \<and> (70800000000000::int) < 84600000000000 \<and>
   spec_Next 19800 demo_five 70800000000000 = Some (At (84600000000000 + nanos_per_day))"
proof (intro conjI)
  show "cron_Parse ''0 0 5 * * *'' = Ret (Inr (SpecSchedule demo_five))" by code_simp
  show "t_Hour 19800 70800000000000 = 1" "t_Minute 19800 70800000000000 = 10" by code_simp+
  show "due 19800 demo_five 84600000000000" by code_simp
  show "spec_Next 19800 demo_five 70800000000000 = Some (At (84600000000000 + nanos_per_day))" by code_simp
qed simp

text \<open>
  C29: The runner never waits for a schedule: starting it and each of its ticks return, and adding a
  job returns if and only if its specification parses to an end.
\<close>
theorem runner_always_returns:
  "(\<exists>c'. cron_Start zone t c = Ret c') \<and> (\<exists>st c'. recv_tick zone key_of t c = Ret (st, c')) \<and>
   (cron_AddJob zone t spec cmd c = Hang \<longleftrightarrow> cron_Parse spec = Hang)"
  by (intro conjI cron_Start_returns recv_tick_returns cron_AddJob_Hang)

section \<open>Identifiers\<close>

text \<open>
  C30: Every identifier the service makes is a version 4 UUID: 36 characters, hyphens in the four
  places, the digit 4 for the version and one of 8, 9, a and b for the variant. Making one takes
  sixteen bytes of the random source and changes nothing else, and two are equal exactly if the
  random bytes behind them are, but for the four bits of the version and the two of the variant.
\<close>
theorem identifiers_are_version_4:
  "newIdent E w = (Ret (next_ident E w), w\<lparr>w_rand := w_rand w + 16\<rparr>) \<and> ValidUuid (next_ident E w) \<and>
   length (next_ident E w) = 36 \<and> next_ident E w ! 14 = CHR ''4'' \<and>
   next_ident E w ! 19 \<in> {CHR ''8'', CHR ''9'', CHR ''a'', CHR ''b''} \<and>
   (next_ident E v = next_ident E w \<longleftrightarrow>
     map (\<lambda>i. env_rand E (w_rand v + i) AND kept_bits i) [0..<16] =
     map (\<lambda>i. env_rand E (w_rand w + i) AND kept_bits i) [0..<16])"
proof -
  have "next_ident E v = next_ident E w \<longleftrightarrow>
     map (\<lambda>i. env_rand E (w_rand v + i) AND kept_bits i) [0..<16] =
     map (\<lambda>i. env_rand E (w_rand w + i) AND kept_bits i) [0..<16]"
    unfolding next_ident_at by (auto simp: ident_at_eq_iff)
  then show ?thesis
    using ident_version [of E "w_rand w"] ident_variant [of E "w_rand w"] length_ident_at [of E "w_rand w"]
      next_ident_valid [of E w] by (simp add: newIdent_app next_ident_at)
qed

section \<open>Lists\<close>

text \<open>
  C14: Asking for page after page lists every stored alert once, in the order of the identifiers,
  and each page says how many there are.
\<close>
theorem alert_pages_list_every_alert:
  assumes "env_idx E = mock_index" "mock_healthy w" "all_decode dec_alert (w_alerts w) AlertDBMapping"
    "0 < n" "in_int64 (int (m * n))" "card {i. mock_docs (w_alerts w) AlertDBMapping i \<noteq> None} \<le> m * n"
  shows "\<exists>pages. (\<forall>k < m. fst (Service_GetAllAlerts E (page_params n k) w) =
      Ret (Some (page_response n k (card {i. mock_docs (w_alerts w) AlertDBMapping i \<noteq> None}) (PAlerts (pages k))))) \<and>
    concat (map pages [0..<m]) = listed dec_alert (w_alerts w) AlertDBMapping \<and>
    set (concat (map pages [0..<m])) = {projr (dec_alert d) |d. \<exists>i. mock_docs (w_alerts w) AlertDBMapping i = Some d}"
proof -
  let ?l = "listed dec_alert (w_alerts w) AlertDBMapping" and ?cnt = "card {i. mock_docs (w_alerts w) AlertDBMapping i \<noteq> None}"
  let ?pages = "\<lambda>k. take n (drop (k * n) ?l)"
  note h = healthyD(4,8) [OF assms(2)]
  have len: "length ?l = ?cnt" by (rule length_listed [OF h(1) _ h(2)]) (simp add: AlertDBMapping_def)
  have "fst (Service_GetAllAlerts E (page_params n k) w) = Ret (Some (page_response n k ?cnt (PAlerts (?pages k))))"
    if "k < m" for k
  proof -
    have "(k + 1) * n \<le> m * n" using that by (intro mult_le_mono) simp_all
    then have "in_int64 (int ((k + 1) * n))" using assms(5) unfolding in_int64_def by linarith
    from GetAllAlerts_page [OF assms(1) h assms(3,4) this] show ?thesis unfolding len .
  qed
  moreover have "concat (map ?pages [0..<m]) = ?l" using assms(6) len by (simp add: concat_pages)
  moreover have "set ?l = {projr (dec_alert d) |d. \<exists>i. mock_docs (w_alerts w) AlertDBMapping i = Some d}"
    by (rule set_listed [OF h(1) _ h(2)]) (simp add: AlertDBMapping_def)
  ultimately show ?thesis by (intro exI [of _ ?pages]) simp
qed

theorem alert_pages_list_every_alert_witness:
  "\<exists>pages. (\<forall>k < 2. fst (Service_GetAllAlerts demo_env (page_params 2 k) demo_world3) =
      Ret (Some (page_response 2 k (card {i. mock_docs (w_alerts demo_world3) AlertDBMapping i \<noteq> None})
        (PAlerts (pages k))))) \<and>
    concat (map pages [0..<2]) = listed dec_alert (w_alerts demo_world3) AlertDBMapping"
proof -
  have "{i. mock_docs (w_alerts demo_world3) ''Alert'' i \<noteq> None} = {''A1'', ''A2'', ''A3''}"
    by (auto simp: demo_docs3)
  then have "card {i. mock_docs (w_alerts demo_world3) AlertDBMapping i \<noteq> None} \<le> 2 * 2"
    by (simp add: mapping_names)
  from alert_pages_list_every_alert [OF demo_env_sel(1) demo_healthy3 _ _ _ this] demo_decode3
  show ?thesis by (simp add: mapping_names in_int64_def) blast
qed

text \<open>
  C31: A negative page is not refused: the index slices out of bounds, the service recovers with no
  response at all, and the server dereferences it.
\<close>
theorem negative_page_panics:
  assumes "env_idx E = mock_index" "mock_healthy w" "p < 0" "in_int64 (p * 10)"
  shows "fst (Service_GetAllAlerts E \<lparr>raw = [(''page'', itoa p)]\<rparr> w) = Ret None \<and>
    fst (Server_serve E \<lparr>rq_verb = ''GET'', rq_path = ''/alert'', rq_query = [(''page'', [itoa p])], rq_body = []\<rparr> w) =
      nil_deref"
proof -
  have s: "fst (Service_GetAllAlerts E \<lparr>raw = [(''page'', itoa p)]\<rparr> w) = Ret None"
    by (rule GetAllAlerts_negative [OF assms(1) healthyD(4,8) [OF assms(2)] assms(3,4)])
  have "find_route E ''GET'' ''/alert'' = Some (handleGetAllAlerts E, [])"
    by (simp add: find_route_def Routes_def match_route_def)
  with s show ?thesis
    by (cases "Service_GetAllAlerts E \<lparr>raw = [(''page'', itoa p)]\<rparr> w")
       (simp add: Server_serve_def handleGetAllAlerts_def with_params_def NewQueryParams_def bnd_def lift_def
         GinReturnJson_def)
qed

theorem negative_page_panics_witness:
  "fst (Server_serve demo_env \<lparr>rq_verb = ''GET'', rq_path = ''/alert'', rq_query = [(''page'', [''-1''])], rq_body = []\<rparr>
     demo_world) = nil_deref"
proof -
  have "itoa (- 1) = ''-1''" by code_simp
  with negative_page_panics [OF demo_env_sel(1) demo_healthy, of "- 1"] show ?thesis by (simp add: in_int64_def)
qed

section \<open>The text of a job\<close>

text \<open>
  C32: Putting an event's data into the text of a job fills in exactly the variables of the text
  that the data has, in whatever order the data's map is traversed, when no name is a prefix of
  another and no value has a dollar sign.
\<close>
theorem substitution_fills_the_template:
  assumes "separate K" "fst ` set kvs \<subseteq> K" "template_ok K tpl" "distinct (map fst kvs)"
    "\<forall>v \<in> snd ` set kvs. CHR ''$'' \<notin> set (sprint v)" "mset kvs' = mset kvs"
  shows "substitute kvs' (render tpl) = render (fill (\<lambda>k. map_option sprint (map_of kvs k)) tpl)"
proof -
  have s: "set kvs' = set kvs" using assms(6) by (metis set_mset_mset)
  have d: "distinct (map fst kvs')" using assms(4,6) by (metis mset_eq_imp_distinct_iff mset_map)
  have "map_of kvs' = map_of kvs" using s assms(4) d by (simp add: map_of_inject_set)
  moreover have "substitute kvs' (render tpl) = render (fill (\<lambda>k. map_option sprint (map_of kvs' k)) tpl)"
    by (rule substitute_render [OF assms(1)]) (use assms(2,3,5) s d in simp_all)
  ultimately show ?thesis by simp
qed

theorem substitution_fills_the_template_witness:
  "substitute (rev demo_data) (render demo_template) = ''run seven on 7 times $other''"
proof -
  have v: "\<forall>v \<in> snd ` set demo_data. CHR ''$'' \<notin> set (sprint v)" by code_simp
  have "substitute (rev demo_data) (render demo_template) =
      render (fill (\<lambda>k. map_option sprint (map_of demo_data k)) demo_template)"
    by (rule substitution_fills_the_template [OF demo_separate _ _ _ v])
       (simp_all add: demo_data_def demo_template_def template_ok_def)
  also have "\<dots> = ''run seven on 7 times $other''" by code_simp
  finally show ?thesis .
qed

text \<open>
  When a name is a prefix of another, the job depends on the order in which Go happens to
  traverse the map.
\<close>
theorem substitution_can_depend_on_the_order:
  "substitute [(''num'', VFloat 7 0), (''number'', VFloat 9 0)] ''take $number'' = ''take 7ber'' \<and>
   substitute [(''number'', VFloat 9 0), (''num'', VFloat 7 0)] ''take $number'' = ''take 9''"
proof
  show "substitute [(''num'', VFloat 7 0), (''number'', VFloat 9 0)] ''take $number'' = ''take 7ber''" by code_simp
  show "substitute [(''number'', VFloat 9 0), (''num'', VFloat 7 0)] ''take $number'' = ''take 9''" by code_simp
qed

section \<open>Opening the indices\<close>

text \<open>
  C33: With the scripts of the repository, started on a host that answers the same whenever it is
  asked, a service gets the indices of all six aliases exactly if every script reports success,
  every index opens, and the mapping that a script declares is the one its index has; otherwise
  the process ends with a message.
\<close>
theorem indices_open_iff_scripts_succeed:
  assumes "steady H outputs handles maps" "ho_Getwd H = Inr pwd" "ho_GetURL H = Inr esURL"
    "ho_ReadDir H (pwd @ ''/db/'') = Inr db_files" "set order = fst ` set keyToPattern"
  shows "\<exists>r. makeIndices H order w = (Ret r, w) \<and>
    ((\<exists>ixs. r = Inr ixs) \<longleftrightarrow> (\<forall>(a, pattern) \<in> set keyToPattern.
       script_ok outputs handles maps pwd esURL a True (''000-'' @ pattern @ ''.sh''))) \<and>
    (\<forall>ixs. r = Inr ixs \<longrightarrow> map fst ixs = order \<and> (\<forall>(a, h) \<in> set ixs. handles a = Inr h))"
proof -
  have one: "alias_scripts db_files a = [''000-'' @ p @ ''.sh'']" if "(a, p) \<in> set keyToPattern" for a p
    using db_scripts that by blast
  have "alias_scripts db_files a \<noteq> []" if "a \<in> set order" for a
    using that assms(5) one by (metis imageE list.distinct(1) prod.collapse)
  then have all: "filter (\<lambda>a. alias_scripts db_files a \<noteq> []) order = order" by simp
  have ok: "(\<forall>a \<in> set order. alias_ok outputs handles maps pwd esURL a (alias_scripts db_files a)) \<longleftrightarrow>
      (\<forall>(a, p) \<in> set keyToPattern. script_ok outputs handles maps pwd esURL a True (''000-'' @ p @ ''.sh''))"
    unfolding assms(5) using one by (force simp: alias_ok_def)
  from makeIndices_steady [OF assms(1-4), of order w] obtain r where "makeIndices H order w = (Ret r, w)"
    "isl r \<longleftrightarrow> \<not> (\<forall>a \<in> set order. alias_ok outputs handles maps pwd esURL a (alias_scripts db_files a))"
    "\<forall>ixs. r = Inr ixs \<longrightarrow> map fst ixs = order \<and> (\<forall>(a, h) \<in> set ixs. handles a = Inr h)"
    unfolding all by blast
  moreover have "(\<exists>ixs. r = Inr ixs) \<longleftrightarrow> \<not> isl r" by (cases r) simp_all
  ultimately show ?thesis unfolding ok by blast
qed

theorem indices_open_iff_scripts_succeed_witness:
  "\<exists>ixs. makeIndices demo_host (map fst keyToPattern) () = (Ret (Inr ixs), ()) \<and> map fst ixs = map fst keyToPattern"
proof -
  have sel: "ho_Getwd demo_host = Inr ''/app''" "ho_GetURL demo_host = Inr ''http://es''"
    "ho_ReadDir demo_host (''/app'' @ ''/db/'') = Inr db_files"
    by (simp_all add: demo_host_def)
  have "\<forall>(a, p) \<in> set keyToPattern. script_ok (\<lambda>args. Inr demo_output) Inr (\<lambda>h typ. Inr (VMap []))
      ''/app'' ''http://es'' a True (''000-'' @ p @ ''.sh'')"
    using demo_script_ok by blast
  with indices_open_iff_scripts_succeed [OF demo_host_steady sel, of "map fst keyToPattern" "()"]
  show ?thesis by auto
qed

section \<open>The clean-up tool\<close>

text \<open>
  C34: Over a transport that answers, the clean-up of one kind of objects ends exactly if there are
  none or the number of pages of a thousand ends in 0 or 9; otherwise it waits for goroutines
  that were never started.
\<close>
theorem clean_up_ends_iff:
  assumes "answers h" "(num, page) \<in> set (kinds h)" "num w = (Ret (cnt, None), w1)" "0 \<le> cnt"
  shows "fst (deleteAllObjects num page w) =
    (if cnt = 0 \<or> num_pages cnt mod 10 \<in> {0, 9} then Ret None else Hang)"
  using clean_up_result [OF assms] by (simp add: maxThreads_def)

theorem clean_up_ends_iff_witness:
  "fst (deleteAllObjects (Client_GetNumAlerts (demo_transport 1)) (deletePageOfAlerts (demo_transport 1)) ()) = Hang \<and>
   fst (deleteAllObjects (Client_GetNumAlerts (demo_transport 8001)) (deletePageOfAlerts (demo_transport 8001)) ()) = Ret None"
proof -
  have n: "Client_GetNumAlerts (demo_transport c) () = (Ret (c, None), ())" for c
    by (simp add: Client_GetNumAlerts_def getObjectCount_def demo_transport_def bnd_def ret_def pz_IsError_def)
  have k: "(Client_GetNumAlerts h, deletePageOfAlerts h) \<in> set (kinds h)" for h :: "unit transport"
    by (simp add: kinds_def)
  note r = clean_up_ends_iff [OF demo_transport_answers k n]
  have "num_pages 1 = 1" "num_pages 8001 = 9" by code_simp+
  with r [of 1] r [of 8001] show ?thesis by simp
qed

section \<open>Queries\<close>

text \<open>
  C35: The page reported after a query with an offset is the one the offset lies in, and the query
  sent on starts where that page starts.
\<close>
theorem reported_page_holds_the_offset:
  assumes "json_Unmarshal txt = Inr (VMap dsl)" "map_get dsl ''from'' = VFloat m e" "0 \<le> m"
    "0 < PerPage format'" "in_int64 (m div 10 ^ e + PerPage format')"
    "SyncPagination format txt = Ret (Inr txt', format')"
  shows "StartIndex format' \<le> m div 10 ^ e \<and> m div 10 ^ e < EndIndex format' \<and>
    (\<exists>dsl'. txt' = json_text (VMap dsl') \<and> map_get dsl' ''from'' = VInt (StartIndex format'))"
  by (rule SyncPagination_offset [OF assms])

theorem reported_page_holds_the_offset_witness:
  "\<exists>txt' format'. SyncPagination defaultJsonPagination demo_query = Ret (Inr txt', format') \<and>
     StartIndex format' \<le> 57 \<and> 57 < EndIndex format'"
proof -
  have p: "json_Unmarshal demo_query = Inr (VMap [(''size'', VFloat 20 0), (''from'', VFloat 57 0)])" by code_simp
  have "case SyncPagination defaultJsonPagination demo_query of
      Ret r \<Rightarrow> \<not> isl (fst r) \<and> PerPage (snd r) = 20 | _ \<Rightarrow> False"
    by code_simp
  then obtain txt' format' where s: "SyncPagination defaultJsonPagination demo_query = Ret (Inr txt', format')"
    "PerPage format' = 20"
    by (cases "SyncPagination defaultJsonPagination demo_query") (auto simp: isl_def, metis prod.collapse sum.exhaust)
  from reported_page_holds_the_offset [OF p _ _ _ _ s(1), of 57 0] s show ?thesis
    by (simp add: map_get_def in_int64_def)
qed

text \<open>
  C36: A query text that is not an object, or has the size zero and an offset, panics in
  \<open>SyncPagination\<close> whatever kind of objects it asks for: the service recovers without a response,
  and the server dereferences it.
\<close>
theorem crashing_query_panics:
  assumes "json_Unmarshal body = Inr v" "crashing_query v"
    "path \<in> {''/eventType/query'', ''/trigger/query'', ''/alert/query''}"
  shows "fst (Server_serve E \<lparr>rq_verb = ''POST'', rq_path = path, rq_query = [], rq_body = body\<rparr> w) = nil_deref"
proof -
  obtain e where e: "SyncPagination defaultJsonPagination body = Panic e"
    using SyncPagination_crash [OF assms(1,2)] by blast
  consider "path = ''/eventType/query''" | "path = ''/trigger/query''" | "path = ''/alert/query''" using assms(3) by auto
  then show ?thesis
    by cases (auto intro!: nil_response_crashes simp: query_routes query_crashes [OF e] handleEventTypeQuery_def
      handleTriggerQuery_def handleAlertQuery_def with_params_def NewQueryParams_def bnd_def lift_def)
qed

theorem crashing_query_panics_witness:
  "fst (Server_serve demo_env \<lparr>rq_verb = ''POST'', rq_path = ''/alert/query'', rq_query = [], rq_body = demo_zero_query\<rparr> demo_world) =
     nil_deref \<and>
   fst (Server_serve demo_env \<lparr>rq_verb = ''POST'', rq_path = ''/trigger/query'', rq_query = [], rq_body = ''[]''\<rparr> demo_world) =
     nil_deref"
proof
  have "json_Unmarshal demo_zero_query = Inr (VMap [(''size'', VFloat 0 0), (''from'', VFloat 1 0)])"
    "crashing_query (VMap [(''size'', VFloat 0 0), (''from'', VFloat 1 0)])" by code_simp+
  then show "fst (Server_serve demo_env \<lparr>rq_verb = ''POST'', rq_path = ''/alert/query'', rq_query = [],
    rq_body = demo_zero_query\<rparr> demo_world) = nil_deref" by (rule crashing_query_panics) simp
  have "json_Unmarshal ''[]'' = Inr (VArr [])" "crashing_query (VArr [])" by code_simp+
  then show "fst (Server_serve demo_env \<lparr>rq_verb = ''POST'', rq_path = ''/trigger/query'', rq_query = [],
    rq_body = ''[]''\<rparr> demo_world) = nil_deref" by (rule crashing_query_panics) simp
qed

section \<open>Components together\<close>

text \<open>
  C5: Over alerts the service refines an abstract store: from a state that represents it, every
  sequence of creations, lookups and removals is answered as the store answers it, and ends in
  a state that represents the store's, as long as the identifiers it makes are not taken.
\<close>
theorem alerts_refine_a_store:
  assumes "env_idx E = mock_index" "mock_healthy w" "represents mock_docs w s" "new_idents E rqs s"
  shows "\<exists>ps w'. mapM (serve_alert E) rqs w = (Ret ps, w') \<and> list_all2 conveys (fst (answers_of E rqs s)) ps \<and>
    represents mock_docs w' (snd (answers_of E rqs s))"
  using silent.requests_refine [OF assms(1) _ assms(4), of w] healthyD(4,8) [OF assms(2)] assms(3)
  by (auto simp: silent.ready_def)

theorem alerts_refine_a_store_witness:
  "\<exists>ps w' a b. mapM (serve_alert demo_env) demo_requests demo_world = (Ret ps, w') \<and>
    list_all2 conveys [AlertMissing, AlertCreated a, AlertCreated b, AlertRead a, AlertRemoved, AlertMissing, AlertMissing] ps"
proof -
  have ne: "ident_at demo_env 0 \<noteq> ident_at demo_env 16" "ident_at demo_env 0 \<noteq> ''A1''" "ident_at demo_env 16 \<noteq> ''A1''"
    by code_simp+
  have "\<exists>a b. fst (answers_of demo_env demo_requests demo_store) =
      [AlertMissing, AlertCreated a, AlertCreated b, AlertRead a, AlertRemoved, AlertMissing, AlertMissing]"
    using ne by (auto simp: demo_requests_def demo_store_def)
  with alerts_refine_a_store [OF demo_env_sel(1) demo_healthy demo_represents demo_new_idents] show ?thesis by metis
qed



section \<open>Refused events\<close>

text \<open>
  C37: An event of a known type is stored, under an identifier that was free, exactly when its data
  fits the mapping of the type (which is not the percolator's own, \<open>.percolate\<close>): it carries as many
  variables as the mapping declares (an object counting as one where the mapping has a geographic
  type), and a variable of both is an array in both or in neither. Data that does not fit is
  answered with 400 and the reason, which names all missing variables, all unknown ones, or a
  variable that is wrongly an array or not; nothing is stored, sent or counted then. Names are not
  compared, so an event with one variable misnamed is stored.
\<close>
theorem unfit_event_is_refused:
  assumes "env_idx E = percolating_mock matches" "mock_healthy w" "knows_type w et m"
    "ev_EventTypeID ev = et_EventTypeID et" "ev_Data ev = Some kvs"
    "mock_docs (w_events w) (et_Name et) (next_ident E w) = None" "et_Name et \<noteq> percolateTypeName"
  shows "(mock_docs (w_events (snd (Service_PostEvent E ev w))) (et_Name et) (next_ident E w) \<noteq> None \<longleftrightarrow>
      fits m kvs) \<and>
    (\<not> fits m kvs \<longrightarrow> (\<exists>e l. unfit_reason m kvs e \<and> Service_PostEvent E ev w =
      (Ret (Some (message_response 400 [] e (env_Name E))), (drawn w)\<lparr>w_audit := l\<rparr>)))"
proof (cases "event_check m kvs")
  case None
  have "mock_docs (w_events (snd (Service_PostEvent E ev w))) (et_Name et) (next_ident E w) =
      Some (wire (enc_event (wrapped_event (et_Name et) (new_event E w ev))))"
    by (rule perc.PostEvent_stores [OF assms(1)])
       (use None assms(4-7) healthyD [OF assms(2)] knows_typeD [OF assms(3)] in simp_all)
  with None show ?thesis by (simp add: event_check_None_iff)
next
  case (Some e)
  then have "\<not> fits m kvs" by (simp flip: event_check_None_iff)
  moreover from perc.PostEvent_invalid [OF assms(1), of w ev et m kvs e] healthyD [OF assms(2)]
    knows_typeD [OF assms(3)] assms(4,5) Some obtain l where
    "Service_PostEvent E ev w = (Ret (Some (message_response 400 [] e (env_Name E))), (drawn w)\<lparr>w_audit := l\<rparr>)"
    by auto
  ultimately show ?thesis using event_check_reason [OF Some] assms(6) by auto
qed

text \<open>An event without the variable \<open>txt\<close> is refused; one that has \<open>tyt\<close> instead is stored.\<close>

theorem unfit_event_is_refused_witness:
  "(\<exists>e l. unfit_reason demo_mapping [(''num'', VFloat 7 0)] e \<and>
    Service_PostEvent demo_perc (demo_event\<lparr>ev_Data := Some [(''num'', VFloat 7 0)]\<rparr>) demo_world =
      (Ret (Some (message_response 400 [] e (env_Name demo_perc))), (drawn demo_world)\<lparr>w_audit := l\<rparr>)) \<and>
   mock_docs (w_events (snd (Service_PostEvent demo_perc
     (demo_event\<lparr>ev_Data := Some [(''num'', VFloat 7 0), (''tyt'', VStr ''x'')]\<rparr>) demo_world)))
     ''alpha'' (next_ident demo_perc demo_world) \<noteq> None"
proof -
  have f: "\<not> fits demo_mapping [(''num'', VFloat 7 0)]"
    "fits demo_mapping [(''num'', VFloat 7 0), (''tyt'', VStr ''x'')]" by code_simp+
  note p = unfit_event_is_refused [OF demo_env_sel(2) demo_healthy demo_knows]
  have "\<exists>e l. unfit_reason demo_mapping [(''num'', VFloat 7 0)] e \<and>
    Service_PostEvent demo_perc (demo_event\<lparr>ev_Data := Some [(''num'', VFloat 7 0)]\<rparr>) demo_world =
      (Ret (Some (message_response 400 [] e (env_Name demo_perc))), (drawn demo_world)\<lparr>w_audit := l\<rparr>)"
    using p [of "demo_event\<lparr>ev_Data := Some [(''num'', VFloat 7 0)]\<rparr>" "[(''num'', VFloat 7 0)]"] f(1)
    by (simp add: percolateTypeName_def)
  moreover have "mock_docs (w_events (snd (Service_PostEvent demo_perc
     (demo_event\<lparr>ev_Data := Some [(''num'', VFloat 7 0), (''tyt'', VStr ''x'')]\<rparr>) demo_world)))
     ''alpha'' (next_ident demo_perc demo_world) \<noteq> None"
    using p [of "demo_event\<lparr>ev_Data := Some [(''num'', VFloat 7 0), (''tyt'', VStr ''x'')]\<rparr>"
      "[(''num'', VFloat 7 0), (''tyt'', VStr ''x'')]"] f(2) by (simp add: percolateTypeName_def)
  ultimately show ?thesis by blast
qed

text \<open>
  C38: When the authorisation service denies the type's owner to create jobs, an event that would
  fire a trigger is answered with 403: no job is sent, no alert is left and nothing is counted,
  although the event stays stored.
\<close>
theorem denied_access_sends_nothing:
  assumes "env_idx E = percolating_mock matches" "mock_healthy w" "knows_type w et m"
    "ev_EventTypeID ev = et_EventTypeID et" "ev_Data ev = Some kvs" "event_check m kvs = None"
    "mock_docs (w_events w) (et_Name et) (next_ident E w) = None"
    "\<And>x. matches x (et_Name et) (percolated (et_Name et) ev) = ids"
    "\<And>i. i \<in> set ids \<Longrightarrow> stored_trigger (mock_docs (w_triggers w)) i = Some (trg i)"
    "access_denied E et" "fired et trg ids \<noteq> []" "et_Name et \<noteq> percolateTypeName"
  shows "\<exists>w'. Service_PostEvent E ev w = (Ret (Some (denial E)), w') \<and> StatusCode (denial E) = 403 \<and>
    w_mq w' = w_mq w \<and> w_alerts w' = w_alerts w \<and> w_stats w' = w_stats w \<and>
    mock_docs (w_events w') (et_Name et) (next_ident E w) =
      Some (wire (enc_event (wrapped_event (et_Name et) (new_event E w ev))))"
proof -
  have "\<exists>w'. Service_PostEvent E ev w = (Ret (Some (denial E)), w') \<and> w_mq w' = w_mq w \<and>
    w_alerts w' = w_alerts w \<and> w_stats w' = w_stats w \<and>
    (et_Name et \<noteq> percolateTypeName \<longrightarrow> mock_docs (w_events w') (et_Name et) (next_ident E w) =
       Some (wire (enc_event (wrapped_event (et_Name et) (new_event E w ev)))))"
    by (rule perc.PostEvent_denied [OF assms(1)])
       (use assms knows_typeD [OF assms(3)] healthyD [OF assms(2)] in \<open>simp_all add: percolated_def\<close>)
  with assms(12) show ?thesis by (auto simp: denial_def message_response_def)
qed

theorem denied_access_sends_nothing_witness:
  "\<exists>w'. Service_PostEvent demo_denied demo_event demo_world = (Ret (Some (denial demo_denied)), w') \<and> w_mq w' = [] \<and>
    w_alerts w' = w_alerts demo_world"
proof -
  let ?trg = "\<lambda>i. demo_trigger i (i = ''T1'')"
  have "\<exists>w'. Service_PostEvent demo_denied demo_event demo_world = (Ret (Some (denial demo_denied)), w') \<and>
    StatusCode (denial demo_denied) = 403 \<and> w_mq w' = w_mq demo_world \<and> w_alerts w' = w_alerts demo_world \<and>
    w_stats w' = w_stats demo_world \<and>
    mock_docs (w_events w') (et_Name demo_type) (next_ident demo_denied demo_world) =
      Some (wire (enc_event (wrapped_event (et_Name demo_type) (new_event demo_denied demo_world demo_event))))"
    by (rule denied_access_sends_nothing [where m = demo_mapping and kvs = demo_data and trg = ?trg
          and ids = "[''T1'', ''T2'']" and matches = demo_matches])
       (simp_all add: demo_healthy demo_knows demo_json demo_stored demo_event_sel demo_access_denied demo_fired
         demo_matches_def percolateTypeName_def)
  then show ?thesis by auto
qed

text \<open>
  C39: Switching a trigger corrupts its condition: in what is read afterwards every key with two dots or
  more has lost its second component, so that a condition on a nested variable \<open>data.pos.x\<close> has
  become one on \<open>data.x\<close>. The type's name has neither dot nor tilde and is no key of the condition,
  before or after; the keys of the condition have no tilde and either no dot or the prefix \<open>data.\<close>
  (\<open>cond_key\<close>), stay apart from each other when shortened, and those of the job's data have neither
  dots nor tildes (\<open>switchable\<close>). Without a key of two dots nothing is lost.
\<close>
theorem switching_corrupts_nested_conditions:
  assumes "env_idx E = mock_index" "mock_healthy w" "knows_type w et m" "type_name_ok (et_Name et)"
    "tr_EventTypeID t = et_EventTypeID et" "et_EventTypeID et \<noteq> []" "check_service E t = Inr ()"
    "mock_docs (w_triggers w) TriggerDBMapping (next_ident E w) = None"
    "switchable t kvs" "keys_ok_entries cond_key kvs" "map_of kvs (et_Name et) = None"
    "map_of (switched kvs) (et_Name et) = None"
  shows "\<exists>w1 w2. Service_PostTrigger E t w = (Ret (Some (typed_response 201 (PTrigger (new_trigger E w t)))), w1) \<and>
    Service_PutTrigger E (next_ident E w) \<lparr>tu_Enabled = b\<rparr> w1 =
      (Ret (Some (message_response 200 ''success'' ''Updated trigger'' (env_Name E))), w2) \<and>
    fst (Service_GetTrigger E (next_ident E w) w2) = Ret (Some (typed_response 200
      (PTrigger ((read_trigger (new_trigger E w t))\<lparr>tr_Enabled := b, tr_Condition := Some (switched kvs)\<rparr>))))"
  by (rule post_put_get [OF assms])

theorem switching_corrupts_nested_conditions_witness:
  "\<exists>w1 w2 t'. Service_PostTrigger demo_env demo_nested_trigger demo_world =
      (Ret (Some (typed_response 201 (PTrigger (new_trigger demo_env demo_world demo_nested_trigger)))), w1) \<and>
    Service_PutTrigger demo_env (next_ident demo_env demo_world) \<lparr>tu_Enabled = False\<rparr> w1 =
      (Ret (Some (message_response 200 ''success'' ''Updated trigger'' (env_Name demo_env))), w2) \<and>
    fst (Service_GetTrigger demo_env (next_ident demo_env demo_world) w2) = Ret (Some (typed_response 200 (PTrigger t'))) \<and>
    tr_Condition demo_nested_trigger = Some (demo_nested ''data.pos.x'') \<and> tr_Condition t' = Some (demo_nested ''data.x'')"
proof -
  note n = demo_nested_ok
  show ?thesis
    using switching_corrupts_nested_conditions [OF demo_env_sel(1) demo_healthy demo_knows, of demo_nested_trigger
        "demo_nested ''data.pos.x''" False] n
    by (simp add: mapping_names) (force simp: demo_nested_trigger_def)
qed

section \<open>The client over the server\<close>

text \<open>
  C9: What a client reads is what the server answered: the status, the message, the number of
  objects and the data, up to the order of keys, survive the JSON text in between.
\<close>
theorem responses_survive_the_wire:
  assumes "writable (enc_payload (Data r))" "in_int64 (StatusCode r)" "paged_ok r"
  shows "\<exists>p. read_response (StatusCode r) (json_text (enc_response r) @ [CHR 0x0A]) = p \<and>
    pz_StatusCode p = StatusCode r \<and> pz_Message p = Message r \<and> pz_Count p = map_option Count (Pagination r) \<and>
    DeepEqual (pz_Data p) (wire (enc_payload (Data r)))"
  using read_response_text [OF assms] DeepEqual_read_back [of "enc_payload (Data r)"]
  by (auto simp: received_def enc_payload_def)

theorem responses_survive_the_wire_witness:
  "\<exists>p. read_response 200 (json_text (enc_response demo_answer) @ [CHR 0x0A]) = p \<and> pz_Message p = ''two'' \<and>
    pz_Count p = Some 2 \<and> DeepEqual (pz_Data p) (wire (VArr [enc_alert demo_alert]))"
proof -
  have "writable (enc_payload (Data demo_answer))" "in_int64 (StatusCode demo_answer)" "paged_ok demo_answer"
    by code_simp+
  from responses_survive_the_wire [OF this] show ?thesis
    by (simp add: demo_answer_def data_response_def message_response_def enc_payload_def defaultJsonPagination_def)
qed

text \<open>
  C3: Through the client library, the server and the service, alerts are an abstract store: every
  sequence of creations, lookups and removals by a client is answered as the store answers it,
  and a missing alert is an error of the call.
\<close>
theorem clients_see_an_alert_store:
  assumes "env_idx E = mock_index" "mock_healthy w" "represents mock_docs w s" "new_idents E rqs s"
    "list_all askable rqs"
  shows "\<exists>xs w'. mapM (ask_alert (server_transport E)) rqs w = (Ret xs, w') \<and>
    list_all2 tells (fst (answers_of E rqs s)) xs \<and> represents mock_docs w' (snd (answers_of E rqs s))"
  using silent.asks_refine [OF assms(1) _ assms(4,5), of w] healthyD(4,8) [OF assms(2)] assms(3)
  by (auto simp: silent.ready_def)

theorem clients_see_an_alert_store_witness:
  "\<exists>xs w' a b. mapM (ask_alert (server_transport demo_env)) demo_requests demo_world = (Ret xs, w') \<and>
    list_all2 tells [AlertMissing, AlertCreated a, AlertCreated b, AlertRead a, AlertRemoved, AlertMissing, AlertMissing] xs"
proof -
  have ne: "ident_at demo_env 0 \<noteq> ident_at demo_env 16" "ident_at demo_env 0 \<noteq> ''A1''" "ident_at demo_env 16 \<noteq> ''A1''"
    by code_simp+
  have "\<exists>a b. fst (answers_of demo_env demo_requests demo_store) =
      [AlertMissing, AlertCreated a, AlertCreated b, AlertRead a, AlertRemoved, AlertMissing, AlertMissing]"
    using ne by (auto simp: demo_requests_def demo_store_def)
  with clients_see_an_alert_store [OF demo_env_sel(1) demo_healthy demo_represents demo_new_idents demo_askable]
  show ?thesis by metis
qed



text \<open>
  C40: The client's updates of event types, events and alerts have no route on the server: whatever
  the object, each call returns an error and the zero object, and nothing changes.
\<close>
theorem client_updates_have_no_route:
  "(\<exists>e. Client_PutEventType (server_transport E) et w = (Ret (zero_eventType, Some e), w)) \<and>
   (\<exists>e. Client_PutEvent (server_transport E) ev w = (Ret (zero_event, Some e), w)) \<and>
   (\<exists>e. Client_PutAlert (server_transport E) a w = (Ret (zero_alert, Some e), w))"
  unfolding Client_PutEventType_def Client_PutEvent_def Client_PutAlert_def
  by (intro conjI put_unrouted no_put_routes) simp_all

end
